theory Spec2Isabelle
  imports Complex_Main "HOL-Library.AList"
begin

section \<open>JavaScript values used by the loaders\<close>

text \<open>
  Strings are HOL strings; a character stands for one code unit below 256. The
  white space of \<^verbatim>\<open>String.prototype.trim\<close>, of \<^verbatim>\<open>parseInt\<close>/\<^verbatim>\<open>parseFloat\<close> and of the regular
  expression class \<^verbatim>\<open>\s\<close> is, in that range: TAB, LF, VT, FF, CR, SPACE and NBSP.
  The class \<^verbatim>\<open>\d\<close> is the ten ASCII digits.
\<close>

definition isWhiteSpace :: "char \<Rightarrow> bool" where
  "isWhiteSpace c = (of_char c \<in> {9, 10, 11, 12, 13, 32, 160 :: nat})"

definition isDigit :: "char \<Rightarrow> bool" where
  "isDigit c = (48 \<le> (of_char c :: nat) \<and> (of_char c :: nat) \<le> 57)"

definition trimStart :: "string \<Rightarrow> string" where
  "trimStart s = dropWhile isWhiteSpace s"

definition trim :: "string \<Rightarrow> string" where
  "trim s = rev (dropWhile isWhiteSpace (rev (dropWhile isWhiteSpace s)))"

text \<open>\<^verbatim>\<open>s.split(sep)\<close> for a one-character separator: never empty, \<^verbatim>\<open>"".split(",")\<close> is \<^verbatim>\<open>[""]\<close>.\<close>

fun split :: "char \<Rightarrow> string \<Rightarrow> string list" where
  "split sep [] = [[]]"
| "split sep (c # cs) =
     (if c = sep then [] # split sep cs
      else (case split sep cs of [] \<Rightarrow> [[c]] | w # ws \<Rightarrow> (c # w) # ws))"

definition digitsValue :: "string \<Rightarrow> nat" where
  "digitsValue ds = foldl (\<lambda>a c. 10 * a + (of_char c - 48)) 0 ds"

text \<open>An optional sign in front of a numeric literal: whether it is a minus, and the rest.\<close>

definition stripSign :: "string \<Rightarrow> bool \<times> string" where
  "stripSign s =
     (case s of
        [] \<Rightarrow> (False, [])
      | c # r \<Rightarrow> if c = CHR ''-'' then (True, r)
                else if c = CHR ''+'' then (False, r) else (False, s))"

text \<open>
  \<^verbatim>\<open>parseInt(s, 10)\<close>: leading white space, an optional sign, then the longest run of
  digits; \<open>None\<close> is NaN. Integers are exact (JavaScript rounds beyond $2^{53}$).
\<close>

definition parseInt :: "string \<Rightarrow> int option" where
  "parseInt s =
     (let (neg, u) = stripSign (trimStart s);
          ds = takeWhile isDigit u
      in if ds = [] then None
         else Some (if neg then - int (digitsValue ds) else int (digitsValue ds)))"

text \<open>
  A JavaScript number that \<^verbatim>\<open>parseFloat\<close> can return. A finite value is kept as the exact
  rational the decimal literal denotes; the rounding to binary64 is not modelled.
\<close>

datatype number = NaN | Finite rat | PosInfinity | NegInfinity

definition isNaN :: "number \<Rightarrow> bool" where
  "isNaN x = (x = NaN)"

definition negate :: "number \<Rightarrow> number" where
  "negate x =
     (case x of NaN \<Rightarrow> NaN | Finite q \<Rightarrow> Finite (- q)
      | PosInfinity \<Rightarrow> NegInfinity | NegInfinity \<Rightarrow> PosInfinity)"

text \<open>The value of an exponent part \<^verbatim>\<open>e[+-]?\d+\<close> at the head of the string, 0 when there is none.\<close>

definition exponentPart :: "string \<Rightarrow> int" where
  "exponentPart s =
     (case s of
        [] \<Rightarrow> 0
      | c # r \<Rightarrow>
          if c = CHR ''e'' \<or> c = CHR ''E'' then
            (let (neg, u) = stripSign r; ds = takeWhile isDigit u
             in if ds = [] then 0
                else if neg then - int (digitsValue ds) else int (digitsValue ds))
          else 0)"

definition decimalValue :: "string \<Rightarrow> string \<Rightarrow> int \<Rightarrow> rat" where
  "decimalValue ip fp e =
     (let m = of_nat (digitsValue (ip @ fp)); k = e - int (length fp)
      in if 0 \<le> k then m * 10 ^ nat k else m / 10 ^ nat (- k))"

definition unsignedDecimal :: "string \<Rightarrow> number" where
  "unsignedDecimal s =
     (if take 8 s = ''Infinity'' then PosInfinity
      else
        (let ip = takeWhile isDigit s; r1 = dropWhile isDigit s
         in case r1 of
              [] \<Rightarrow> if ip = [] then NaN else Finite (decimalValue ip [] 0)
            | c # r2 \<Rightarrow>
                if c = CHR ''.'' then
                  (let fp = takeWhile isDigit r2; r3 = dropWhile isDigit r2
                   in if ip = [] \<and> fp = [] then NaN
                      else Finite (decimalValue ip fp (exponentPart r3)))
                else if ip = [] then NaN
                else Finite (decimalValue ip [] (exponentPart r1))))"

text \<open>\<^verbatim>\<open>parseFloat(s)\<close>: the longest prefix of the trimmed string that is a decimal literal.\<close>

definition parseFloat :: "string \<Rightarrow> number" where
  "parseFloat s =
     (let (neg, u) = stripSign (trimStart s)
      in if neg then negate (unsignedDecimal u) else unsignedDecimal u)"

section \<open>iniLoader.ts: lines and comma separated groups\<close>

definition startsWith :: "string \<Rightarrow> char \<Rightarrow> bool" where
  "startsWith s c = (case s of [] \<Rightarrow> False | x # _ \<Rightarrow> x = c)"

text \<open>\<^verbatim>\<open>parseIniLine\<close>: \<open>None\<close> for a blank line, a comment, or a line with no \<^verbatim>\<open>=\<close>.\<close>

definition parseIniLine :: "string \<Rightarrow> (string \<times> string) option" where
  "parseIniLine line =
     (let trimmed = trim line
      in if trimmed = [] \<or> startsWith trimmed CHR '';'' \<or> startsWith trimmed CHR ''#''
         then None
         else if CHR ''='' \<notin> set trimmed then None
         else Some (trim (takeWhile (\<lambda>c. c \<noteq> CHR ''='') trimmed),
                    trim (tl (dropWhile (\<lambda>c. c \<noteq> CHR ''='') trimmed))))"

text \<open>\<^verbatim>\<open>value.split(',').map(s => s.trim()).filter(s => s !== '')\<close>\<close>

definition csvParts :: "string \<Rightarrow> string list" where
  "csvParts v = filter (\<lambda>s. s \<noteq> []) (map trim (split CHR '','' v))"

record ItemDrop =
  drop_itemId :: int
  drop_itemName :: string
  drop_minAmount :: int
  drop_maxAmount :: int
  drop_dropRate :: number

text \<open>
  The loop of \<^verbatim>\<open>loadDrops\<close> over \<^verbatim>\<open>parts\<close>:
  \<^verbatim>\<open>for (let i = 0; i + 4 <= parts.length; i += 4)\<close>, pushing onto \<^verbatim>\<open>npcDrops\<close>.
\<close>

function dropsLoop :: "string list \<Rightarrow> nat \<Rightarrow> ItemDrop list \<Rightarrow> ItemDrop list" where
  "dropsLoop parts i npcDrops =
     (if i + 4 \<le> length parts then
        (let itemId = parseInt (parts ! i);
             min = parseInt (parts ! (i + 1));
             max = parseInt (parts ! (i + 2));
             rate = parseFloat (parts ! (i + 3))
         in dropsLoop parts (i + 4)
              (if itemId \<noteq> None \<and> min \<noteq> None \<and> max \<noteq> None \<and> \<not> isNaN rate
               then npcDrops @
                 [\<lparr>drop_itemId = the itemId, drop_itemName = [], drop_minAmount = the min,
                   drop_maxAmount = the max, drop_dropRate = rate\<rparr>]
               else npcDrops))
      else npcDrops)"
  by pat_completeness auto
termination
  by (relation "measure (\<lambda>(parts, i, npcDrops). length parts - i)") auto

declare dropsLoop.simps [simp del]

definition parseDropsValue :: "string \<Rightarrow> ItemDrop list" where
  "parseDropsValue v = dropsLoop (csvParts v) 0 []"


record Trade =
  trade_itemId :: int
  trade_buyPrice :: "int option"
  trade_sellPrice :: "int option"

record CraftIngredient =
  ingr_itemId :: int
  ingr_itemName :: string
  ingr_amount :: int

record Craft =
  craft_resultItemId :: int
  craft_ingredients :: "CraftIngredient list"

record ShopData =
  shop_id :: int
  shop_name :: string
  shop_trades :: "Trade list"
  shop_crafts :: "Craft list"

text \<open>The \<^verbatim>\<open>trade\<close> case of \<^verbatim>\<open>loadShops\<close>: groups of 3, pushed onto \<^verbatim>\<open>shop.trades\<close>.\<close>

function tradesLoop :: "string list \<Rightarrow> nat \<Rightarrow> Trade list \<Rightarrow> Trade list" where
  "tradesLoop parts i trades =
     (if i + 3 \<le> length parts then
        (let itemId = parseInt (parts ! i);
             buyPrice = parseInt (parts ! (i + 1));
             sellPrice = parseInt (parts ! (i + 2))
         in tradesLoop parts (i + 3)
              (if itemId \<noteq> None \<and> buyPrice \<noteq> None \<and> sellPrice \<noteq> None
               then trades @
                 [\<lparr>trade_itemId = the itemId, trade_buyPrice = buyPrice,
                   trade_sellPrice = sellPrice\<rparr>]
               else trades))
      else trades)"
  by pat_completeness auto
termination
  by (relation "measure (\<lambda>(parts, i, trades). length parts - i)") auto

declare tradesLoop.simps [simp del]

text \<open>The four ingredient slots of one craft group: \<^verbatim>\<open>for (let j = 0; j < 4; j++)\<close>.\<close>

definition craftIngredients :: "string list \<Rightarrow> nat \<Rightarrow> CraftIngredient list" where
  "craftIngredients parts i =
     concat (map (\<lambda>j.
        (let ingrId = parseInt (parts ! (i + 1 + j * 2));
             ingrAmt = parseInt (parts ! (i + 2 + j * 2))
         in if ingrId \<noteq> None \<and> 0 < the ingrId \<and> ingrAmt \<noteq> None \<and> 0 < the ingrAmt
            then [\<lparr>ingr_itemId = the ingrId, ingr_itemName = [], ingr_amount = the ingrAmt\<rparr>]
            else [])) [0 ..< 4])"

text \<open>The \<^verbatim>\<open>craft\<close> case: groups of 9, pushed onto \<^verbatim>\<open>shop.crafts\<close>.\<close>

function craftsLoop :: "string list \<Rightarrow> nat \<Rightarrow> Craft list \<Rightarrow> Craft list" where
  "craftsLoop parts i crafts =
     (if i + 9 \<le> length parts then
        (let resultItemId = parseInt (parts ! i)
         in if resultItemId = None then craftsLoop parts (i + 9) crafts
            else
              (let ingredients = craftIngredients parts i
               in craftsLoop parts (i + 9)
                    (if ingredients \<noteq> []
                     then crafts @
                       [\<lparr>craft_resultItemId = the resultItemId,
                         craft_ingredients = ingredients\<rparr>]
                     else crafts)))
      else crafts)"
  by pat_completeness auto
termination
  by (relation "measure (\<lambda>(parts, i, crafts). length parts - i)") auto

declare craftsLoop.simps [simp del]

section \<open>The entities of types/game, as the loaders and the indexer use them\<close>

text \<open>
  A JavaScript \<^verbatim>\<open>Map\<close> is an association list in insertion order with distinct keys:
  \<^verbatim>\<open>get\<close> is \<open>map_of\<close>, \<^verbatim>\<open>set\<close> is \<open>AList.update\<close> (an existing key keeps its place, a new
  key goes last), iteration follows the list. An object held in a map and mutated through a
  reference obtained by \<^verbatim>\<open>get\<close> is changed in place with \<open>AList.map_entry\<close>.

  An optional field \<^verbatim>\<open>f?: T\<close> is a \<open>T option\<close>. Field names carry the record's prefix.
  Of an item, an NPC, a spell and a class the model keeps the fields the indexer reads or
  writes; the numeric stat blocks, which the loaders copy field by field and nothing else
  touches, are left out.
\<close>

type_synonym ('k, 'v) Map = "('k \<times> 'v) list"

record NpcDrop =
  nd_npcId :: int
  nd_npcName :: string
  nd_minAmount :: int
  nd_maxAmount :: int
  nd_dropRate :: number

record ShopInfo =
  si_shopId :: int
  si_shopName :: string
  si_npcId :: "int option"
  si_npcName :: "string option"
  si_buyPrice :: "int option"
  si_sellPrice :: "int option"

record CraftInfo =
  ci_shopId :: int
  ci_shopName :: string
  ci_npcId :: "int option"
  ci_npcName :: "string option"
  ci_ingredients :: "CraftIngredient list"

record NpcShopItem =
  nsi_itemId :: int
  nsi_itemName :: string
  nsi_buyPrice :: "int option"
  nsi_sellPrice :: "int option"

record NpcCraftItem =
  nci_resultItemId :: int
  nci_resultItemName :: string
  nci_ingredients :: "CraftIngredient list"

record PetStats =
  ps_str :: int
  ps_int :: int
  ps_wis :: int
  ps_agi :: int
  ps_con :: int
  ps_cha :: int
  ps_armor :: int
  ps_evade :: int
  ps_accuracy :: int
  ps_minDamage :: int
  ps_maxDamage :: int

record PetInfo =
  pet_itemId :: int
  pet_itemName :: string
  pet_stats :: PetStats

record SpecialDropInfo =
  sd_effect :: int
  sd_serverMessage :: bool

record SpecialSpawnInfo =
  ss_spawnFromNpcId :: int
  ss_spawnFromNpcName :: string
  ss_chance :: number
  ss_amount :: int
  ss_message :: "string option"

datatype CastType = target | aoe

record SpellcastInfo =
  sc_spellId :: int
  sc_spellName :: string
  sc_castType :: CastType
  sc_damage :: int
  sc_chance :: number

record MapSpawnInfo =
  ms_mapId :: int
  ms_mapName :: string
  ms_x :: int
  ms_y :: int
  ms_spawnType :: int
  ms_spawnTime :: int
  ms_amount :: int

record MapNpcSpawn =
  mns_mapId :: int
  mns_mapName :: string
  mns_npcId :: int
  mns_x :: int
  mns_y :: int
  mns_spawnType :: int
  mns_spawnTime :: int
  mns_amount :: int

datatype QuestRole = dialogue | kill

record QuestInvolvement =
  qi_questId :: int
  qi_questName :: string
  qi_role :: QuestRole

record QuestReward =
  qr_questId :: int
  qr_questName :: string
  qr_amount :: int

record QuestRequirement =
  qq_questId :: int
  qq_questName :: string
  qq_count :: int

record GameItem =
  item_id :: int
  item_name :: string
  item_graphicId :: int
  item_dropsFrom :: "NpcDrop list option"
  item_soldAt :: "ShopInfo list option"
  item_craftedAt :: "CraftInfo list option"
  item_isSpecialDrop :: "SpecialDropInfo option"
  item_questRewards :: "QuestReward list option"
  item_questRequirements :: "QuestRequirement list option"

record GameNpc =
  npc_id :: int
  npc_name :: string
  npc_graphicId :: int
  npc_behaviorId :: int
  npc_drops :: "ItemDrop list option"
  npc_shopItems :: "NpcShopItem list option"
  npc_craftItems :: "NpcCraftItem list option"
  npc_petVersion :: "PetInfo option"
  npc_isSpecialSpawn :: "SpecialSpawnInfo option"
  npc_spellcasting :: "SpellcastInfo option"
  npc_spawnsOnMaps :: "MapSpawnInfo list option"
  npc_questInvolvement :: "QuestInvolvement list option"

record GameSpell =
  spell_id :: int
  spell_name :: string

record GameClass =
  class_id :: int
  class_name :: string

record GameMap =
  map_id :: int
  map_name :: string

record QuestNpc =
  qn_npcId :: int
  qn_npcName :: "string option"
  qn_enfId :: "int option"
  qn_graphicId :: "int option"

record QuestRewardItem =
  qri_itemId :: int
  qri_amount :: int
  qri_itemName :: "string option"

record KillRequirement =
  kr_npcId :: int
  kr_count :: int
  kr_npcName :: "string option"
  kr_enfId :: "int option"
  kr_graphicId :: "int option"

record ItemRequirement =
  ir_itemId :: int
  ir_count :: int
  ir_itemName :: "string option"

record GameQuest =
  quest_id :: int
  quest_name :: string
  quest_involvedNpcs :: "QuestNpc list"
  quest_rewardItems :: "QuestRewardItem list"
  quest_rewardExp :: int
  quest_killRequirements :: "KillRequirement list"
  quest_itemRequirements :: "ItemRequirement list"

record GameDatabase =
  db_items :: "(int, GameItem) Map"
  db_npcs :: "(int, GameNpc) Map"
  db_spells :: "(int, GameSpell) Map"
  db_classes :: "(int, GameClass) Map"
  db_maps :: "(int, GameMap) Map"
  db_quests :: "(int, GameQuest) Map"
  db_itemsByName :: "(string, GameItem) Map"
  db_npcsByName :: "(string, GameNpc) Map"
  db_spellsByName :: "(string, GameSpell) Map"

text \<open>
  An item and an NPC as \<^verbatim>\<open>loadItems\<close> and \<^verbatim>\<open>loadNpcs\<close> build them: the relationship fields
  are not set.
\<close>

definition newItem :: "int \<Rightarrow> string \<Rightarrow> int \<Rightarrow> GameItem" where
  "newItem i nm g =
     \<lparr>item_id = i, item_name = nm, item_graphicId = g, item_dropsFrom = None,
      item_soldAt = None, item_craftedAt = None, item_isSpecialDrop = None,
      item_questRewards = None, item_questRequirements = None\<rparr>"

definition newNpc :: "int \<Rightarrow> string \<Rightarrow> int \<Rightarrow> int \<Rightarrow> GameNpc" where
  "newNpc i nm g b =
     \<lparr>npc_id = i, npc_name = nm, npc_graphicId = g, npc_behaviorId = b, npc_drops = None,
      npc_shopItems = None, npc_craftItems = None, npc_petVersion = None,
      npc_isSpecialSpawn = None, npc_spellcasting = None, npc_spawnsOnMaps = None,
      npc_questInvolvement = None\<rparr>"

section \<open>indexer.ts: the stitching passes\<close>

text \<open>\<^verbatim>\<open>if (!x.f) { x.f = []; }  x.f.push(v)\<close> on an optional array field.\<close>

definition pushOpt :: "'a list option \<Rightarrow> 'a \<Rightarrow> 'a list option" where
  "pushOpt l v = Some ((case l of None \<Rightarrow> [] | Some xs \<Rightarrow> xs) @ [v])"

text \<open>
  \<^verbatim>\<open>indexDrops\<close>. The inner loop \<^verbatim>\<open>for (const drop of npcDrops)\<close> runs with the NPC found
  under \<^verbatim>\<open>npcId\<close>, whose name is \<open>npcName\<close>; the state is the two tables, and \<open>d\<close>
  is the source's \<^verbatim>\<open>drop\<close>.
\<close>

fun indexDropsInner ::
  "int \<Rightarrow> string \<Rightarrow> ItemDrop list \<Rightarrow> (int, GameItem) Map \<times> (int, GameNpc) Map
     \<Rightarrow> (int, GameItem) Map \<times> (int, GameNpc) Map" where
  "indexDropsInner npcId npcName [] (items, npcs) = (items, npcs)"
| "indexDropsInner npcId npcName (d # rest) (items, npcs) =
     (case map_of items (drop_itemId d) of
        None \<Rightarrow> indexDropsInner npcId npcName rest (items, npcs)
      | Some item \<Rightarrow>
          (let drop' = d\<lparr>drop_itemName := item_name item\<rparr>;
               npcs' = AList.map_entry npcId
                 (\<lambda>npc. npc\<lparr>npc_drops := pushOpt (npc_drops npc) drop'\<rparr>) npcs;
               npcDrop = \<lparr>nd_npcId = npcId, nd_npcName = npcName,
                          nd_minAmount = drop_minAmount d,
                          nd_maxAmount = drop_maxAmount d,
                          nd_dropRate = drop_dropRate d\<rparr>;
               items' = AList.map_entry (drop_itemId d)
                 (\<lambda>it. it\<lparr>item_dropsFrom := pushOpt (item_dropsFrom it) npcDrop\<rparr>) items
           in indexDropsInner npcId npcName rest (items', npcs')))"

fun indexDrops ::
  "(int, GameItem) Map \<Rightarrow> (int, GameNpc) Map \<Rightarrow> (int, ItemDrop list) Map
     \<Rightarrow> (int, GameItem) Map \<times> (int, GameNpc) Map" where
  "indexDrops items npcs [] = (items, npcs)"
| "indexDrops items npcs ((npcId, npcDrops) # rest) =
     (case map_of npcs npcId of
        None \<Rightarrow> indexDrops items npcs rest
      | Some npc \<Rightarrow>
          (let npcs0 = AList.map_entry npcId (\<lambda>n. n\<lparr>npc_drops := Some []\<rparr>) npcs;
               (items', npcs') = indexDropsInner npcId (npc_name npc) npcDrops (items, npcs0)
           in indexDrops items' npcs' rest))"

text \<open>
  \<^verbatim>\<open>indexShops\<close>. \<open>npc\<close> is the result of \<^verbatim>\<open>npcs.get(shopId)\<close>, looked up once per shop; its id
  and name never change. The loop over the trades of one shop:
\<close>

fun indexTrades ::
  "int \<Rightarrow> string \<Rightarrow> GameNpc option \<Rightarrow> Trade list
     \<Rightarrow> (int, GameItem) Map \<times> (int, GameNpc) Map
     \<Rightarrow> (int, GameItem) Map \<times> (int, GameNpc) Map" where
  "indexTrades shopId shopName npc [] (items, npcs) = (items, npcs)"
| "indexTrades shopId shopName npc (trade # rest) (items, npcs) =
     (case map_of items (trade_itemId trade) of
        None \<Rightarrow> indexTrades shopId shopName npc rest (items, npcs)
      | Some item \<Rightarrow>
          (let shopInfo = \<lparr>si_shopId = shopId, si_shopName = shopName,
                           si_npcId = map_option npc_id npc,
                           si_npcName = map_option npc_name npc,
                           si_buyPrice = trade_buyPrice trade,
                           si_sellPrice = trade_sellPrice trade\<rparr>;
               items' = AList.map_entry (trade_itemId trade)
                 (\<lambda>it. it\<lparr>item_soldAt := pushOpt (item_soldAt it) shopInfo\<rparr>) items;
               npcs' =
                 (case npc of
                    None \<Rightarrow> npcs
                  | Some _ \<Rightarrow>
                      AList.map_entry shopId
                        (\<lambda>n. n\<lparr>npc_shopItems := pushOpt (npc_shopItems n)
                           \<lparr>nsi_itemId = trade_itemId trade, nsi_itemName = item_name item,
                             nsi_buyPrice = trade_buyPrice trade,
                             nsi_sellPrice = trade_sellPrice trade\<rparr>\<rparr>) npcs)
           in indexTrades shopId shopName npc rest (items', npcs')))"

text \<open>The names of the ingredients of one craft, where the ingredient is an item of the table.\<close>

definition nameIngredients ::
  "(int, GameItem) Map \<Rightarrow> CraftIngredient list \<Rightarrow> CraftIngredient list" where
  "nameIngredients items ingredients =
     map (\<lambda>ingredient.
        (case map_of items (ingr_itemId ingredient) of
           None \<Rightarrow> ingredient
         | Some ingredientItem \<Rightarrow> ingredient\<lparr>ingr_itemName := item_name ingredientItem\<rparr>))
       ingredients"

fun indexCrafts ::
  "int \<Rightarrow> string \<Rightarrow> GameNpc option \<Rightarrow> Craft list
     \<Rightarrow> (int, GameItem) Map \<times> (int, GameNpc) Map
     \<Rightarrow> (int, GameItem) Map \<times> (int, GameNpc) Map" where
  "indexCrafts shopId shopName npc [] (items, npcs) = (items, npcs)"
| "indexCrafts shopId shopName npc (craft # rest) (items, npcs) =
     (case map_of items (craft_resultItemId craft) of
        None \<Rightarrow> indexCrafts shopId shopName npc rest (items, npcs)
      | Some resultItem \<Rightarrow>
          (let ingredients = nameIngredients items (craft_ingredients craft);
               craftInfo = \<lparr>ci_shopId = shopId, ci_shopName = shopName,
                            ci_npcId = map_option npc_id npc,
                            ci_npcName = map_option npc_name npc,
                            ci_ingredients = ingredients\<rparr>;
               items' = AList.map_entry (craft_resultItemId craft)
                 (\<lambda>it. it\<lparr>item_craftedAt := pushOpt (item_craftedAt it) craftInfo\<rparr>) items;
               npcs' =
                 (case npc of
                    None \<Rightarrow> npcs
                  | Some _ \<Rightarrow>
                      AList.map_entry shopId
                        (\<lambda>n. n\<lparr>npc_craftItems := pushOpt (npc_craftItems n)
                           \<lparr>nci_resultItemId = craft_resultItemId craft,
                             nci_resultItemName = item_name resultItem,
                             nci_ingredients = ingredients\<rparr>\<rparr>) npcs)
           in indexCrafts shopId shopName npc rest (items', npcs')))"

fun indexShops ::
  "(int, GameItem) Map \<Rightarrow> (int, GameNpc) Map \<Rightarrow> (int, ShopData) Map
     \<Rightarrow> (int, GameItem) Map \<times> (int, GameNpc) Map" where
  "indexShops items npcs [] = (items, npcs)"
| "indexShops items npcs ((shopId, shop) # rest) =
     (let npc = map_of npcs shopId;
          (items1, npcs1) = indexTrades shopId (shop_name shop) npc (shop_trades shop) (items, npcs);
          (items2, npcs2) = indexCrafts shopId (shop_name shop) npc (shop_crafts shop) (items1, npcs1)
      in indexShops items2 npcs2 rest)"

text \<open>\<^verbatim>\<open>indexPets\<close>, \<^verbatim>\<open>indexSpecialDrops\<close>, \<^verbatim>\<open>indexSpecialMobs\<close>.\<close>

fun indexPets ::
  "(int, GameItem) Map \<Rightarrow> (int, GameNpc) Map \<Rightarrow> (int, PetInfo) Map \<Rightarrow> (int, GameNpc) Map" where
  "indexPets items npcs [] = npcs"
| "indexPets items npcs ((npcId, petInfo) # rest) =
     (case (map_of npcs npcId, map_of items (pet_itemId petInfo)) of
        (Some npc, Some item) \<Rightarrow>
          indexPets items
            (AList.map_entry npcId
               (\<lambda>n. n\<lparr>npc_petVersion := Some (petInfo\<lparr>pet_itemName := item_name item\<rparr>)\<rparr>) npcs)
            rest
      | _ \<Rightarrow> indexPets items npcs rest)"

fun indexSpecialDrops ::
  "(int, GameItem) Map \<Rightarrow> (int, SpecialDropInfo) Map \<Rightarrow> (int, GameItem) Map" where
  "indexSpecialDrops items [] = items"
| "indexSpecialDrops items ((itemId, info) # rest) =
     indexSpecialDrops (AList.map_entry itemId (\<lambda>it. it\<lparr>item_isSpecialDrop := Some info\<rparr>) items)
       rest"

fun indexSpecialMobs ::
  "(int, GameNpc) Map \<Rightarrow> SpecialSpawnInfo list \<Rightarrow> (int, GameNpc) Map" where
  "indexSpecialMobs npcs [] = npcs"
| "indexSpecialMobs npcs (spawn # rest) =
     (case map_of npcs (ss_spawnFromNpcId spawn) of
        None \<Rightarrow> indexSpecialMobs npcs rest
      | Some sourceNpc \<Rightarrow>
          indexSpecialMobs
            (AList.map_entry (ss_spawnFromNpcId spawn)
               (\<lambda>n. n\<lparr>npc_isSpecialSpawn :=
                  Some (spawn\<lparr>ss_spawnFromNpcName := npc_name sourceNpc\<rparr>)\<rparr>) npcs)
            rest)"

text \<open>
  \<^verbatim>\<open>indexNpcSpellcasts\<close>: the spell names are written into every entry of \<^verbatim>\<open>casts\<close>, then
  \<^verbatim>\<open>casts[0]\<close> is attached when \<^verbatim>\<open>casts.length > 0\<close>.
\<close>

definition nameCasts :: "(int, GameSpell) Map \<Rightarrow> SpellcastInfo list \<Rightarrow> SpellcastInfo list" where
  "nameCasts spells casts =
     map (\<lambda>cast.
        (case map_of spells (sc_spellId cast) of
           None \<Rightarrow> cast
         | Some spell \<Rightarrow> cast\<lparr>sc_spellName := spell_name spell\<rparr>))
       casts"

fun indexNpcSpellcasts ::
  "(int, GameNpc) Map \<Rightarrow> (int, GameSpell) Map \<Rightarrow> (int, SpellcastInfo list) Map
     \<Rightarrow> (int, GameNpc) Map" where
  "indexNpcSpellcasts npcs spells [] = npcs"
| "indexNpcSpellcasts npcs spells ((npcId, casts) # rest) =
     (case map_of npcs npcId of
        None \<Rightarrow> indexNpcSpellcasts npcs spells rest
      | Some npc \<Rightarrow>
          (case nameCasts spells casts of
             [] \<Rightarrow> indexNpcSpellcasts npcs spells rest
           | first # _ \<Rightarrow>
               indexNpcSpellcasts
                 (AList.map_entry npcId (\<lambda>n. n\<lparr>npc_spellcasting := Some first\<rparr>) npcs)
                 spells rest))"

text \<open>\<^verbatim>\<open>indexNpcSpawns\<close> (the table of maps is not read).\<close>

fun indexNpcSpawns :: "(int, GameNpc) Map \<Rightarrow> MapNpcSpawn list \<Rightarrow> (int, GameNpc) Map" where
  "indexNpcSpawns npcs [] = npcs"
| "indexNpcSpawns npcs (spawn # rest) =
     (case map_of npcs (mns_npcId spawn) of
        None \<Rightarrow> indexNpcSpawns npcs rest
      | Some npc \<Rightarrow>
          indexNpcSpawns
            (AList.map_entry (mns_npcId spawn)
               (\<lambda>n. n\<lparr>npc_spawnsOnMaps := pushOpt (npc_spawnsOnMaps n)
                  \<lparr>ms_mapId = mns_mapId spawn, ms_mapName = mns_mapName spawn,
                    ms_x = mns_x spawn, ms_y = mns_y spawn,
                    ms_spawnType = mns_spawnType spawn, ms_spawnTime = mns_spawnTime spawn,
                    ms_amount = mns_amount spawn\<rparr>\<rparr>) npcs)
            rest)"

text \<open>
  The vendor id index of \<^verbatim>\<open>loadGameDatabase\<close>. \<^verbatim>\<open>npcsByVendorId\<close> holds references to the NPC
  objects of \<^verbatim>\<open>npcs\<close>; a reference is modelled by the key under which the object sits in
  \<^verbatim>\<open>npcs\<close>, so that a mutation through the index is a mutation of the table.
\<close>

definition buildVendorIndex :: "(int, GameNpc) Map \<Rightarrow> (int, int) Map" where
  "buildVendorIndex npcs =
     foldl (\<lambda>npcsByVendorId (k, npc).
        if npc_behaviorId npc \<noteq> 0 \<and> 0 < npc_behaviorId npc
        then AList.update (npc_behaviorId npc) k npcsByVendorId
        else npcsByVendorId) [] npcs"

text \<open>\<^verbatim>\<open>npcsByVendorId.get(id)\<close>: the object behind the reference, and the reference.\<close>

definition vendorGet ::
  "(int, int) Map \<Rightarrow> (int, GameNpc) Map \<Rightarrow> int \<Rightarrow> (int \<times> GameNpc) option" where
  "vendorGet npcsByVendorId npcs vid =
     (case map_of npcsByVendorId vid of
        None \<Rightarrow> None
      | Some ref \<Rightarrow> (case map_of npcs ref of None \<Rightarrow> None | Some npc \<Rightarrow> Some (ref, npc)))"

text \<open>
  \<^verbatim>\<open>indexQuests\<close>: the four loops over one quest. Each returns the entries of the quest as
  the loop leaves them, and the table it writes to.
\<close>

fun indexInvolvedNpcs ::
  "(int, int) Map \<Rightarrow> int \<Rightarrow> string \<Rightarrow> QuestNpc list \<Rightarrow> (int, GameNpc) Map
     \<Rightarrow> QuestNpc list \<times> (int, GameNpc) Map" where
  "indexInvolvedNpcs npcsByVendorId questId questName [] npcs = ([], npcs)"
| "indexInvolvedNpcs npcsByVendorId questId questName (npcData # rest) npcs =
     (case vendorGet npcsByVendorId npcs (qn_npcId npcData) of
        None \<Rightarrow>
          (let (rest', npcs') = indexInvolvedNpcs npcsByVendorId questId questName rest npcs
           in (npcData # rest', npcs'))
      | Some (ref, npc) \<Rightarrow>
          (let npcData' = npcData\<lparr>qn_npcName := Some (npc_name npc),
                                   qn_enfId := Some (npc_id npc),
                                   qn_graphicId := Some (npc_graphicId npc)\<rparr>;
               involvement = \<lparr>qi_questId = questId, qi_questName = questName,
                              qi_role = dialogue\<rparr>;
               npcs1 = AList.map_entry ref
                 (\<lambda>n. n\<lparr>npc_questInvolvement := pushOpt (npc_questInvolvement n) involvement\<rparr>)
                 npcs;
               (rest', npcs') = indexInvolvedNpcs npcsByVendorId questId questName rest npcs1
           in (npcData' # rest', npcs')))"

fun indexRewardItems ::
  "int \<Rightarrow> string \<Rightarrow> QuestRewardItem list \<Rightarrow> (int, GameItem) Map
     \<Rightarrow> QuestRewardItem list \<times> (int, GameItem) Map" where
  "indexRewardItems questId questName [] items = ([], items)"
| "indexRewardItems questId questName (reward # rest) items =
     (case map_of items (qri_itemId reward) of
        None \<Rightarrow>
          (let (rest', items') = indexRewardItems questId questName rest items
           in (reward # rest', items'))
      | Some item \<Rightarrow>
          (let reward' = reward\<lparr>qri_itemName := Some (item_name item)\<rparr>;
               questReward = \<lparr>qr_questId = questId, qr_questName = questName,
                              qr_amount = qri_amount reward\<rparr>;
               items1 = AList.map_entry (qri_itemId reward)
                 (\<lambda>it. it\<lparr>item_questRewards := pushOpt (item_questRewards it) questReward\<rparr>)
                 items;
               (rest', items') = indexRewardItems questId questName rest items1
           in (reward' # rest', items')))"

fun indexKillRequirements ::
  "int \<Rightarrow> string \<Rightarrow> KillRequirement list \<Rightarrow> (int, GameNpc) Map
     \<Rightarrow> KillRequirement list \<times> (int, GameNpc) Map" where
  "indexKillRequirements questId questName [] npcs = ([], npcs)"
| "indexKillRequirements questId questName (killReq # rest) npcs =
     (case map_of npcs (kr_npcId killReq) of
        None \<Rightarrow>
          (let (rest', npcs') = indexKillRequirements questId questName rest npcs
           in (killReq # rest', npcs'))
      | Some npc \<Rightarrow>
          (let killReq' = killReq\<lparr>kr_npcName := Some (npc_name npc),
                                   kr_enfId := Some (npc_id npc),
                                   kr_graphicId := Some (npc_graphicId npc)\<rparr>;
               involvement = \<lparr>qi_questId = questId, qi_questName = questName, qi_role = kill\<rparr>;
               npcs1 = AList.map_entry (kr_npcId killReq)
                 (\<lambda>n. n\<lparr>npc_questInvolvement := pushOpt (npc_questInvolvement n) involvement\<rparr>)
                 npcs;
               (rest', npcs') = indexKillRequirements questId questName rest npcs1
           in (killReq' # rest', npcs')))"

fun indexItemRequirements ::
  "int \<Rightarrow> string \<Rightarrow> ItemRequirement list \<Rightarrow> (int, GameItem) Map
     \<Rightarrow> ItemRequirement list \<times> (int, GameItem) Map" where
  "indexItemRequirements questId questName [] items = ([], items)"
| "indexItemRequirements questId questName (itemReq # rest) items =
     (case map_of items (ir_itemId itemReq) of
        None \<Rightarrow>
          (let (rest', items') = indexItemRequirements questId questName rest items
           in (itemReq # rest', items'))
      | Some item \<Rightarrow>
          (let itemReq' = itemReq\<lparr>ir_itemName := Some (item_name item)\<rparr>;
               questReq = \<lparr>qq_questId = questId, qq_questName = questName,
                           qq_count = ir_count itemReq\<rparr>;
               items1 = AList.map_entry (ir_itemId itemReq)
                 (\<lambda>it. it\<lparr>item_questRequirements :=
                    pushOpt (item_questRequirements it) questReq\<rparr>) items;
               (rest', items') = indexItemRequirements questId questName rest items1
           in (itemReq' # rest', items')))"

text \<open>The body of \<^verbatim>\<open>for (const quest of quests.values())\<close>.\<close>

definition indexQuest ::
  "(int, int) Map \<Rightarrow> GameQuest \<Rightarrow> (int, GameNpc) Map \<times> (int, GameItem) Map
     \<Rightarrow> GameQuest \<times> (int, GameNpc) Map \<times> (int, GameItem) Map" where
  "indexQuest npcsByVendorId quest st =
     (let (npcs, items) = st;
          (involved, npcs1) =
             indexInvolvedNpcs npcsByVendorId (quest_id quest) (quest_name quest)
               (quest_involvedNpcs quest) npcs;
          (rewards, items1) =
             indexRewardItems (quest_id quest) (quest_name quest) (quest_rewardItems quest) items;
          (kills, npcs2) =
             indexKillRequirements (quest_id quest) (quest_name quest)
               (quest_killRequirements quest) npcs1;
          (reqs, items2) =
             indexItemRequirements (quest_id quest) (quest_name quest)
               (quest_itemRequirements quest) items1
      in (quest\<lparr>quest_involvedNpcs := involved, quest_rewardItems := rewards,
                 quest_killRequirements := kills, quest_itemRequirements := reqs\<rparr>,
          npcs2, items2))"

fun indexQuests ::
  "(int, GameNpc) Map \<Rightarrow> (int, GameItem) Map \<Rightarrow> (int, GameQuest) Map \<Rightarrow> (int, int) Map
     \<Rightarrow> (int, GameNpc) Map \<times> (int, GameItem) Map \<times> (int, GameQuest) Map" where
  "indexQuests npcs items [] npcsByVendorId = (npcs, items, [])"
| "indexQuests npcs items ((qid, quest) # rest) npcsByVendorId =
     (let (quest', npcs1, items1) = indexQuest npcsByVendorId quest (npcs, items);
          (npcs2, items2, rest') = indexQuests npcs1 items1 rest npcsByVendorId
      in (npcs2, items2, (qid, quest') # rest'))"

text \<open>
  \<^verbatim>\<open>String.prototype.toLowerCase\<close> on code units below 256: the ASCII capitals and the
  Latin-1 capitals (all of 192 to 222 but the multiplication sign 215) move up by 32.
\<close>

definition toLowerChar :: "char \<Rightarrow> char" where
  "toLowerChar c =
     (let n = (of_char c :: nat)
      in if (65 \<le> n \<and> n \<le> 90) \<or> (192 \<le> n \<and> n \<le> 222 \<and> n \<noteq> 215)
         then char_of (n + 32) else c)"

definition toLowerCase :: "string \<Rightarrow> string" where
  "toLowerCase s = map toLowerChar s"

text \<open>
  The name indices of \<^verbatim>\<open>loadGameDatabase\<close>: \<^verbatim>\<open>if (x.name) byName.set(x.name.toLowerCase(), x)\<close>
  over the values of a table, in table order. The index is built after the last pass, and
  nothing is mutated afterwards, so it holds the entities as values.
\<close>

definition buildNameIndex :: "('v \<Rightarrow> string) \<Rightarrow> (int, 'v) Map \<Rightarrow> (string, 'v) Map" where
  "buildNameIndex name entities =
     foldl (\<lambda>byName (k, x).
        if name x \<noteq> [] then AList.update (toLowerCase (name x)) x byName else byName)
       [] entities"

section \<open>Regular expression matching, as the loaders use it\<close>

text \<open>
  Every pattern of the loaders is a sequence of literal characters, greedy runs of one
  character class and captured runs; in each, the character that must follow a run is not
  in the run's class, so matching at a position never backtracks. A matcher takes the
  string at a position and returns the captures and the rest after the match.
  \<^verbatim>\<open>s.match(re)\<close> tries the positions from the left.
\<close>

definition expect :: "char \<Rightarrow> string \<Rightarrow> string option" where
  "expect c s = (case s of [] \<Rightarrow> None | x # r \<Rightarrow> if x = c then Some r else None)"

text \<open>A captured run \<^verbatim>\<open>(\d+)\<close> or \<^verbatim>\<open>([\d.]+)\<close>: at least one character of the class.\<close>

definition run1 :: "(char \<Rightarrow> bool) \<Rightarrow> string \<Rightarrow> (string \<times> string) option" where
  "run1 cls s = (if takeWhile cls s = [] then None else Some (takeWhile cls s, dropWhile cls s))"

definition isDigitOrDot :: "char \<Rightarrow> bool" where
  "isDigitOrDot c = (isDigit c \<or> c = CHR ''.'')"

text \<open>\<^verbatim>\<open>(\d+),(\d+),...\<close>: \<open>n\<close> captured runs of digits separated by commas.\<close>

fun digitGroups :: "nat \<Rightarrow> string \<Rightarrow> (string list \<times> string) option" where
  "digitGroups 0 s = Some ([], s)"
| "digitGroups (Suc 0) s =
     (case run1 isDigit s of None \<Rightarrow> None | Some (g, r) \<Rightarrow> Some ([g], r))"
| "digitGroups (Suc (Suc n)) s =
     (case run1 isDigit s of
        None \<Rightarrow> None
      | Some (g, r) \<Rightarrow>
          (case expect CHR '','' r of
             None \<Rightarrow> None
           | Some r' \<Rightarrow>
               (case digitGroups (Suc n) r' of
                  None \<Rightarrow> None
                | Some (gs, r'') \<Rightarrow> Some (g # gs, r''))))"

fun firstMatch :: "(string \<Rightarrow> 'a option) \<Rightarrow> string \<Rightarrow> 'a option" where
  "firstMatch m [] = m []"
| "firstMatch m (c # cs) =
     (case m (c # cs) of Some x \<Rightarrow> Some x | None \<Rightarrow> firstMatch m cs)"

text \<open>
  \<^verbatim>\<open>s.matchAll(re)\<close> with the \<^verbatim>\<open>g\<close> flag: the matches from the left, each search starting where
  the previous match ended. (A match of these patterns is never empty; the comparison of
  lengths only makes the recursion well-founded.)
\<close>

function allMatches :: "(string \<Rightarrow> ('a \<times> string) option) \<Rightarrow> string \<Rightarrow> 'a list" where
  "allMatches m s =
     (case s of
        [] \<Rightarrow> []
      | c # cs \<Rightarrow>
          (case m s of
             None \<Rightarrow> allMatches m cs
           | Some (x, rest) \<Rightarrow>
               x # allMatches m (if length rest < length s then rest else cs)))"
  by pat_completeness auto
termination
  by (relation "measure (\<lambda>(m, s). length s)") auto

declare allMatches.simps [simp del]

text \<open>The value of a captured run of digits: \<^verbatim>\<open>parseInt(match[i], 10)\<close>.\<close>

definition intOfDigits :: "string \<Rightarrow> int" where
  "intOfDigits ds = int (digitsValue ds)"

text \<open>\<^verbatim>\<open>\{(\d+),...,(\d+)\}\<close> with \<open>n\<close> groups, at a position.\<close>

definition bracedDigitGroups :: "nat \<Rightarrow> string \<Rightarrow> string list option" where
  "bracedDigitGroups n s =
     (case expect CHR ''{'' s of
        None \<Rightarrow> None
      | Some r \<Rightarrow>
          (case digitGroups n r of
             None \<Rightarrow> None
           | Some (gs, r') \<Rightarrow>
               (case expect CHR ''}'' r' of None \<Rightarrow> None | Some _ \<Rightarrow> Some gs)))"

section \<open>iniLoader.ts: the loaders\<close>

text \<open>
  The environment of a build: what \<^verbatim>\<open>fetch\<close> gives for a URL, as bytes and as text (\<open>None\<close>
  when the request fails or the response is not ok), and the decoders of the eolib
  library, which is not part of the repository (\<open>None\<close> when the decoder throws). Of a
  decoded record the model keeps the fields that \<open>newItem\<close> and \<open>newNpc\<close> keep.
\<close>

type_synonym Uint8Array = "nat list"

record EifRecord =
  eif_name :: string
  eif_graphicId :: int

record EnfRecord =
  enf_name :: string
  enf_graphicId :: int
  enf_behaviorId :: int

record EsfRecord =
  esf_name :: string

record EcfRecord =
  ecf_name :: string

record EmfNpc =
  emfnpc_id :: int
  emfnpc_x :: int
  emfnpc_y :: int
  emfnpc_spawnType :: int
  emfnpc_spawnTime :: int
  emfnpc_amount :: int

record Emf =
  emf_name :: string
  emf_npcs :: "EmfNpc list"

record Env =
  fetchBytes :: "string \<Rightarrow> Uint8Array option"
  fetchText :: "string \<Rightarrow> string option"
  eif_deserialize :: "Uint8Array \<Rightarrow> EifRecord list option"
  enf_deserialize :: "Uint8Array \<Rightarrow> EnfRecord list option"
  esf_deserialize :: "Uint8Array \<Rightarrow> EsfRecord list option"
  ecf_deserialize :: "Uint8Array \<Rightarrow> EcfRecord list option"
  emf_deserialize :: "Uint8Array \<Rightarrow> Emf option"

datatype LoadError = FetchFailed string | DecodeFailed string

text \<open>\<^verbatim>\<open>loadTextFile(path)\<close> of iniLoader.ts: throws when the file cannot be fetched.\<close>

definition loadTextFile :: "Env \<Rightarrow> string \<Rightarrow> LoadError + string" where
  "loadTextFile env path =
     (case fetchText env (''/data/'' @ path) of
        None \<Rightarrow> Inl (FetchFailed path)
      | Some content \<Rightarrow> Inr content)"

text \<open>One line of \<^verbatim>\<open>drops.ini\<close>.\<close>

definition dropsLine :: "(int, ItemDrop list) Map \<Rightarrow> string \<Rightarrow> (int, ItemDrop list) Map" where
  "dropsLine drops line =
     (case parseIniLine line of
        None \<Rightarrow> drops
      | Some (key, v) \<Rightarrow>
          if startsWith key CHR ''['' then drops
          else
            (case parseInt key of
               None \<Rightarrow> drops
             | Some npcId \<Rightarrow>
                 (let npcDrops = parseDropsValue v
                  in if npcDrops \<noteq> [] then AList.update npcId npcDrops drops else drops)))"

text \<open>\<^verbatim>\<open>loadDrops\<close>: a file that cannot be fetched gives the empty map.\<close>

definition loadDrops :: "Env \<Rightarrow> (int, ItemDrop list) Map" where
  "loadDrops env =
     (case loadTextFile env ''drops.ini'' of
        Inl _ \<Rightarrow> []
      | Inr content \<Rightarrow> foldl dropsLine [] (split CHR 0x0A content))"

text \<open>One line of \<^verbatim>\<open>shops.ini\<close>.\<close>

definition shopsLine :: "(int, ShopData) Map \<Rightarrow> string \<Rightarrow> (int, ShopData) Map" where
  "shopsLine shops line =
     (case parseIniLine line of
        None \<Rightarrow> shops
      | Some (key, v) \<Rightarrow>
          if CHR ''.'' \<notin> set key then shops
          else
            (case parseInt (takeWhile (\<lambda>c. c \<noteq> CHR ''.'') key) of
               None \<Rightarrow> shops
             | Some shopId \<Rightarrow>
                 (let property = tl (dropWhile (\<lambda>c. c \<noteq> CHR ''.'') key);
                      shops' =
                        (if map_of shops shopId = None
                         then AList.update shopId
                                \<lparr>shop_id = shopId, shop_name = [], shop_trades = [],
                                  shop_crafts = []\<rparr> shops
                         else shops)
                  in if property = ''name''
                     then AList.map_entry shopId (\<lambda>shop. shop\<lparr>shop_name := v\<rparr>) shops'
                     else if property = ''trade''
                     then AList.map_entry shopId
                            (\<lambda>shop. shop\<lparr>shop_trades :=
                               tradesLoop (csvParts v) 0 (shop_trades shop)\<rparr>) shops'
                     else if property = ''craft''
                     then AList.map_entry shopId
                            (\<lambda>shop. shop\<lparr>shop_crafts :=
                               craftsLoop (csvParts v) 0 (shop_crafts shop)\<rparr>) shops'
                     else shops')))"

definition loadShops :: "Env \<Rightarrow> (int, ShopData) Map" where
  "loadShops env =
     (case loadTextFile env ''shops.ini'' of
        Inl _ \<Rightarrow> []
      | Inr content \<Rightarrow> foldl shopsLine [] (split CHR 0x0A content))"

text \<open>One line of \<^verbatim>\<open>pets.ini\<close>; the map is keyed by the NPC id, the first number.\<close>

definition petsLine :: "(int, PetInfo) Map \<Rightarrow> string \<Rightarrow> (int, PetInfo) Map" where
  "petsLine pets line =
     (case parseIniLine line of
        None \<Rightarrow> pets
      | Some (key, v) \<Rightarrow>
          (case parseInt key of
             None \<Rightarrow> pets
           | Some itemId \<Rightarrow>
               (case firstMatch (bracedDigitGroups 12) v of
                  Some [g1, g2, g3, g4, g5, g6, g7, g8, g9, g10, g11, g12] \<Rightarrow>
                    AList.update (intOfDigits g1)
                      \<lparr>pet_itemId = itemId, pet_itemName = [],
                        pet_stats =
                          \<lparr>ps_str = intOfDigits g2, ps_int = intOfDigits g3,
                            ps_wis = intOfDigits g4, ps_agi = intOfDigits g5,
                            ps_con = intOfDigits g6, ps_cha = intOfDigits g7,
                            ps_armor = intOfDigits g8, ps_evade = intOfDigits g9,
                            ps_accuracy = intOfDigits g10, ps_minDamage = intOfDigits g11,
                            ps_maxDamage = intOfDigits g12\<rparr>\<rparr> pets
                | _ \<Rightarrow> pets)))"

text \<open>\<^verbatim>\<open>loadPets\<close> has no \<^verbatim>\<open>try\<close>: a file that cannot be fetched is the loader's failure.\<close>

definition loadPets :: "Env \<Rightarrow> LoadError + (int, PetInfo) Map" where
  "loadPets env =
     (case loadTextFile env ''pets.ini'' of
        Inl e \<Rightarrow> Inl e
      | Inr content \<Rightarrow> Inr (foldl petsLine [] (split CHR 0x0A content)))"

definition specialDropsLine ::
  "(int, SpecialDropInfo) Map \<Rightarrow> string \<Rightarrow> (int, SpecialDropInfo) Map" where
  "specialDropsLine specialDrops line =
     (case parseIniLine line of
        None \<Rightarrow> specialDrops
      | Some (key, v) \<Rightarrow>
          (case parseInt key of
             None \<Rightarrow> specialDrops
           | Some itemId \<Rightarrow>
               (case firstMatch (bracedDigitGroups 2) v of
                  Some [g1, g2] \<Rightarrow>
                    AList.update itemId
                      \<lparr>sd_effect = intOfDigits g1, sd_serverMessage = (intOfDigits g2 = 1)\<rparr>
                      specialDrops
                | _ \<Rightarrow> specialDrops)))"

definition loadSpecialDrops :: "Env \<Rightarrow> LoadError + (int, SpecialDropInfo) Map" where
  "loadSpecialDrops env =
     (case loadTextFile env ''specialdrops.ini'' of
        Inl e \<Rightarrow> Inl e
      | Inr content \<Rightarrow> Inr (foldl specialDropsLine [] (split CHR 0x0A content)))"

text \<open>
  \<^verbatim>\<open>\{(\d+),(\d+),([\d.]+),(\d+)(?:,"([^"]*)")?\}\<close> at a position: the four groups and the
  message group, \<open>None\<close> when the optional part is absent.
\<close>

definition specialMobPattern :: "string \<Rightarrow> (string \<times> string \<times> string \<times> string \<times> string option) option" where
  "specialMobPattern s =
     (case expect CHR ''{'' s of
        None \<Rightarrow> None
      | Some r0 \<Rightarrow>
          (case digitGroups 2 r0 of
             Some ([g1, g2], r1) \<Rightarrow>
               (case expect CHR '','' r1 of
                  None \<Rightarrow> None
                | Some r2 \<Rightarrow>
                    (case run1 isDigitOrDot r2 of
                       None \<Rightarrow> None
                     | Some (g3, r3) \<Rightarrow>
                         (case expect CHR '','' r3 of
                            None \<Rightarrow> None
                          | Some r4 \<Rightarrow>
                              (case run1 isDigit r4 of
                                 None \<Rightarrow> None
                               | Some (g4, r5) \<Rightarrow>
                                   (case r5 of
                                      [] \<Rightarrow> None
                                    | c # r6 \<Rightarrow>
                                        if c = CHR ''}'' then Some (g1, g2, g3, g4, None)
                                        else if c = CHR '','' then
                                          (case expect CHR 0x22 r6 of
                                             None \<Rightarrow> None
                                           | Some r7 \<Rightarrow>
                                               (case dropWhile (\<lambda>x. x \<noteq> CHR 0x22) r7 of
                                                  q # b # _ \<Rightarrow>
                                                    if b = CHR ''}''
                                                    then Some (g1, g2, g3, g4,
                                                      Some (takeWhile (\<lambda>x. x \<noteq> CHR 0x22) r7))
                                                    else None
                                                | _ \<Rightarrow> None))
                                        else None)))))
           | _ \<Rightarrow> None))"

text \<open>One line of \<^verbatim>\<open>specialmobs.ini\<close>; \<^verbatim>\<open>match[5] || undefined\<close> drops an empty message.\<close>

definition specialMobsLine :: "SpecialSpawnInfo list \<Rightarrow> string \<Rightarrow> SpecialSpawnInfo list" where
  "specialMobsLine specialMobs line =
     (case parseIniLine line of
        None \<Rightarrow> specialMobs
      | Some (key, v) \<Rightarrow>
          (case firstMatch specialMobPattern v of
             None \<Rightarrow> specialMobs
           | Some (g1, g2, g3, g4, g5) \<Rightarrow>
               specialMobs @
                 [\<lparr>ss_spawnFromNpcId = intOfDigits g1, ss_spawnFromNpcName = [],
                   ss_chance = parseFloat g3, ss_amount = intOfDigits g4,
                   ss_message = (case g5 of None \<Rightarrow> None
                                 | Some msg \<Rightarrow> if msg = [] then None else Some msg)\<rparr>]))"

text \<open>\<^verbatim>\<open>loadSpecialMobs\<close> has no \<^verbatim>\<open>try\<close> either.\<close>

definition loadSpecialMobs :: "Env \<Rightarrow> LoadError + SpecialSpawnInfo list" where
  "loadSpecialMobs env =
     (case loadTextFile env ''specialmobs.ini'' of
        Inl e \<Rightarrow> Inl e
      | Inr content \<Rightarrow> Inr (foldl specialMobsLine [] (split CHR 0x0A content)))"

text \<open>\<^verbatim>\<open>\{(\d+),(\d+),(\d+),([\d.]+)\}\<close> at a position, with the rest after the match.\<close>

definition spellcastPattern :: "string \<Rightarrow> (SpellcastInfo \<times> string) option" where
  "spellcastPattern s =
     (case expect CHR ''{'' s of
        None \<Rightarrow> None
      | Some r0 \<Rightarrow>
          (case digitGroups 3 r0 of
             Some ([g1, g2, g3], r1) \<Rightarrow>
               (case expect CHR '','' r1 of
                  None \<Rightarrow> None
                | Some r2 \<Rightarrow>
                    (case run1 isDigitOrDot r2 of
                       None \<Rightarrow> None
                     | Some (g4, r3) \<Rightarrow>
                         (case expect CHR ''}'' r3 of
                            None \<Rightarrow> None
                          | Some r4 \<Rightarrow>
                              Some (\<lparr>sc_spellId = intOfDigits g1, sc_spellName = [],
                                     sc_castType = (if intOfDigits g2 = 0 then target else aoe),
                                     sc_damage = intOfDigits g3,
                                     sc_chance = parseFloat g4\<rparr>, r4))))
           | _ \<Rightarrow> None))"

definition spellcastsLine ::
  "(int, SpellcastInfo list) Map \<Rightarrow> string \<Rightarrow> (int, SpellcastInfo list) Map" where
  "spellcastsLine spellcasts line =
     (case parseIniLine line of
        None \<Rightarrow> spellcasts
      | Some (key, v) \<Rightarrow>
          (case parseInt key of
             None \<Rightarrow> spellcasts
           | Some npcId \<Rightarrow>
               (let npcCasts = allMatches spellcastPattern v
                in if npcCasts \<noteq> [] then AList.update npcId npcCasts spellcasts
                   else spellcasts)))"

definition loadNpcSpellcasts :: "Env \<Rightarrow> LoadError + (int, SpellcastInfo list) Map" where
  "loadNpcSpellcasts env =
     (case loadTextFile env ''npcspellcast.ini'' of
        Inl e \<Rightarrow> Inl e
      | Inr content \<Rightarrow> Inr (foldl spellcastsLine [] (split CHR 0x0A content)))"


section \<open>pubLoader.ts\<close>

text \<open>\<^verbatim>\<open>loadFile(path)\<close> of pubLoader.ts.\<close>

definition loadFile :: "Env \<Rightarrow> string \<Rightarrow> LoadError + Uint8Array" where
  "loadFile env path =
     (case fetchBytes env (''/data/'' @ path) of
        None \<Rightarrow> Inl (FetchFailed path)
      | Some bytes \<Rightarrow> Inr bytes)"

text \<open>
  \<^verbatim>\<open>records.forEach((record, index) => ...)\<close>: the id is the index plus one, and a record
  is kept when \<^verbatim>\<open>name && name.trim()\<close> is not empty.
\<close>

definition tableOfRecords :: "('r \<Rightarrow> string) \<Rightarrow> (int \<Rightarrow> 'r \<Rightarrow> 'v) \<Rightarrow> 'r list \<Rightarrow> (int, 'v) Map" where
  "tableOfRecords name build records =
     map (\<lambda>(index, record). (int index + 1, build (int index + 1) record))
       (filter (\<lambda>(index, record). name record \<noteq> [] \<and> trim (name record) \<noteq> [])
          (zip [0 ..< length records] records))"

definition loadItems :: "Env \<Rightarrow> LoadError + (int, GameItem) Map" where
  "loadItems env =
     (case loadFile env ''dat001.eif'' of
        Inl e \<Rightarrow> Inl e
      | Inr bytes \<Rightarrow>
          (case eif_deserialize env bytes of
             None \<Rightarrow> Inl (DecodeFailed ''dat001.eif'')
           | Some records \<Rightarrow>
               Inr (tableOfRecords eif_name
                      (\<lambda>i record. newItem i (eif_name record) (eif_graphicId record)) records)))"

definition loadNpcs :: "Env \<Rightarrow> LoadError + (int, GameNpc) Map" where
  "loadNpcs env =
     (case loadFile env ''dtn001.enf'' of
        Inl e \<Rightarrow> Inl e
      | Inr bytes \<Rightarrow>
          (case enf_deserialize env bytes of
             None \<Rightarrow> Inl (DecodeFailed ''dtn001.enf'')
           | Some records \<Rightarrow>
               Inr (tableOfRecords enf_name
                      (\<lambda>i record. newNpc i (enf_name record) (enf_graphicId record)
                         (enf_behaviorId record)) records)))"

definition loadSpells :: "Env \<Rightarrow> LoadError + (int, GameSpell) Map" where
  "loadSpells env =
     (case loadFile env ''dsl001.esf'' of
        Inl e \<Rightarrow> Inl e
      | Inr bytes \<Rightarrow>
          (case esf_deserialize env bytes of
             None \<Rightarrow> Inl (DecodeFailed ''dsl001.esf'')
           | Some records \<Rightarrow>
               Inr (tableOfRecords esf_name
                      (\<lambda>i record. \<lparr>spell_id = i, spell_name = esf_name record\<rparr>) records)))"

definition loadClasses :: "Env \<Rightarrow> LoadError + (int, GameClass) Map" where
  "loadClasses env =
     (case loadFile env ''dat001.ecf'' of
        Inl e \<Rightarrow> Inl e
      | Inr bytes \<Rightarrow>
          (case ecf_deserialize env bytes of
             None \<Rightarrow> Inl (DecodeFailed ''dat001.ecf'')
           | Some records \<Rightarrow>
               Inr (tableOfRecords ecf_name
                      (\<lambda>i record. \<lparr>class_id = i, class_name = ecf_name record\<rparr>) records)))"

section \<open>The map loader\<close>

text \<open>\<^verbatim>\<open>String(n)\<close> for a natural number, and \<^verbatim>\<open>s.padStart(len, c)\<close>.\<close>

function showNat :: "nat \<Rightarrow> string" where
  "showNat n =
     (if n < 10 then [char_of (48 + n)]
      else showNat (n div 10) @ [char_of (48 + n mod 10)])"
  by pat_completeness auto
termination
  by (relation "measure id") auto

declare showNat.simps [simp del]

definition padStart :: "nat \<Rightarrow> char \<Rightarrow> string \<Rightarrow> string" where
  "padStart len c s = replicate (len - length s) c @ s"

text \<open>\<^verbatim>\<open>loadMapFile(mapId)\<close>: \<open>None\<close> is \<^verbatim>\<open>null\<close>, for a response that is not ok and for a failed request.\<close>

definition mapFileUrl :: "nat \<Rightarrow> string" where
  "mapFileUrl mapId = ''/maps/'' @ padStart 5 CHR ''0'' (showNat mapId) @ ''.emf''"

definition loadMapFile :: "Env \<Rightarrow> nat \<Rightarrow> Uint8Array option" where
  "loadMapFile env mapId = fetchBytes env (mapFileUrl mapId)"

text \<open>
  The loop of \<^verbatim>\<open>loadMaps\<close> over the results: a missing or short file is skipped, and so is a
  file the decoder throws on (\<^verbatim>\<open>catch\<close>). \<^verbatim>\<open>emf.name || `Map ${id}`\<close> replaces an empty name.
\<close>

fun mapsLoop ::
  "Env \<Rightarrow> (nat \<times> Uint8Array option) list \<Rightarrow> (int, GameMap) Map \<times> MapNpcSpawn list
     \<Rightarrow> (int, GameMap) Map \<times> MapNpcSpawn list" where
  "mapsLoop env [] (maps, npcSpawns) = (maps, npcSpawns)"
| "mapsLoop env ((mapId, dat) # results) (maps, npcSpawns) =
     (case dat of
        None \<Rightarrow> mapsLoop env results (maps, npcSpawns)
      | Some bytes \<Rightarrow>
          if length bytes < 10 then mapsLoop env results (maps, npcSpawns)
          else
            (case emf_deserialize env bytes of
               None \<Rightarrow> mapsLoop env results (maps, npcSpawns)
             | Some emf \<Rightarrow>
                 (let name = (if emf_name emf \<noteq> [] then emf_name emf
                              else ''Map '' @ showNat mapId);
                      gameMap = \<lparr>map_id = int mapId, map_name = name\<rparr>
                  in mapsLoop env results
                       (AList.update (int mapId) gameMap maps,
                        npcSpawns @
                          map (\<lambda>npc.
                                 \<lparr>mns_mapId = int mapId, mns_mapName = name,
                                   mns_npcId = emfnpc_id npc,
                                   mns_x = emfnpc_x npc, mns_y = emfnpc_y npc,
                                   mns_spawnType = emfnpc_spawnType npc,
                                   mns_spawnTime = emfnpc_spawnTime npc,
                                   mns_amount = emfnpc_amount npc\<rparr>)
                            (emf_npcs emf)))))"

text \<open>\<^verbatim>\<open>loadMaps\<close>: \<^verbatim>\<open>for (let i = 0; i <= 400; i++)\<close> requests the files, then the loop runs.\<close>

definition loadMaps :: "Env \<Rightarrow> (int, GameMap) Map \<times> MapNpcSpawn list" where
  "loadMaps env = mapsLoop env (map (\<lambda>i. (i, loadMapFile env i)) [0 ..< 401]) ([], [])"

section \<open>The quest loader\<close>

definition questFileUrl :: "nat \<Rightarrow> string" where
  "questFileUrl questId = ''/quests/'' @ padStart 5 CHR ''0'' (showNat questId) @ ''.eqf''"

definition loadQuestFile :: "Env \<Rightarrow> nat \<Rightarrow> string option" where
  "loadQuestFile env questId = fetchText env (questFileUrl questId)"

text \<open>
  A keyword under the \<^verbatim>\<open>i\<close> flag: an ASCII letter of the pattern matches its two cases, and
  no other character below 256 is canonicalised onto an ASCII letter.
\<close>

definition asciiLower :: "char \<Rightarrow> char" where
  "asciiLower c =
     (let n = (of_char c :: nat) in if 65 \<le> n \<and> n \<le> 90 then char_of (n + 32) else c)"

fun keyword :: "string \<Rightarrow> string \<Rightarrow> string option" where
  "keyword [] s = Some s"
| "keyword (p # ps) [] = None"
| "keyword (p # ps) (c # cs) =
     (if asciiLower c = asciiLower p then keyword ps cs else None)"

definition isQuote :: "char \<Rightarrow> bool" where
  "isQuote c = (c = CHR 0x22 \<or> c = CHR 0x27)"

text \<open>\<^verbatim>\<open>/questname\s+["']([^"']+)["']/i\<close> at a position: the captured name.\<close>

definition questNamePattern :: "string \<Rightarrow> string option" where
  "questNamePattern s =
     (case keyword ''questname'' s of
        None \<Rightarrow> None
      | Some r \<Rightarrow>
          if takeWhile isWhiteSpace r = [] then None
          else
            (case dropWhile isWhiteSpace r of
               [] \<Rightarrow> None
             | q # r' \<Rightarrow>
                 if \<not> isQuote q then None
                 else if takeWhile (\<lambda>c. \<not> isQuote c) r' = [] then None
                 else if dropWhile (\<lambda>c. \<not> isQuote c) r' = [] then None
                 else Some (takeWhile (\<lambda>c. \<not> isQuote c) r')))"

text \<open>\<^verbatim>\<open>/KEYWORD\s*\(\s*(\d+)/i\<close> at a position: the captured number and the rest.\<close>

definition callPattern1 :: "string \<Rightarrow> string \<Rightarrow> (string \<times> string) option" where
  "callPattern1 kw s =
     (case keyword kw s of
        None \<Rightarrow> None
      | Some r \<Rightarrow>
          (case expect CHR ''('' (dropWhile isWhiteSpace r) of
             None \<Rightarrow> None
           | Some r' \<Rightarrow> run1 isDigit (dropWhile isWhiteSpace r')))"

text \<open>\<^verbatim>\<open>/KEYWORD\s*\(\s*(\d+)\s*,\s*(\d+)/i\<close> at a position: the two captured numbers.\<close>

definition callPattern2 :: "string \<Rightarrow> string \<Rightarrow> (string \<times> string) option" where
  "callPattern2 kw s =
     (case callPattern1 kw s of
        None \<Rightarrow> None
      | Some (g1, r) \<Rightarrow>
          (case expect CHR '','' (dropWhile isWhiteSpace r) of
             None \<Rightarrow> None
           | Some r' \<Rightarrow>
               (case run1 isDigit (dropWhile isWhiteSpace r') of
                  None \<Rightarrow> None
                | Some (g2, _) \<Rightarrow> Some (g1, g2))))"

text \<open>The state of \<^verbatim>\<open>parseQuestDSL\<close> while it reads the lines.\<close>

record QuestParse =
  qp_name :: string
  qp_involvedNpcs :: "(int, QuestNpc) Map"
  qp_rewardItems :: "QuestRewardItem list"
  qp_rewardExp :: int
  qp_killRequirements :: "KillRequirement list"
  qp_itemRequirements :: "ItemRequirement list"

text \<open>A reference to an NPC in a dialogue directive: \<^verbatim>\<open>if (npcId > 0) involvedNpcs.set(npcId, { npcId })\<close>.\<close>

definition npcReference :: "string \<Rightarrow> string \<Rightarrow> (int, QuestNpc) Map \<Rightarrow> (int, QuestNpc) Map" where
  "npcReference kw trimmed involvedNpcs =
     (case firstMatch (callPattern1 kw) trimmed of
        None \<Rightarrow> involvedNpcs
      | Some (g, _) \<Rightarrow>
          if 0 < intOfDigits g
          then AList.update (intOfDigits g)
                 \<lparr>qn_npcId = intOfDigits g, qn_npcName = None, qn_enfId = None,
                   qn_graphicId = None\<rparr> involvedNpcs
          else involvedNpcs)"

definition questLine :: "QuestParse \<Rightarrow> string \<Rightarrow> QuestParse" where
  "questLine st line =
     (let trimmed = trim line;
          st1 = (case firstMatch questNamePattern trimmed of
                   None \<Rightarrow> st | Some nm \<Rightarrow> st\<lparr>qp_name := nm\<rparr>);
          st2 = st1\<lparr>qp_involvedNpcs :=
                  npcReference ''TalkedToNpc'' trimmed
                    (npcReference ''AddNpcChat'' trimmed
                       (npcReference ''AddNpcInput'' trimmed
                          (npcReference ''AddNpcText'' trimmed (qp_involvedNpcs st1))))\<rparr>;
          st3 = (case firstMatch (callPattern2 ''GiveItem'') trimmed of
                   None \<Rightarrow> st2
                 | Some (g1, g2) \<Rightarrow>
                     st2\<lparr>qp_rewardItems := qp_rewardItems st2 @
                       [\<lparr>qri_itemId = intOfDigits g1, qri_amount = intOfDigits g2,
                         qri_itemName = None\<rparr>]\<rparr>);
          st4 = (case firstMatch (callPattern1 ''GiveExp'') trimmed of
                   None \<Rightarrow> st3
                 | Some (g, _) \<Rightarrow> st3\<lparr>qp_rewardExp := qp_rewardExp st3 + intOfDigits g\<rparr>);
          st5 = (case firstMatch (callPattern2 ''KilledNpcs'') trimmed of
                   None \<Rightarrow> st4
                 | Some (g1, g2) \<Rightarrow>
                     st4\<lparr>qp_killRequirements := qp_killRequirements st4 @
                       [\<lparr>kr_npcId = intOfDigits g1, kr_count = intOfDigits g2,
                         kr_npcName = None, kr_enfId = None, kr_graphicId = None\<rparr>]\<rparr>)
      in (case firstMatch (callPattern2 ''LostItems'') trimmed of
            None \<Rightarrow> st5
          | Some (g1, g2) \<Rightarrow>
              st5\<lparr>qp_itemRequirements := qp_itemRequirements st5 @
                [\<lparr>ir_itemId = intOfDigits g1, ir_count = intOfDigits g2,
                  ir_itemName = None\<rparr>]\<rparr>))"

text \<open>\<^verbatim>\<open>parseQuestDSL(id, content)\<close>: \<open>None\<close> is \<^verbatim>\<open>null\<close>, for a file with no name and no NPC.\<close>

definition parseQuestDSL :: "nat \<Rightarrow> string \<Rightarrow> GameQuest option" where
  "parseQuestDSL questId content =
     (let st = foldl questLine
                 \<lparr>qp_name = ''Quest '' @ showNat questId, qp_involvedNpcs = [], qp_rewardItems = [],
                   qp_rewardExp = 0, qp_killRequirements = [], qp_itemRequirements = []\<rparr>
                 (split CHR 0x0A content)
      in if qp_name st = ''Quest '' @ showNat questId \<and> qp_involvedNpcs st = [] then None
         else Some \<lparr>quest_id = int questId, quest_name = qp_name st,
                     quest_involvedNpcs = map snd (qp_involvedNpcs st),
                     quest_rewardItems = qp_rewardItems st,
                     quest_rewardExp = qp_rewardExp st,
                     quest_killRequirements = qp_killRequirements st,
                     quest_itemRequirements = qp_itemRequirements st\<rparr>)"

text \<open>The loop of \<^verbatim>\<open>loadQuests\<close> over the results; \<^verbatim>\<open>if (!content) continue\<close> also skips an empty file.\<close>

fun questsLoop :: "(nat \<times> string option) list \<Rightarrow> (int, GameQuest) Map \<Rightarrow> (int, GameQuest) Map" where
  "questsLoop [] quests = quests"
| "questsLoop ((questId, content) # results) quests =
     (case content of
        None \<Rightarrow> questsLoop results quests
      | Some text \<Rightarrow>
          if text = [] then questsLoop results quests
          else
            (case parseQuestDSL questId text of
               None \<Rightarrow> questsLoop results quests
             | Some quest \<Rightarrow> questsLoop results (AList.update (int questId) quest quests)))"

text \<open>\<^verbatim>\<open>loadQuests\<close>: \<^verbatim>\<open>for (let i = 1; i <= 150; i++)\<close>.\<close>

definition loadQuests :: "Env \<Rightarrow> (int, GameQuest) Map" where
  "loadQuests env = questsLoop (map (\<lambda>i. (i, loadQuestFile env i)) [1 ..< 151]) []"

section \<open>indexer.ts: loadGameDatabase\<close>

text \<open>
  \<^verbatim>\<open>await Promise.all([...])\<close>: the results in the order of the array when every loader
  resolves, a rejection when one rejects. Which rejection wins when several loaders reject
  is a matter of timing; the model reports the first in the order of the array.
\<close>

definition awaited :: "LoadError + 'a \<Rightarrow> ('a \<Rightarrow> LoadError + 'b) \<Rightarrow> LoadError + 'b" where
  "awaited result continue =
     (case result of Inl rejection \<Rightarrow> Inl rejection | Inr v \<Rightarrow> continue v)"

definition indexAll ::
  "(int, GameItem) Map \<Rightarrow> (int, GameNpc) Map \<Rightarrow> (int, GameSpell) Map \<Rightarrow> (int, GameClass) Map
     \<Rightarrow> (int, ItemDrop list) Map \<Rightarrow> (int, ShopData) Map \<Rightarrow> (int, PetInfo) Map
     \<Rightarrow> (int, SpecialDropInfo) Map \<Rightarrow> SpecialSpawnInfo list \<Rightarrow> (int, SpellcastInfo list) Map
     \<Rightarrow> (int, GameMap) Map \<times> MapNpcSpawn list \<Rightarrow> (int, GameQuest) Map \<Rightarrow> GameDatabase" where
  "indexAll items npcs spells classes drops shops pets specialDrops specialMobs npcSpellcasts
     mapData quests =
     (let (maps, npcSpawns) = mapData;
          (items1, npcs1) = indexDrops items npcs drops;
          (items2, npcs2) = indexShops items1 npcs1 shops;
          npcs3 = indexPets items2 npcs2 pets;
          items3 = indexSpecialDrops items2 specialDrops;
          npcs4 = indexSpecialMobs npcs3 specialMobs;
          npcs5 = indexNpcSpellcasts npcs4 spells npcSpellcasts;
          npcs6 = indexNpcSpawns npcs5 npcSpawns;
          npcsByVendorId = buildVendorIndex npcs6;
          (npcs7, items4, quests') = indexQuests npcs6 items3 quests npcsByVendorId
      in \<lparr>db_items = items4, db_npcs = npcs7, db_spells = spells, db_classes = classes,
          db_maps = maps, db_quests = quests',
          db_itemsByName = buildNameIndex item_name items4,
          db_npcsByName = buildNameIndex npc_name npcs7,
          db_spellsByName = buildNameIndex spell_name spells\<rparr>)"

definition loadGameDatabase :: "Env \<Rightarrow> LoadError + GameDatabase" where
  "loadGameDatabase env =
     awaited (loadItems env) (\<lambda>items.
     awaited (loadNpcs env) (\<lambda>npcs.
     awaited (loadSpells env) (\<lambda>spells.
     awaited (loadClasses env) (\<lambda>classes.
       (let drops = loadDrops env; shops = loadShops env
        in awaited (loadPets env) (\<lambda>pets.
           awaited (loadSpecialDrops env) (\<lambda>specialDrops.
           awaited (loadSpecialMobs env) (\<lambda>specialMobs.
           awaited (loadNpcSpellcasts env) (\<lambda>npcSpellcasts.
             Inr (indexAll items npcs spells classes drops shops pets specialDrops
                    specialMobs npcSpellcasts (loadMaps env) (loadQuests env)))))))))))"

section \<open>Auxiliary definitions for the properties\<close>


text \<open>The index loop of \<open>dropsLoop\<close> cuts the remaining parts into consecutive groups of 4.\<close>

fun dropGroups :: "string list \<Rightarrow> ItemDrop list" where
  "dropGroups (a # b # c # d # rest) =
     (if parseInt a \<noteq> None \<and> parseInt b \<noteq> None \<and> parseInt c \<noteq> None \<and> \<not> isNaN (parseFloat d)
      then \<lparr>drop_itemId = the (parseInt a), drop_itemName = [], drop_minAmount = the (parseInt b),
             drop_maxAmount = the (parseInt c), drop_dropRate = parseFloat d\<rparr> # dropGroups rest
      else dropGroups rest)"
| "dropGroups _ = []"

text \<open>The contents of an optional array field, empty when the field is unset.\<close>

definition optList :: "'a list option \<Rightarrow> 'a list" where
  "optList l = (case l of None \<Rightarrow> [] | Some xs \<Rightarrow> xs)"

text \<open>
  The two directions of the drop relationship. On the NPC side every drop entry names an
  item of the table, carries that item's name, and the item lists the NPC (its id and
  name) with the same amounts and rate; on the item side every source entry names an NPC of
  the table, carries that NPC's name, and the NPC lists the item (its id and name) with
  the same amounts and rate.
\<close>

definition npcSideMirrored :: "(int, GameItem) Map \<times> (int, GameNpc) Map \<Rightarrow> bool" where
  "npcSideMirrored st =
     list_all (\<lambda>(k, n).
        list_all (\<lambda>d.
           (case map_of (fst st) (drop_itemId d) of
              None \<Rightarrow> False
            | Some it \<Rightarrow>
                drop_itemName d = item_name it \<and>
                \<lparr>nd_npcId = k, nd_npcName = npc_name n, nd_minAmount = drop_minAmount d,
                  nd_maxAmount = drop_maxAmount d, nd_dropRate = drop_dropRate d\<rparr>
                  \<in> set (optList (item_dropsFrom it))))
          (optList (npc_drops n)))
       (snd st)"

definition itemSideMirrored :: "(int, GameItem) Map \<times> (int, GameNpc) Map \<Rightarrow> bool" where
  "itemSideMirrored st =
     list_all (\<lambda>(i, it).
        list_all (\<lambda>e.
           (case map_of (snd st) (nd_npcId e) of
              None \<Rightarrow> False
            | Some n \<Rightarrow>
                nd_npcName e = npc_name n \<and>
                \<lparr>drop_itemId = i, drop_itemName = item_name it, drop_minAmount = nd_minAmount e,
                  drop_maxAmount = nd_maxAmount e, drop_dropRate = nd_dropRate e\<rparr>
                  \<in> set (optList (npc_drops n))))
          (optList (item_dropsFrom it)))
       (fst st)"

text \<open>Helpers for the proof that the drop edges are mirrored.\<close>

definition mkNpcDrop :: "int \<Rightarrow> string \<Rightarrow> ItemDrop \<Rightarrow> NpcDrop" where
  "mkNpcDrop k nm d = \<lparr>nd_npcId = k, nd_npcName = nm, nd_minAmount = drop_minAmount d,
      nd_maxAmount = drop_maxAmount d, nd_dropRate = drop_dropRate d\<rparr>"

definition mkItemDrop :: "int \<Rightarrow> string \<Rightarrow> NpcDrop \<Rightarrow> ItemDrop" where
  "mkItemDrop i nm e = \<lparr>drop_itemId = i, drop_itemName = nm, drop_minAmount = nd_minAmount e,
      drop_maxAmount = nd_maxAmount e, drop_dropRate = nd_dropRate e\<rparr>"

definition invN :: "(int, GameItem) Map \<Rightarrow> (int, GameNpc) Map \<Rightarrow> bool" where
  "invN items npcs \<longleftrightarrow>
     (\<forall>k n d. map_of npcs k = Some n \<longrightarrow> d \<in> set (optList (npc_drops n)) \<longrightarrow>
        (\<exists>it. map_of items (drop_itemId d) = Some it \<and> drop_itemName d = item_name it \<and>
           mkNpcDrop k (npc_name n) d \<in> set (optList (item_dropsFrom it))))"

definition invI :: "int set \<Rightarrow> (int, GameItem) Map \<Rightarrow> (int, GameNpc) Map \<Rightarrow> bool" where
  "invI K items npcs \<longleftrightarrow>
     (\<forall>i it e. map_of items i = Some it \<longrightarrow> e \<in> set (optList (item_dropsFrom it)) \<longrightarrow>
        nd_npcId e \<notin> K \<and>
        (\<exists>n. map_of npcs (nd_npcId e) = Some n \<and> nd_npcName e = npc_name n \<and>
           mkItemDrop i (item_name it) e \<in> set (optList (npc_drops n))))"

definition addEdge :: "int \<Rightarrow> string \<Rightarrow> ItemDrop \<Rightarrow> GameItem \<Rightarrow> (int, GameItem) Map \<times> (int, GameNpc) Map
     \<Rightarrow> (int, GameItem) Map \<times> (int, GameNpc) Map" where
  "addEdge k nm d item st =
     (AList.map_entry (drop_itemId d)
        (\<lambda>it. it\<lparr>item_dropsFrom := pushOpt (item_dropsFrom it) (mkNpcDrop k nm d)\<rparr>) (fst st),
      AList.map_entry k
        (\<lambda>npc. npc\<lparr>npc_drops := pushOpt (npc_drops npc) (d\<lparr>drop_itemName := item_name item\<rparr>)\<rparr>) (snd st))"

text \<open>Small tables for the concrete instances of the theorems.\<close>

definition exItems :: "(int, GameItem) Map" where
  "exItems = [(10, newItem 10 ''Potion'' 3), (20, newItem 20 ''Sword'' 4)]"

definition exNpcs :: "(int, GameNpc) Map" where
  "exNpcs = [(1, newNpc 1 ''Rat'' 5 0), (12, newNpc 12 ''Sage'' 6 500)]"

definition exDrops :: "(int, ItemDrop list) Map" where
  "exDrops =
     [(1, [\<lparr>drop_itemId = 10, drop_itemName = [], drop_minAmount = 1, drop_maxAmount = 2,
             drop_dropRate = Finite (11 / 2)\<rparr>,
           \<lparr>drop_itemId = 99, drop_itemName = [], drop_minAmount = 1, drop_maxAmount = 1,
             drop_dropRate = Finite 1\<rparr>]),
      (12, [\<lparr>drop_itemId = 10, drop_itemName = [], drop_minAmount = 3, drop_maxAmount = 4,
             drop_dropRate = Finite 1\<rparr>,
            \<lparr>drop_itemId = 20, drop_itemName = [], drop_minAmount = 1, drop_maxAmount = 1,
             drop_dropRate = Finite 50\<rparr>]),
      (7, [\<lparr>drop_itemId = 10, drop_itemName = [], drop_minAmount = 1, drop_maxAmount = 1,
             drop_dropRate = Finite 1\<rparr>])]"

text \<open>What the spell-name step of the pass makes of one entry.\<close>

definition nameCast :: "(int, GameSpell) Map \<Rightarrow> SpellcastInfo \<Rightarrow> SpellcastInfo" where
  "nameCast spells cast =
     (case map_of spells (sc_spellId cast) of
        None \<Rightarrow> cast
      | Some spell \<Rightarrow> cast\<lparr>sc_spellName := spell_name spell\<rparr>)"

definition exSpells :: "(int, GameSpell) Map" where
  "exSpells = [(3, \<lparr>spell_id = 3, spell_name = ''Fireball''\<rparr>)]"

definition exCasts :: "(int, SpellcastInfo list) Map" where
  "exCasts =
     [(1, [\<lparr>sc_spellId = 3, sc_spellName = [], sc_castType = target, sc_damage = 40,
             sc_chance = Finite 10\<rparr>,
           \<lparr>sc_spellId = 8, sc_spellName = [], sc_castType = aoe, sc_damage = 90,
             sc_chance = Finite 5\<rparr>]),
      (12, [\<lparr>sc_spellId = 8, sc_spellName = [], sc_castType = aoe, sc_damage = 90,
             sc_chance = Finite 5\<rparr>])]"

text \<open>
  What the quest pass makes of one entry of a quest, as a function of the tables: an entry
  whose reference is not found stays as it was parsed.
\<close>

definition resolveQuestNpc :: "(int, int) Map \<Rightarrow> (int, GameNpc) Map \<Rightarrow> QuestNpc \<Rightarrow> QuestNpc" where
  "resolveQuestNpc npcsByVendorId npcs npcData =
     (case vendorGet npcsByVendorId npcs (qn_npcId npcData) of
        None \<Rightarrow> npcData
      | Some (ref, npc) \<Rightarrow>
          npcData\<lparr>qn_npcName := Some (npc_name npc), qn_enfId := Some (npc_id npc),
                   qn_graphicId := Some (npc_graphicId npc)\<rparr>)"

definition resolveKill :: "(int, GameNpc) Map \<Rightarrow> KillRequirement \<Rightarrow> KillRequirement" where
  "resolveKill npcs killReq =
     (case map_of npcs (kr_npcId killReq) of
        None \<Rightarrow> killReq
      | Some npc \<Rightarrow>
          killReq\<lparr>kr_npcName := Some (npc_name npc), kr_enfId := Some (npc_id npc),
                   kr_graphicId := Some (npc_graphicId npc)\<rparr>)"

definition resolveReward :: "(int, GameItem) Map \<Rightarrow> QuestRewardItem \<Rightarrow> QuestRewardItem" where
  "resolveReward items reward =
     (case map_of items (qri_itemId reward) of
        None \<Rightarrow> reward
      | Some item \<Rightarrow> reward\<lparr>qri_itemName := Some (item_name item)\<rparr>)"

definition resolveItemReq :: "(int, GameItem) Map \<Rightarrow> ItemRequirement \<Rightarrow> ItemRequirement" where
  "resolveItemReq items itemReq =
     (case map_of items (ir_itemId itemReq) of
        None \<Rightarrow> itemReq
      | Some item \<Rightarrow> itemReq\<lparr>ir_itemName := Some (item_name item)\<rparr>)"

definition resolveQuest ::
  "(int, int) Map \<Rightarrow> (int, GameNpc) Map \<Rightarrow> (int, GameItem) Map \<Rightarrow> GameQuest \<Rightarrow> GameQuest" where
  "resolveQuest npcsByVendorId npcs items quest =
     quest\<lparr>quest_involvedNpcs := map (resolveQuestNpc npcsByVendorId npcs) (quest_involvedNpcs quest),
           quest_rewardItems := map (resolveReward items) (quest_rewardItems quest),
           quest_killRequirements := map (resolveKill npcs) (quest_killRequirements quest),
           quest_itemRequirements := map (resolveItemReq items) (quest_itemRequirements quest)\<rparr>"

text \<open>The fields of an NPC and of an item that no pass writes, per key.\<close>

definition npcCore :: "(int, GameNpc) Map \<Rightarrow> int \<Rightarrow> (string \<times> int \<times> int) option" where
  "npcCore npcs k = map_option (\<lambda>n. (npc_name n, npc_id n, npc_graphicId n)) (map_of npcs k)"

definition itemCore :: "(int, GameItem) Map \<Rightarrow> int \<Rightarrow> string option" where
  "itemCore items i = map_option item_name (map_of items i)"

text \<open>
  The input of a pass without its dangling references: the drop tables of known NPCs with
  their entries for known items, the pets of known NPCs and items, the trades and crafts of
  known items, and the quest entries that resolve.
\<close>

definition knownDrops ::
  "(int, GameItem) Map \<Rightarrow> (int, GameNpc) Map \<Rightarrow> (int, ItemDrop list) Map
     \<Rightarrow> (int, ItemDrop list) Map" where
  "knownDrops items npcs drops =
     map (\<lambda>(npcId, npcDrops).
            (npcId, filter (\<lambda>d. map_of items (drop_itemId d) \<noteq> None) npcDrops))
       (filter (\<lambda>(npcId, npcDrops). map_of npcs npcId \<noteq> None) drops)"

definition knownPets ::
  "(int, GameItem) Map \<Rightarrow> (int, GameNpc) Map \<Rightarrow> (int, PetInfo) Map \<Rightarrow> (int, PetInfo) Map" where
  "knownPets items npcs pets =
     filter (\<lambda>(npcId, petInfo).
        map_of npcs npcId \<noteq> None \<and> map_of items (pet_itemId petInfo) \<noteq> None) pets"

definition knownShops :: "(int, GameItem) Map \<Rightarrow> (int, ShopData) Map \<Rightarrow> (int, ShopData) Map" where
  "knownShops items shops =
     map (\<lambda>(shopId, shop).
            (shopId,
             shop\<lparr>shop_trades :=
                     filter (\<lambda>t. map_of items (trade_itemId t) \<noteq> None) (shop_trades shop),
                   shop_crafts :=
                     filter (\<lambda>c. map_of items (craft_resultItemId c) \<noteq> None) (shop_crafts shop)\<rparr>))
       shops"

definition knownQuest ::
  "(int, int) Map \<Rightarrow> (int, GameNpc) Map \<Rightarrow> (int, GameItem) Map \<Rightarrow> GameQuest \<Rightarrow> GameQuest" where
  "knownQuest npcsByVendorId npcs items quest =
     quest\<lparr>quest_involvedNpcs :=
             filter (\<lambda>e. vendorGet npcsByVendorId npcs (qn_npcId e) \<noteq> None)
               (quest_involvedNpcs quest),
           quest_rewardItems :=
             filter (\<lambda>r. map_of items (qri_itemId r) \<noteq> None) (quest_rewardItems quest),
           quest_killRequirements :=
             filter (\<lambda>k. map_of npcs (kr_npcId k) \<noteq> None) (quest_killRequirements quest),
           quest_itemRequirements :=
             filter (\<lambda>r. map_of items (ir_itemId r) \<noteq> None) (quest_itemRequirements quest)\<rparr>"

definition knownQuests ::
  "(int, int) Map \<Rightarrow> (int, GameNpc) Map \<Rightarrow> (int, GameItem) Map \<Rightarrow> (int, GameQuest) Map
     \<Rightarrow> (int, GameQuest) Map" where
  "knownQuests npcsByVendorId npcs items quests =
     map (\<lambda>(qid, quest). (qid, knownQuest npcsByVendorId npcs items quest)) quests"

text \<open>The quest involvement entries of the NPC under a key, none when there is no such NPC.\<close>

definition questInvolvementOf :: "(int, GameNpc) Map \<Rightarrow> int \<Rightarrow> QuestInvolvement list" where
  "questInvolvementOf npcs k =
     (case map_of npcs k of None \<Rightarrow> [] | Some n \<Rightarrow> optList (npc_questInvolvement n))"

definition exQuest :: GameQuest where
  "exQuest =
     \<lparr>quest_id = 7, quest_name = ''Lost Ring'',
      quest_involvedNpcs =
        [\<lparr>qn_npcId = 500, qn_npcName = None, qn_enfId = None, qn_graphicId = None\<rparr>,
         \<lparr>qn_npcId = 900, qn_npcName = None, qn_enfId = None, qn_graphicId = None\<rparr>],
      quest_rewardItems = [\<lparr>qri_itemId = 10, qri_amount = 2, qri_itemName = None\<rparr>],
      quest_rewardExp = 150,
      quest_killRequirements =
        [\<lparr>kr_npcId = 12, kr_count = 3, kr_npcName = None, kr_enfId = None,
          kr_graphicId = None\<rparr>],
      quest_itemRequirements = [\<lparr>ir_itemId = 99, ir_count = 1, ir_itemName = None\<rparr>]\<rparr>"

definition exQuests :: "(int, GameQuest) Map" where
  "exQuests = [(7, exQuest)]"

text \<open>
  A small environment: the four tables, the six configuration files, the map 5 and the
  quest 7; and the same environment with more files outside the scanned ranges.
\<close>

definition exEnv :: Env where
  \<open>exEnv =
     \<lparr>fetchBytes = (\<lambda>url.
         if url = ''/maps/00005.emf'' then Some (replicate 12 0)
         else if url = ''/data/dat001.eif'' \<or> url = ''/data/dtn001.enf''
                 \<or> url = ''/data/dsl001.esf'' \<or> url = ''/data/dat001.ecf''
         then Some [] else None),
      fetchText = (\<lambda>url.
         if url = ''/quests/00007.eqf''
         then Some ''questname "Lost Ring" AddNpcText(500, "hello") KilledNpcs(12, 3)''
         else if url = ''/data/drops.ini'' then Some ''1 = 10,1,2,5.5,99,1,1,1''
         else if url = ''/data/shops.ini'' then Some ''12.name = Sage''
         else if url = ''/data/pets.ini'' then Some []
         else if url = ''/data/specialdrops.ini'' then Some ''10 = {3,1}''
         else if url = ''/data/specialmobs.ini'' then Some ''1 = {1,2,0.5,3}''
         else if url = ''/data/npcspellcast.ini'' then Some ''1 = {3,0,40,10},{8,1,90,5}''
         else None),
      eif_deserialize = (\<lambda>bytes.
         Some (replicate 9 \<lparr>eif_name = [], eif_graphicId = 0\<rparr> @
               [\<lparr>eif_name = ''Potion'', eif_graphicId = 3\<rparr>])),
      enf_deserialize = (\<lambda>bytes.
         Some ([\<lparr>enf_name = ''Rat'', enf_graphicId = 5, enf_behaviorId = 0\<rparr>] @
               replicate 10 \<lparr>enf_name = [], enf_graphicId = 0, enf_behaviorId = 0\<rparr> @
               [\<lparr>enf_name = ''Sage'', enf_graphicId = 6, enf_behaviorId = 500\<rparr>])),
      esf_deserialize = (\<lambda>bytes. Some [\<lparr>esf_name = ''Heal''\<rparr>]),
      ecf_deserialize = (\<lambda>bytes. Some [\<lparr>ecf_name = ''Peasant''\<rparr>]),
      emf_deserialize = (\<lambda>bytes.
         Some \<lparr>emf_name = ''Aeven'',
               emf_npcs = [\<lparr>emfnpc_id = 1, emfnpc_x = 4, emfnpc_y = 7, emfnpc_spawnType = 0,
                             emfnpc_spawnTime = 30, emfnpc_amount = 2\<rparr>]\<rparr>)\<rparr>\<close>



text \<open>The small environment without the special mobs file.\<close>

definition exEnvNoMobs :: Env where
  "exEnvNoMobs =
     exEnv\<lparr>fetchText := (\<lambda>url.
              if url = ''/data/specialmobs.ini'' then None else fetchText exEnv url)\<rparr>"

section \<open>Comma separated groups: properties\<close>

lemma split_not_Nil: "split sep s \<noteq> []"
  by (induction s) (auto split: list.splits)





lemma drop_four:
  assumes "i + 4 \<le> length xs"
  shows "drop i xs = xs ! i # xs ! (i + 1) # xs ! (i + 2) # xs ! (i + 3) # drop (i + 4) xs"
proof -
  have "drop i xs = xs ! i # drop (Suc i) xs"
    using assms by (simp add: Cons_nth_drop_Suc)
  also have "drop (Suc i) xs = xs ! (i + 1) # drop (Suc (Suc i)) xs"
    using assms by (simp add: Cons_nth_drop_Suc)
  also have "drop (Suc (Suc i)) xs = xs ! (i + 2) # drop (Suc (Suc (Suc i))) xs"
    using assms by (simp add: Cons_nth_drop_Suc)
  also have "drop (Suc (Suc (Suc i))) xs = xs ! (i + 3) # drop (i + 4) xs"
    using assms Cons_nth_drop_Suc [of "i + 3" xs] by (simp add: numeral_eq_Suc)
  finally show ?thesis .
qed

lemma dropGroups_short: "length xs < 4 \<Longrightarrow> dropGroups xs = []"
  by (cases xs rule: dropGroups.cases) auto

lemma dropsLoop_dropGroups: "dropsLoop parts i acc = acc @ dropGroups (drop i parts)"
proof (induction parts i acc rule: dropsLoop.induct)
  case (1 parts i npcDrops)
  show ?case
  proof (cases "i + 4 \<le> length parts")
    case True
    note IH = "1.IH" [OF True refl refl refl refl]
    show ?thesis
      apply (subst dropsLoop.simps)
      apply (simp only: True if_True Let_def IH)
      apply (simp add: drop_four [OF True])
      done
  next
    case False
    then have "dropGroups (drop i parts) = []"
      by (intro dropGroups_short) simp
    with False show ?thesis
      by (subst dropsLoop.simps) simp
  qed
qed

lemma dropGroups_append_partial:
  "length ps mod 4 = 0 \<Longrightarrow> length extra < 4 \<Longrightarrow> dropGroups (ps @ extra) = dropGroups ps"
proof (induction ps rule: dropGroups.induct)
  case (1 a b c d rest)
  then have "length rest mod 4 = 0" by simp
  with 1 show ?case by simp
qed (simp_all add: dropGroups_short)

lemma length_dropGroups: "length (dropGroups xs) \<le> length xs div 4"
  by (induction xs rule: dropGroups.induct) auto

lemma dropGroups_complete_groups:
  "dropGroups ps = dropGroups (take (4 * (length ps div 4)) ps)"
proof -
  let ?m = "4 * (length ps div 4)"
  have m: "?m \<le> length ps" by simp
  have "length (take ?m ps) mod 4 = 0" using m by simp
  moreover have "length (drop ?m ps) < 4"
    by (simp add: minus_mult_div_eq_mod mult.commute)
  ultimately have "dropGroups (take ?m ps @ drop ?m ps) = dropGroups (take ?m ps)"
    by (rule dropGroups_append_partial)
  then show ?thesis by simp
qed

text \<open>
  Claim C2, as amended. The value \<^verbatim>\<open>"10,1,2,5.5,20,3,4,1.0"\<close> parses to exactly the two
  drop entries (10, 1, 2, 5.5) and (20, 3, 4, 1.0). For every value string, only the
  complete groups of 4 among its non-empty fields contribute: the result equals the result
  on the parts cut after the last complete group, so the 1 to 3 values left over are
  dropped, and there are at most (number of parts) div 4 entries.
\<close>

theorem drops_value_complete_groups_only:
  "parseDropsValue ''10,1,2,5.5,20,3,4,1.0'' =
     [\<lparr>drop_itemId = 10, drop_itemName = [], drop_minAmount = 1, drop_maxAmount = 2,
        drop_dropRate = Finite (11 / 2)\<rparr>,
      \<lparr>drop_itemId = 20, drop_itemName = [], drop_minAmount = 3, drop_maxAmount = 4,
        drop_dropRate = Finite 1\<rparr>]
   \<and> parseDropsValue v = dropsLoop (take (4 * (length (csvParts v) div 4)) (csvParts v)) 0 []
   \<and> length (parseDropsValue v) \<le> length (csvParts v) div 4"
proof -
  have ex: "parseDropsValue ''10,1,2,5.5,20,3,4,1.0'' =
     [\<lparr>drop_itemId = 10, drop_itemName = [], drop_minAmount = 1, drop_maxAmount = 2,
        drop_dropRate = Finite (11 / 2)\<rparr>,
      \<lparr>drop_itemId = 20, drop_itemName = [], drop_minAmount = 3, drop_maxAmount = 4,
        drop_dropRate = Finite 1\<rparr>]"
    by code_simp
  have cut: "parseDropsValue v = dropsLoop (take (4 * (length (csvParts v) div 4)) (csvParts v)) 0 []"
    unfolding parseDropsValue_def dropsLoop_dropGroups
    using dropGroups_complete_groups [of "csvParts v"] by simp
  have len: "length (parseDropsValue v) \<le> length (csvParts v) div 4"
    unfolding parseDropsValue_def dropsLoop_dropGroups
    by (simp add: length_dropGroups)
  from ex cut len show ?thesis by blast
qed

text \<open>
  Claim C2 as stated fails on its own example of a trailing partial group: five extra
  values after the two complete groups are one more complete group and one leftover
  value, and the complete group is parsed into a third entry.
\<close>

theorem five_extra_values_counterexample:
  "csvParts ''10,1,2,5.5,20,3,4,1.0,30,1,1,2.0,7'' =
     csvParts ''10,1,2,5.5,20,3,4,1.0'' @ [''30'', ''1'', ''1'', ''2.0'', ''7'']
   \<and> length (parseDropsValue ''10,1,2,5.5,20,3,4,1.0,30,1,1,2.0,7'') = 3
   \<and> length (parseDropsValue ''10,1,2,5.5,20,3,4,1.0'') = 2"
  by code_simp



section \<open>The drops pass\<close>

lemma map_fst_map_entry: "map fst (AList.map_entry k f xs) = map fst xs"
  by (induction xs) auto

lemma optList_pushOpt: "optList (pushOpt l v) = optList l @ [v]"
  by (simp add: optList_def pushOpt_def)

lemma addEdge_items_lookup:
  "map_of items (drop_itemId d) = Some item \<Longrightarrow>
   map_of (fst (addEdge k nm d item (items, npcs))) i =
     (if i = drop_itemId d
      then Some (item\<lparr>item_dropsFrom := pushOpt (item_dropsFrom item) (mkNpcDrop k nm d)\<rparr>)
      else map_of items i)"
  by (simp add: addEdge_def map_of_map_entry)

lemma addEdge_npcs_lookup:
  "map_of npcs k = Some n \<Longrightarrow>
   map_of (snd (addEdge k nm d item (items, npcs))) j =
     (if j = k
      then Some (n\<lparr>npc_drops := pushOpt (npc_drops n) (d\<lparr>drop_itemName := item_name item\<rparr>)\<rparr>)
      else map_of npcs j)"
  by (simp add: addEdge_def map_of_map_entry)

lemma mkNpcDrop_itemName [simp]: "mkNpcDrop k nm (d\<lparr>drop_itemName := x\<rparr>) = mkNpcDrop k nm d"
  by (simp add: mkNpcDrop_def)

lemma addEdge_invN:
  assumes inv: "invN items npcs" and n: "map_of npcs k = Some n" and nm: "npc_name n = nm"
    and item: "map_of items (drop_itemId d) = Some item"
  shows "invN (fst (addEdge k nm d item (items, npcs))) (snd (addEdge k nm d item (items, npcs)))"
  unfolding invN_def
proof (intro allI impI)
  fix ka na da
  let ?items = "fst (addEdge k nm d item (items, npcs))"
  let ?npcs = "snd (addEdge k nm d item (items, npcs))"
  let ?new = "item\<lparr>item_dropsFrom := pushOpt (item_dropsFrom item) (mkNpcDrop k nm d)\<rparr>"
  assume na: "map_of ?npcs ka = Some na" and da: "da \<in> set (optList (npc_drops na))"
  have old_ok: "\<exists>it. map_of ?items (drop_itemId x) = Some it \<and> drop_itemName x = item_name it \<and>
           mkNpcDrop j (npc_name m) x \<in> set (optList (item_dropsFrom it))"
    if "map_of npcs j = Some m" "x \<in> set (optList (npc_drops m))" for j m x
  proof -
    from inv that obtain it where it: "map_of items (drop_itemId x) = Some it"
      "drop_itemName x = item_name it" "mkNpcDrop j (npc_name m) x \<in> set (optList (item_dropsFrom it))"
      unfolding invN_def by blast
    show ?thesis
    proof (cases "drop_itemId x = drop_itemId d")
      case True
      with it item have "it = item" by simp
      with it True show ?thesis
        by (simp add: addEdge_items_lookup [OF item] optList_pushOpt)
    next
      case False
      with it show ?thesis
        by (simp add: addEdge_items_lookup [OF item])
    qed
  qed
  show "\<exists>it. map_of ?items (drop_itemId da) = Some it \<and> drop_itemName da = item_name it \<and>
           mkNpcDrop ka (npc_name na) da \<in> set (optList (item_dropsFrom it))"
  proof (cases "ka = k")
    case False
    with na have "map_of npcs ka = Some na"
      by (simp add: addEdge_npcs_lookup [OF n])
    from old_ok [OF this da] show ?thesis .
  next
    case True
    with na have na_eq: "na = n\<lparr>npc_drops := pushOpt (npc_drops n) (d\<lparr>drop_itemName := item_name item\<rparr>)\<rparr>"
      by (simp add: addEdge_npcs_lookup [OF n])
    with da have "da \<in> set (optList (npc_drops n)) \<or> da = d\<lparr>drop_itemName := item_name item\<rparr>"
      by (auto simp: optList_pushOpt)
    then show ?thesis
    proof
      assume "da \<in> set (optList (npc_drops n))"
      from old_ok [OF n this] show ?thesis using True na_eq by simp
    next
      assume "da = d\<lparr>drop_itemName := item_name item\<rparr>"
      then show ?thesis using True na_eq nm
        by (simp add: addEdge_items_lookup [OF item] optList_pushOpt)
    qed
  qed
qed

lemma mkItemDrop_naming:
  "mkItemDrop (drop_itemId d) nm (mkNpcDrop k x d) = d\<lparr>drop_itemName := nm\<rparr>"
  by (simp add: mkItemDrop_def mkNpcDrop_def)

lemma addEdge_invI:
  assumes inv: "invI K items npcs" and n: "map_of npcs k = Some n" and nm: "npc_name n = nm"
    and item: "map_of items (drop_itemId d) = Some item" and k: "k \<notin> K"
  shows "invI K (fst (addEdge k nm d item (items, npcs))) (snd (addEdge k nm d item (items, npcs)))"
  unfolding invI_def
proof (intro allI impI)
  fix i it e
  let ?items = "fst (addEdge k nm d item (items, npcs))"
  let ?npcs = "snd (addEdge k nm d item (items, npcs))"
  let ?d' = "d\<lparr>drop_itemName := item_name item\<rparr>"
  assume it: "map_of ?items i = Some it" and e: "e \<in> set (optList (item_dropsFrom it))"
  have old_ok: "nd_npcId x \<notin> K \<and>
        (\<exists>m. map_of ?npcs (nd_npcId x) = Some m \<and> nd_npcName x = npc_name m \<and>
           mkItemDrop j (item_name jt) x \<in> set (optList (npc_drops m)))"
    if "map_of items j = Some jt" "x \<in> set (optList (item_dropsFrom jt))" for j jt x
  proof -
    from inv that obtain m where m: "nd_npcId x \<notin> K" "map_of npcs (nd_npcId x) = Some m"
      "nd_npcName x = npc_name m" "mkItemDrop j (item_name jt) x \<in> set (optList (npc_drops m))"
      unfolding invI_def by blast
    show ?thesis
    proof (cases "nd_npcId x = k")
      case True
      with m n have "m = n" by simp
      with m True show ?thesis
        by (simp add: addEdge_npcs_lookup [OF n] optList_pushOpt)
    next
      case False
      with m show ?thesis
        by (simp add: addEdge_npcs_lookup [OF n])
    qed
  qed
  show "nd_npcId e \<notin> K \<and>
        (\<exists>m. map_of ?npcs (nd_npcId e) = Some m \<and> nd_npcName e = npc_name m \<and>
           mkItemDrop i (item_name it) e \<in> set (optList (npc_drops m)))"
  proof (cases "i = drop_itemId d")
    case False
    with it have "map_of items i = Some it"
      by (simp add: addEdge_items_lookup [OF item])
    from old_ok [OF this e] show ?thesis .
  next
    case True
    with it have it_eq: "it = item\<lparr>item_dropsFrom := pushOpt (item_dropsFrom item) (mkNpcDrop k nm d)\<rparr>"
      by (simp add: addEdge_items_lookup [OF item])
    with e have "e \<in> set (optList (item_dropsFrom item)) \<or> e = mkNpcDrop k nm d"
      by (auto simp: optList_pushOpt)
    then show ?thesis
    proof
      assume "e \<in> set (optList (item_dropsFrom item))"
      from old_ok [OF item this] show ?thesis using True it_eq by simp
    next
      assume e_eq: "e = mkNpcDrop k nm d"
      have "nd_npcId e = k" "nd_npcName e = nm"
        using e_eq by (simp_all add: mkNpcDrop_def)
      then show ?thesis using True it_eq nm k e_eq
        by (simp add: addEdge_npcs_lookup [OF n] optList_pushOpt mkItemDrop_naming)
    qed
  qed
qed


lemma indexDropsInner_step:
  "indexDropsInner k nm (d # rest) (items, npcs) =
     (case map_of items (drop_itemId d) of
        None \<Rightarrow> indexDropsInner k nm rest (items, npcs)
      | Some item \<Rightarrow> indexDropsInner k nm rest (addEdge k nm d item (items, npcs)))"
  by (simp add: addEdge_def mkNpcDrop_def Let_def split: option.splits)

lemma addEdge_keys:
  "map fst (fst (addEdge k nm d item st)) = map fst (fst st)"
  "map fst (snd (addEdge k nm d item st)) = map fst (snd st)"
  by (simp_all add: addEdge_def map_fst_map_entry)

lemma indexDropsInner_inv:
  assumes "invN items npcs" "invI K items npcs" "map_of npcs k = Some n" "npc_name n = nm" "k \<notin> K"
  shows "invN (fst (indexDropsInner k nm ds (items, npcs))) (snd (indexDropsInner k nm ds (items, npcs)))
       \<and> invI K (fst (indexDropsInner k nm ds (items, npcs))) (snd (indexDropsInner k nm ds (items, npcs)))"
  using assms
proof (induction ds arbitrary: items npcs n)
  case Nil
  then show ?case by simp
next
  case (Cons d ds)
  show ?case
  proof (cases "map_of items (drop_itemId d)")
    case None
    then show ?thesis using Cons by (simp del: indexDropsInner.simps add: indexDropsInner_step)
  next
    case (Some item)
    obtain items' npcs' where st: "addEdge k nm d item (items, npcs) = (items', npcs')"
      by (cases "addEdge k nm d item (items, npcs)")
    have 1: "invN items' npcs'"
      using addEdge_invN [OF Cons.prems(1) Cons.prems(3) Cons.prems(4) Some] st by simp
    have 2: "invI K items' npcs'"
      using addEdge_invI [OF Cons.prems(2) Cons.prems(3) Cons.prems(4) Some Cons.prems(5)] st by simp
    have 3: "map_of npcs' k = Some (n\<lparr>npc_drops := pushOpt (npc_drops n) (d\<lparr>drop_itemName := item_name item\<rparr>)\<rparr>)"
    proof -
      have "map_of (snd (addEdge k nm d item (items, npcs))) k =
          Some (n\<lparr>npc_drops := pushOpt (npc_drops n) (d\<lparr>drop_itemName := item_name item\<rparr>)\<rparr>)"
        by (simp add: addEdge_npcs_lookup [OF Cons.prems(3)])
      then show ?thesis using st by simp
    qed
    have 4: "npc_name (n\<lparr>npc_drops := pushOpt (npc_drops n) (d\<lparr>drop_itemName := item_name item\<rparr>)\<rparr>) = nm"
      using Cons.prems(4) by simp
    from Cons.IH [OF 1 2 3 4 Cons.prems(5)] show ?thesis
      using Some st by (simp del: indexDropsInner.simps add: indexDropsInner_step)
  qed
qed

lemma indexDropsInner_keys:
  "map fst (fst (indexDropsInner k nm ds st)) = map fst (fst st) \<and>
   map fst (snd (indexDropsInner k nm ds st)) = map fst (snd st)"
proof (induction ds arbitrary: st)
  case Nil
  then show ?case by (cases st) simp
next
  case (Cons d ds)
  obtain items npcs where st: "st = (items, npcs)" by (cases st)
  show ?case
    unfolding st indexDropsInner_step
    using Cons.IH [of "(items, npcs)"] Cons.IH [of "addEdge k nm d item (items, npcs)" for item]
    by (auto split: option.splits simp: addEdge_keys simp del: indexDropsInner.simps)
qed

lemma invI_mono: "invI K items npcs \<Longrightarrow> K' \<subseteq> K \<Longrightarrow> invI K' items npcs"
  unfolding invI_def by blast

lemma reset_inv:
  assumes "invN items npcs" "invI K items npcs" "k \<in> K"
  shows "invN items (AList.map_entry k (\<lambda>n. n\<lparr>npc_drops := Some []\<rparr>) npcs)
       \<and> invI K items (AList.map_entry k (\<lambda>n. n\<lparr>npc_drops := Some []\<rparr>) npcs)"
proof
  show "invN items (AList.map_entry k (\<lambda>n. n\<lparr>npc_drops := Some []\<rparr>) npcs)"
    using assms(1) unfolding invN_def
    by (auto simp: map_of_map_entry optList_def split: option.splits if_splits)
next
  show "invI K items (AList.map_entry k (\<lambda>n. n\<lparr>npc_drops := Some []\<rparr>) npcs)"
    unfolding invI_def
  proof (intro allI impI)
    fix i it e
    assume a: "map_of items i = Some it" "e \<in> set (optList (item_dropsFrom it))"
    with assms(2) obtain m where m: "nd_npcId e \<notin> K" "map_of npcs (nd_npcId e) = Some m"
      "nd_npcName e = npc_name m" "mkItemDrop i (item_name it) e \<in> set (optList (npc_drops m))"
      unfolding invI_def by blast
    from m(1) assms(3) have "nd_npcId e \<noteq> k" by auto
    with m show "nd_npcId e \<notin> K \<and>
        (\<exists>n. map_of (AList.map_entry k (\<lambda>n. n\<lparr>npc_drops := Some []\<rparr>) npcs) (nd_npcId e) = Some n \<and>
           nd_npcName e = npc_name n \<and> mkItemDrop i (item_name it) e \<in> set (optList (npc_drops n)))"
      by (simp add: map_of_map_entry)
  qed
qed

lemma indexDrops_inv:
  assumes "distinct (map fst drops)" "invN items npcs" "invI (set (map fst drops)) items npcs"
  shows "invN (fst (indexDrops items npcs drops)) (snd (indexDrops items npcs drops))
       \<and> invI {} (fst (indexDrops items npcs drops)) (snd (indexDrops items npcs drops))"
  using assms
proof (induction drops arbitrary: items npcs)
  case Nil
  then show ?case by simp
next
  case (Cons kd rest)
  obtain k ds where kd: "kd = (k, ds)" by (cases kd)
  from Cons.prems(1) kd have dist: "distinct (map fst rest)" and k: "k \<notin> set (map fst rest)"
    by auto
  show ?case
  proof (cases "map_of npcs k")
    case None
    have "invI (set (map fst rest)) items npcs"
      using Cons.prems(3) by (rule invI_mono) (auto simp: kd)
    from Cons.IH [OF dist Cons.prems(2) this] show ?thesis
      using None kd by simp
  next
    case (Some npc)
    let ?npcs0 = "AList.map_entry k (\<lambda>n. n\<lparr>npc_drops := Some []\<rparr>) npcs"
    have r: "invN items ?npcs0 \<and> invI (set (map fst (kd # rest))) items ?npcs0"
      using reset_inv [OF Cons.prems(2) Cons.prems(3)] kd by simp
    then have r2: "invI (set (map fst rest)) items ?npcs0"
      by (auto intro: invI_mono)
    have n0: "map_of ?npcs0 k = Some (npc\<lparr>npc_drops := Some []\<rparr>)"
      using Some by (simp add: map_of_map_entry)
    have nm: "npc_name (npc\<lparr>npc_drops := Some []\<rparr>) = npc_name npc" by simp
    obtain items' npcs' where st: "indexDropsInner k (npc_name npc) ds (items, ?npcs0) = (items', npcs')"
      by (cases "indexDropsInner k (npc_name npc) ds (items, ?npcs0)")
    have "invN items' npcs' \<and> invI (set (map fst rest)) items' npcs'"
      using indexDropsInner_inv [OF conjunct1 [OF r] r2 n0 nm k, of ds] st by simp
    then have "invN (fst (indexDrops items' npcs' rest)) (snd (indexDrops items' npcs' rest))
       \<and> invI {} (fst (indexDrops items' npcs' rest)) (snd (indexDrops items' npcs' rest))"
      using Cons.IH [OF dist] by blast
    then show ?thesis
      using Some kd st by (simp add: Let_def)
  qed
qed

lemma indexDrops_keys:
  "map fst (fst (indexDrops items npcs drops)) = map fst items \<and>
   map fst (snd (indexDrops items npcs drops)) = map fst npcs"
proof (induction drops arbitrary: items npcs)
  case Nil
  then show ?case by simp
next
  case (Cons kd rest)
  obtain k ds where kd: "kd = (k, ds)" by (cases kd)
  show ?case
  proof (cases "map_of npcs k")
    case None
    then show ?thesis using Cons.IH kd by simp
  next
    case (Some npc)
    let ?npcs0 = "AList.map_entry k (\<lambda>n. n\<lparr>npc_drops := Some []\<rparr>) npcs"
    obtain items' npcs' where st: "indexDropsInner k (npc_name npc) ds (items, ?npcs0) = (items', npcs')"
      by (cases "indexDropsInner k (npc_name npc) ds (items, ?npcs0)")
    have "map fst items' = map fst items \<and> map fst npcs' = map fst npcs"
      using indexDropsInner_keys [of k "npc_name npc" ds "(items, ?npcs0)"] st
      by (simp add: map_fst_map_entry)
    then show ?thesis
      using Some kd st Cons.IH [of items' npcs'] by (simp add: Let_def)
  qed
qed

lemma in_set_map_of: "distinct (map fst xs) \<Longrightarrow> (k, v) \<in> set xs \<Longrightarrow> map_of xs k = Some v"
  by simp

lemma invN_npcSideMirrored:
  assumes "distinct (map fst npcs)" "invN items npcs"
  shows "npcSideMirrored (items, npcs)"
  unfolding npcSideMirrored_def list_all_iff
proof (intro ballI, clarify)
  fix k n d
  assume "(k, n) \<in> set (snd (items, npcs))" "d \<in> set (optList (npc_drops n))"
  then have "map_of npcs k = Some n" "d \<in> set (optList (npc_drops n))"
    using assms(1) by simp_all
  with assms(2) obtain it where "map_of items (drop_itemId d) = Some it"
    "drop_itemName d = item_name it"
    "mkNpcDrop k (npc_name n) d \<in> set (optList (item_dropsFrom it))"
    unfolding invN_def by blast
  then show "case map_of (fst (items, npcs)) (drop_itemId d) of None \<Rightarrow> False
       | Some it \<Rightarrow> drop_itemName d = item_name it \<and>
           \<lparr>nd_npcId = k, nd_npcName = npc_name n, nd_minAmount = drop_minAmount d,
             nd_maxAmount = drop_maxAmount d, nd_dropRate = drop_dropRate d\<rparr>
           \<in> set (optList (item_dropsFrom it))"
    by (simp add: mkNpcDrop_def)
qed

lemma invI_itemSideMirrored:
  assumes "distinct (map fst items)" "invI K items npcs"
  shows "itemSideMirrored (items, npcs)"
  unfolding itemSideMirrored_def list_all_iff
proof (intro ballI, clarify)
  fix i it e
  assume "(i, it) \<in> set (fst (items, npcs))" "e \<in> set (optList (item_dropsFrom it))"
  then have "map_of items i = Some it" "e \<in> set (optList (item_dropsFrom it))"
    using assms(1) by simp_all
  with assms(2) obtain n where "map_of npcs (nd_npcId e) = Some n"
    "nd_npcName e = npc_name n"
    "mkItemDrop i (item_name it) e \<in> set (optList (npc_drops n))"
    unfolding invI_def by blast
  then show "case map_of (snd (items, npcs)) (nd_npcId e) of None \<Rightarrow> False
       | Some n \<Rightarrow> nd_npcName e = npc_name n \<and>
           \<lparr>drop_itemId = i, drop_itemName = item_name it, drop_minAmount = nd_minAmount e,
             drop_maxAmount = nd_maxAmount e, drop_dropRate = nd_dropRate e\<rparr>
           \<in> set (optList (npc_drops n))"
    by (simp add: mkItemDrop_def)
qed

lemma fresh_invN:
  "list_all (\<lambda>(k, n). npc_drops n = None) npcs \<Longrightarrow> invN items npcs"
  unfolding invN_def list_all_iff
  by (auto simp: optList_def dest!: map_of_SomeD)

lemma fresh_invI:
  "list_all (\<lambda>(i, it). item_dropsFrom it = None) items \<Longrightarrow> invI K items npcs"
  unfolding invI_def list_all_iff
  by (auto simp: optList_def dest!: map_of_SomeD)

text \<open>
  Claim C4. After the drops pass over freshly loaded tables (distinct keys, as in a
  \<^verbatim>\<open>Map\<close>; no \<^verbatim>\<open>drops\<close> and no \<^verbatim>\<open>dropsFrom\<close> set yet: what \<open>loadItems\<close>, \<open>loadNpcs\<close> and
  \<open>loadDrops\<close> return, see \<open>loadItems_fresh\<close>, \<open>loadNpcs_fresh\<close> and \<open>loadDrops_distinct\<close> below),
  every drop entry on an NPC has its
  mirror on the item it names, with the NPC's id and name and the same minimum, maximum and
  rate, and carries that item's name; and every source entry on an item has its mirror on
  the NPC it names, with the item's id and name and the same minimum, maximum and rate, and
  carries that NPC's name.
\<close>

theorem drops_edges_mirrored:
  assumes "distinct (map fst drops)" and "distinct (map fst items)" and "distinct (map fst npcs)"
    and "list_all (\<lambda>(i, it). item_dropsFrom it = None) items"
    and "list_all (\<lambda>(k, n). npc_drops n = None) npcs"
  shows "npcSideMirrored (indexDrops items npcs drops) \<and>
         itemSideMirrored (indexDrops items npcs drops)"
proof -
  obtain items' npcs' where st: "indexDrops items npcs drops = (items', npcs')"
    by (cases "indexDrops items npcs drops")
  have inv: "invN items' npcs' \<and> invI {} items' npcs'"
    using indexDrops_inv [OF assms(1) fresh_invN [OF assms(5)] fresh_invI [OF assms(4)]] st
    by simp
  have keys: "map fst items' = map fst items" "map fst npcs' = map fst npcs"
    using indexDrops_keys [of items npcs drops] st by simp_all
  have "npcSideMirrored (items', npcs')"
    using invN_npcSideMirrored [of npcs' items'] inv keys assms(3) by simp
  moreover have "itemSideMirrored (items', npcs')"
    using invI_itemSideMirrored [of items' "{}" npcs'] inv keys assms(2) by simp
  ultimately show ?thesis using st by simp
qed

theorem drops_edges_mirrored_witness:
  "distinct (map fst exDrops) \<and> distinct (map fst exItems) \<and> distinct (map fst exNpcs)
   \<and> list_all (\<lambda>(i, it). item_dropsFrom it = None) exItems
   \<and> list_all (\<lambda>(k, n). npc_drops n = None) exNpcs
   \<and> npcSideMirrored (indexDrops exItems exNpcs exDrops)
   \<and> itemSideMirrored (indexDrops exItems exNpcs exDrops)
   \<and> map (\<lambda>(k, n). (k, map drop_itemId (optList (npc_drops n))))
        (snd (indexDrops exItems exNpcs exDrops)) = [(1, [10]), (12, [10, 20])]
   \<and> map (\<lambda>(i, it). (i, map nd_npcId (optList (item_dropsFrom it))))
        (fst (indexDrops exItems exNpcs exDrops)) = [(10, [1, 12]), (20, [12])]"
proof -
  have "map (\<lambda>(k, n). (k, map drop_itemId (optList (npc_drops n))))
        (snd (indexDrops exItems exNpcs exDrops)) = [(1, [10]), (12, [10, 20])]"
    by code_simp
  moreover have "map (\<lambda>(i, it). (i, map nd_npcId (optList (item_dropsFrom it))))
        (fst (indexDrops exItems exNpcs exDrops)) = [(10, [1, 12]), (20, [12])]"
    by code_simp
  ultimately show ?thesis
    using drops_edges_mirrored [of exDrops exItems exNpcs]
    by (simp add: exDrops_def exItems_def exNpcs_def newItem_def newNpc_def)
qed

section \<open>The spellcast pass\<close>

lemma nameCasts_Cons: "nameCasts spells (c # cs) = nameCast spells c # nameCasts spells cs"
  by (simp add: nameCasts_def nameCast_def)

lemma nameCasts_Nil: "nameCasts spells [] = []"
  by (simp add: nameCasts_def)

lemma indexNpcSpellcasts_absent:
  "k \<notin> set (map fst spellcasts) \<Longrightarrow>
   map_of (indexNpcSpellcasts npcs spells spellcasts) k = map_of npcs k"
proof (induction spellcasts arbitrary: npcs)
  case Nil
  then show ?case by simp
next
  case (Cons kc rest)
  obtain k0 casts where kc: "kc = (k0, casts)" by (cases kc)
  with Cons.prems have ne: "k0 \<noteq> k" and rest: "k \<notin> set (map fst rest)" by auto
  show ?case
    using Cons.IH [OF rest] ne kc
    by (auto simp: map_of_map_entry split: option.splits list.splits)
qed

lemma indexNpcSpellcasts_lookup:
  assumes "distinct (map fst spellcasts)" and "map_of spellcasts npcId = Some (first # others)"
    and "map_of npcs npcId = Some npc"
  shows "map_of (indexNpcSpellcasts npcs spells spellcasts) npcId =
           Some (npc\<lparr>npc_spellcasting := Some (nameCast spells first)\<rparr>)"
  using assms
proof (induction spellcasts arbitrary: npcs npc)
  case Nil
  then show ?case by simp
next
  case (Cons kc rest)
  obtain k0 casts where kc: "kc = (k0, casts)" by (cases kc)
  from Cons.prems(1) kc have dist: "distinct (map fst rest)" and k0: "k0 \<notin> set (map fst rest)"
    by auto
  show ?case
  proof (cases "k0 = npcId")
    case True
    with Cons.prems(2) kc have casts: "casts = first # others" by simp
    from True k0 have "npcId \<notin> set (map fst rest)" by simp
    from indexNpcSpellcasts_absent [OF this] show ?thesis
      using True kc casts Cons.prems(3)
      by (simp add: nameCasts_Cons map_of_map_entry)
  next
    case False
    with Cons.prems(2) kc have m: "map_of rest npcId = Some (first # others)" by simp
    have keep: "map_of (AList.map_entry k0 f npcs) npcId = Some npc" for f
      using False Cons.prems(3) by (simp add: map_of_map_entry)
    show ?thesis
      using Cons.IH [OF dist m Cons.prems(3)] Cons.IH [OF dist m keep] kc
      by (auto split: option.splits list.splits)
  qed
qed

text \<open>
  Claim C8. For an NPC of the table whose entry in the parsed spellcasts (a \<^verbatim>\<open>Map\<close>, so with
  distinct keys) is a non-empty list, the pass changes the NPC in exactly one field: its
  \<^verbatim>\<open>spellcasting\<close> is the first entry of the list, with the spell's name written into it when
  the spell id is in the spell table. The later entries are attached nowhere.
\<close>

theorem first_spellcast_retained:
  assumes "distinct (map fst spellcasts)"
    and "map_of spellcasts npcId = Some (first # others)"
    and "map_of npcs npcId = Some npc"
  shows "map_of (indexNpcSpellcasts npcs spells spellcasts) npcId =
           Some (npc\<lparr>npc_spellcasting :=
             Some (case map_of spells (sc_spellId first) of
                     None \<Rightarrow> first
                   | Some spell \<Rightarrow> first\<lparr>sc_spellName := spell_name spell\<rparr>)\<rparr>)"
  using indexNpcSpellcasts_lookup [OF assms] by (simp add: nameCast_def)

theorem first_spellcast_retained_witness:
  "distinct (map fst exCasts)
   \<and> map_of exNpcs 1 = Some (newNpc 1 ''Rat'' 5 0)
   \<and> map_of (indexNpcSpellcasts exNpcs exSpells exCasts) 1 =
       Some ((newNpc 1 ''Rat'' 5 0)\<lparr>npc_spellcasting :=
         Some \<lparr>sc_spellId = 3, sc_spellName = ''Fireball'', sc_castType = target,
               sc_damage = 40, sc_chance = Finite 10\<rparr>\<rparr>)"
  using first_spellcast_retained [of exCasts 1
      "\<lparr>sc_spellId = 3, sc_spellName = [], sc_castType = target, sc_damage = 40,
             sc_chance = Finite 10\<rparr>"
      "[\<lparr>sc_spellId = 8, sc_spellName = [], sc_castType = aoe, sc_damage = 90,
             sc_chance = Finite 5\<rparr>]" exNpcs "newNpc 1 ''Rat'' 5 0" exSpells]
  by (simp add: exCasts_def exNpcs_def exSpells_def)

section \<open>The name indices\<close>

lemma foldl_update_lookup:
  "map_of (foldl (\<lambda>m (k, x). if P k x then AList.update (key k x) (val k x) m else m) m0 xs) q =
     (case filter (\<lambda>(k, x). P k x \<and> key k x = q) xs of
        [] \<Rightarrow> map_of m0 q
      | y # ys \<Rightarrow> Some (case last (y # ys) of (k, x) \<Rightarrow> val k x))"
proof (induction xs arbitrary: m0)
  case Nil
  then show ?case by simp
next
  case (Cons a xs)
  obtain k x where a: "a = (k, x)" by (cases a)
  show ?case
    unfolding a
    by (simp add: Cons.IH update_conv' split: list.splits)
qed

text \<open>
  Claim C7. The name index of a table is keyed by the lower-cased names: looking up a key
  gives the last entity, in table order, whose non-empty name lower-cases to the key, and
  nothing when there is none. With two items named Potion and POTION, the key potion gives
  the later one, and the key Potion, which is no lower-cased name, gives nothing.
\<close>

theorem name_index_last_wins:
  "map_of (buildNameIndex name entities) key =
     (case filter (\<lambda>(k, x). name x \<noteq> [] \<and> toLowerCase (name x) = key) entities of
        [] \<Rightarrow> None
      | y # ys \<Rightarrow> Some (snd (last (y # ys))))
   \<and> map_of (buildNameIndex item_name
         [(1, newItem 1 ''Potion'' 3), (2, newItem 2 ''POTION'' 4), (3, newItem 3 ''Sword'' 5)])
       ''potion'' = Some (newItem 2 ''POTION'' 4)
   \<and> map_of (buildNameIndex item_name
         [(1, newItem 1 ''Potion'' 3), (2, newItem 2 ''POTION'' 4), (3, newItem 3 ''Sword'' 5)])
       ''Potion'' = None"
proof -
  have gen: "map_of (buildNameIndex name entities) key =
     (case filter (\<lambda>(k, x). name x \<noteq> [] \<and> toLowerCase (name x) = key) entities of
        [] \<Rightarrow> None
      | y # ys \<Rightarrow> Some (snd (last (y # ys))))"
    unfolding buildNameIndex_def
    using foldl_update_lookup [of "\<lambda>k x. name x \<noteq> []" "\<lambda>k x. toLowerCase (name x)" "\<lambda>k x. x" "[]" entities key]
    by (simp add: case_prod_unfold split: list.splits)
  have ex1: "map_of (buildNameIndex item_name
         [(1, newItem 1 ''Potion'' 3), (2, newItem 2 ''POTION'' 4), (3, newItem 3 ''Sword'' 5)])
       ''potion'' = Some (newItem 2 ''POTION'' 4)"
    by code_simp
  have ex2: "map_of (buildNameIndex item_name
         [(1, newItem 1 ''Potion'' 3), (2, newItem 2 ''POTION'' 4), (3, newItem 3 ''Sword'' 5)])
       ''Potion'' = None"
    by code_simp
  from gen ex1 ex2 show ?thesis by blast
qed

section \<open>The quest pass: what becomes of the entries of a quest\<close>

lemma npcCore_map_entry:
  assumes "\<And>n. npc_name (f n) = npc_name n" "\<And>n. npc_id (f n) = npc_id n"
    "\<And>n. npc_graphicId (f n) = npc_graphicId n"
  shows "npcCore (AList.map_entry k f npcs) = npcCore npcs"
  by (rule ext) (simp add: npcCore_def map_of_map_entry assms split: option.splits)

lemma itemCore_map_entry:
  assumes "\<And>n. item_name (f n) = item_name n"
  shows "itemCore (AList.map_entry k f items) = itemCore items"
  by (rule ext) (simp add: itemCore_def map_of_map_entry assms split: option.splits)

lemma npcCore_None: "npcCore a = npcCore b \<Longrightarrow> map_of a k = None \<longleftrightarrow> map_of b k = None"
  by (metis npcCore_def option.map_disc_iff)

lemma itemCore_None: "itemCore a = itemCore b \<Longrightarrow> map_of a k = None \<longleftrightarrow> map_of b k = None"
  by (metis itemCore_def option.map_disc_iff)

lemma resolveKill_cong: "npcCore a = npcCore b \<Longrightarrow> resolveKill a = resolveKill b"
proof (rule ext)
  fix kr :: KillRequirement
  assume "npcCore a = npcCore b"
  then have "npcCore a (kr_npcId kr) = npcCore b (kr_npcId kr)" by simp
  then show "resolveKill a kr = resolveKill b kr"
    by (auto simp: resolveKill_def npcCore_def split: option.splits)
qed

lemma resolveQuestNpc_cong:
  "npcCore a = npcCore b \<Longrightarrow> resolveQuestNpc vend a = resolveQuestNpc vend b"
proof (rule ext)
  fix e :: QuestNpc
  assume eq: "npcCore a = npcCore b"
  show "resolveQuestNpc vend a e = resolveQuestNpc vend b e"
  proof (cases "map_of vend (qn_npcId e)")
    case None
    then show ?thesis by (simp add: resolveQuestNpc_def vendorGet_def)
  next
    case (Some ref)
    from eq have "npcCore a ref = npcCore b ref" by simp
    with Some show ?thesis
      by (auto simp: resolveQuestNpc_def vendorGet_def npcCore_def split: option.splits)
  qed
qed

lemma resolveReward_cong: "itemCore a = itemCore b \<Longrightarrow> resolveReward a = resolveReward b"
proof (rule ext)
  fix r :: QuestRewardItem
  assume "itemCore a = itemCore b"
  then have "itemCore a (qri_itemId r) = itemCore b (qri_itemId r)" by simp
  then show "resolveReward a r = resolveReward b r"
    by (auto simp: resolveReward_def itemCore_def split: option.splits)
qed

lemma resolveItemReq_cong: "itemCore a = itemCore b \<Longrightarrow> resolveItemReq a = resolveItemReq b"
proof (rule ext)
  fix r :: ItemRequirement
  assume "itemCore a = itemCore b"
  then have "itemCore a (ir_itemId r) = itemCore b (ir_itemId r)" by simp
  then show "resolveItemReq a r = resolveItemReq b r"
    by (auto simp: resolveItemReq_def itemCore_def split: option.splits)
qed

lemma indexInvolvedNpcs_entries:
  "fst (indexInvolvedNpcs vend qid qname es npcs) = map (resolveQuestNpc vend npcs) es
   \<and> npcCore (snd (indexInvolvedNpcs vend qid qname es npcs)) = npcCore npcs"
proof (induction es arbitrary: npcs)
  case Nil
  then show ?case by simp
next
  case (Cons e es)
  show ?case
  proof (cases "vendorGet vend npcs (qn_npcId e)")
    case None
    then show ?thesis
      using Cons.IH [of npcs]
      by (auto simp add: resolveQuestNpc_def split: prod.splits)
  next
    case (Some p)
    obtain ref npc where p: "p = (ref, npc)" by (cases p)
    let ?npcs1 = "AList.map_entry ref
                 (\<lambda>n. n\<lparr>npc_questInvolvement := pushOpt (npc_questInvolvement n)
                    \<lparr>qi_questId = qid, qi_questName = qname, qi_role = dialogue\<rparr>\<rparr>) npcs"
    have core: "npcCore ?npcs1 = npcCore npcs"
      by (rule npcCore_map_entry) simp_all
    then have res: "resolveQuestNpc vend ?npcs1 = resolveQuestNpc vend npcs"
      by (rule resolveQuestNpc_cong)
    show ?thesis
      using Cons.IH [of ?npcs1] Some p core res
      by (auto simp add: resolveQuestNpc_def Let_def split: prod.splits)
  qed
qed

lemma indexKillRequirements_entries:
  "fst (indexKillRequirements qid qname ks npcs) = map (resolveKill npcs) ks
   \<and> npcCore (snd (indexKillRequirements qid qname ks npcs)) = npcCore npcs"
proof (induction ks arbitrary: npcs)
  case Nil
  then show ?case by simp
next
  case (Cons e es)
  show ?case
  proof (cases "map_of npcs (kr_npcId e)")
    case None
    then show ?thesis
      using Cons.IH [of npcs]
      by (auto simp add: resolveKill_def split: prod.splits)
  next
    case (Some npc)
    let ?npcs1 = "AList.map_entry (kr_npcId e)
                 (\<lambda>n. n\<lparr>npc_questInvolvement := pushOpt (npc_questInvolvement n)
                    \<lparr>qi_questId = qid, qi_questName = qname, qi_role = kill\<rparr>\<rparr>) npcs"
    have core: "npcCore ?npcs1 = npcCore npcs"
      by (rule npcCore_map_entry) simp_all
    then have res: "resolveKill ?npcs1 = resolveKill npcs"
      by (rule resolveKill_cong)
    show ?thesis
      using Cons.IH [of ?npcs1] Some core res
      by (auto simp add: resolveKill_def Let_def split: prod.splits)
  qed
qed

lemma indexRewardItems_entries:
  "fst (indexRewardItems qid qname rs items) = map (resolveReward items) rs
   \<and> itemCore (snd (indexRewardItems qid qname rs items)) = itemCore items"
proof (induction rs arbitrary: items)
  case Nil
  then show ?case by simp
next
  case (Cons e es)
  show ?case
  proof (cases "map_of items (qri_itemId e)")
    case None
    then show ?thesis
      using Cons.IH [of items]
      by (auto simp add: resolveReward_def split: prod.splits)
  next
    case (Some item)
    let ?items1 = "AList.map_entry (qri_itemId e)
                 (\<lambda>it. it\<lparr>item_questRewards := pushOpt (item_questRewards it)
                    \<lparr>qr_questId = qid, qr_questName = qname, qr_amount = qri_amount e\<rparr>\<rparr>) items"
    have core: "itemCore ?items1 = itemCore items"
      by (rule itemCore_map_entry) simp_all
    then have res: "resolveReward ?items1 = resolveReward items"
      by (rule resolveReward_cong)
    show ?thesis
      using Cons.IH [of ?items1] Some core res
      by (auto simp add: resolveReward_def Let_def split: prod.splits)
  qed
qed

lemma indexItemRequirements_entries:
  "fst (indexItemRequirements qid qname rs items) = map (resolveItemReq items) rs
   \<and> itemCore (snd (indexItemRequirements qid qname rs items)) = itemCore items"
proof (induction rs arbitrary: items)
  case Nil
  then show ?case by simp
next
  case (Cons e es)
  show ?case
  proof (cases "map_of items (ir_itemId e)")
    case None
    then show ?thesis
      using Cons.IH [of items]
      by (auto simp add: resolveItemReq_def split: prod.splits)
  next
    case (Some item)
    let ?items1 = "AList.map_entry (ir_itemId e)
                 (\<lambda>it. it\<lparr>item_questRequirements := pushOpt (item_questRequirements it)
                    \<lparr>qq_questId = qid, qq_questName = qname, qq_count = ir_count e\<rparr>\<rparr>) items"
    have core: "itemCore ?items1 = itemCore items"
      by (rule itemCore_map_entry) simp_all
    then have res: "resolveItemReq ?items1 = resolveItemReq items"
      by (rule resolveItemReq_cong)
    show ?thesis
      using Cons.IH [of ?items1] Some core res
      by (auto simp add: resolveItemReq_def Let_def split: prod.splits)
  qed
qed

lemma indexQuest_entries:
  "fst (indexQuest vend quest (npcs, items)) = resolveQuest vend npcs items quest
   \<and> npcCore (fst (snd (indexQuest vend quest (npcs, items)))) = npcCore npcs
   \<and> itemCore (snd (snd (indexQuest vend quest (npcs, items)))) = itemCore items"
proof -
  obtain inv npcs1 where a: "indexInvolvedNpcs vend (quest_id quest) (quest_name quest)
               (quest_involvedNpcs quest) npcs = (inv, npcs1)"
    by (cases "indexInvolvedNpcs vend (quest_id quest) (quest_name quest) (quest_involvedNpcs quest) npcs")
  obtain rew items1 where b: "indexRewardItems (quest_id quest) (quest_name quest) (quest_rewardItems quest) items = (rew, items1)"
    by (cases "indexRewardItems (quest_id quest) (quest_name quest) (quest_rewardItems quest) items")
  obtain kills npcs2 where c: "indexKillRequirements (quest_id quest) (quest_name quest)
               (quest_killRequirements quest) npcs1 = (kills, npcs2)"
    by (cases "indexKillRequirements (quest_id quest) (quest_name quest) (quest_killRequirements quest) npcs1")
  obtain reqs items2 where d: "indexItemRequirements (quest_id quest) (quest_name quest)
               (quest_itemRequirements quest) items1 = (reqs, items2)"
    by (cases "indexItemRequirements (quest_id quest) (quest_name quest) (quest_itemRequirements quest) items1")
  have A: "inv = map (resolveQuestNpc vend npcs) (quest_involvedNpcs quest)" "npcCore npcs1 = npcCore npcs"
    using indexInvolvedNpcs_entries [of vend "quest_id quest" "quest_name quest" "quest_involvedNpcs quest" npcs] a
    by simp_all
  have B: "rew = map (resolveReward items) (quest_rewardItems quest)" "itemCore items1 = itemCore items"
    using indexRewardItems_entries [of "quest_id quest" "quest_name quest" "quest_rewardItems quest" items] b
    by simp_all
  have C: "kills = map (resolveKill npcs1) (quest_killRequirements quest)" "npcCore npcs2 = npcCore npcs1"
    using indexKillRequirements_entries [of "quest_id quest" "quest_name quest" "quest_killRequirements quest" npcs1] c
    by simp_all
  have D: "reqs = map (resolveItemReq items1) (quest_itemRequirements quest)" "itemCore items2 = itemCore items1"
    using indexItemRequirements_entries [of "quest_id quest" "quest_name quest" "quest_itemRequirements quest" items1] d
    by simp_all
  have "indexQuest vend quest (npcs, items) =
      (quest\<lparr>quest_involvedNpcs := inv, quest_rewardItems := rew,
                 quest_killRequirements := kills, quest_itemRequirements := reqs\<rparr>, npcs2, items2)"
    by (simp add: indexQuest_def a b c d)
  then show ?thesis
    using A B C D resolveKill_cong [OF A(2)] resolveItemReq_cong [OF B(2)]
    by (simp add: resolveQuest_def)
qed

lemma indexQuests_entries:
  "snd (snd (indexQuests npcs items quests vend)) =
      map (\<lambda>(qid, quest). (qid, resolveQuest vend npcs items quest)) quests
   \<and> npcCore (fst (indexQuests npcs items quests vend)) = npcCore npcs
   \<and> itemCore (fst (snd (indexQuests npcs items quests vend))) = itemCore items"
proof (induction quests arbitrary: npcs items)
  case Nil
  then show ?case by simp
next
  case (Cons a quests)
  obtain qid quest where a: "a = (qid, quest)" by (cases a)
  obtain quest' npcs1 items1 where q: "indexQuest vend quest (npcs, items) = (quest', npcs1, items1)"
    by (cases "indexQuest vend quest (npcs, items)") auto
  have Q: "quest' = resolveQuest vend npcs items quest" "npcCore npcs1 = npcCore npcs"
    "itemCore items1 = itemCore items"
    using indexQuest_entries [of vend quest npcs items] q by simp_all
  have R: "resolveQuest vend npcs1 items1 = resolveQuest vend npcs items"
    by (rule ext)
       (simp add: resolveQuest_def resolveQuestNpc_cong [OF Q(2)] resolveKill_cong [OF Q(2)]
          resolveReward_cong [OF Q(3)] resolveItemReq_cong [OF Q(3)])
  obtain npcs2 items2 rest' where r: "indexQuests npcs1 items1 quests vend = (npcs2, items2, rest')"
    by (cases "indexQuests npcs1 items1 quests vend") auto
  show ?case
    using Cons.IH [of npcs1 items1] Q R
    by (simp add: a q r)
qed

section \<open>Dangling references\<close>

lemma map_of_None_keys: "map_of xs k = None \<longleftrightarrow> k \<notin> set (map fst xs)"
  by (simp add: map_of_eq_None_iff)

lemma same_keys_None: "map fst a = map fst b \<Longrightarrow> map_of a k = None \<longleftrightarrow> map_of b k = None"
  by (simp add: map_of_None_keys)

lemma indexDropsInner_known:
  "indexDropsInner k nm ds (items, npcs) =
   indexDropsInner k nm (filter (\<lambda>d. map_of items (drop_itemId d) \<noteq> None) ds) (items, npcs)"
proof (induction ds arbitrary: items npcs)
  case Nil
  then show ?case by simp
next
  case (Cons d ds)
  show ?case
  proof (cases "map_of items (drop_itemId d)")
    case None
    then show ?thesis using Cons.IH [of items npcs] by simp
  next
    case (Some item)
    obtain items' npcs' where st: "addEdge k nm d item (items, npcs) = (items', npcs')"
      by (cases "addEdge k nm d item (items, npcs)")
    have "map fst items' = map fst items"
      using addEdge_keys(1) [of k nm d item "(items, npcs)"] st by simp
    then have same: "filter (\<lambda>d. map_of items' (drop_itemId d) \<noteq> None) ds =
        filter (\<lambda>d. map_of items (drop_itemId d) \<noteq> None) ds"
      by (simp add: map_of_None_keys)
    show ?thesis
      using Cons.IH [of items' npcs'] Some st same
      by (simp del: indexDropsInner.simps add: indexDropsInner_step)
  qed
qed

lemma indexDrops_known:
  "indexDrops items npcs drops = indexDrops items npcs (knownDrops items npcs drops)"
proof (induction drops arbitrary: items npcs)
  case Nil
  then show ?case by (simp add: knownDrops_def)
next
  case (Cons kd rest)
  obtain k ds where kd: "kd = (k, ds)" by (cases kd)
  show ?case
  proof (cases "map_of npcs k")
    case None
    then show ?thesis using Cons.IH [of items npcs] kd by (simp add: knownDrops_def)
  next
    case (Some npc)
    let ?npcs0 = "AList.map_entry k (\<lambda>n. n\<lparr>npc_drops := Some []\<rparr>) npcs"
    let ?ds' = "filter (\<lambda>d. map_of items (drop_itemId d) \<noteq> None) ds"
    obtain items' npcs' where st: "indexDropsInner k (npc_name npc) ds (items, ?npcs0) = (items', npcs')"
      by (cases "indexDropsInner k (npc_name npc) ds (items, ?npcs0)")
    then have st': "indexDropsInner k (npc_name npc) ?ds' (items, ?npcs0) = (items', npcs')"
      using indexDropsInner_known [of k "npc_name npc" ds items ?npcs0] by simp
    have keys: "map fst items' = map fst items" "map fst npcs' = map fst npcs"
      using indexDropsInner_keys [of k "npc_name npc" ds "(items, ?npcs0)"] st
      by (simp_all add: map_fst_map_entry)
    have "knownDrops items' npcs' rest = knownDrops items npcs rest"
      using keys by (simp add: knownDrops_def map_of_None_keys)
    then show ?thesis
      using Cons.IH [of items' npcs'] Some kd st st'
      by (simp add: knownDrops_def Let_def)
  qed
qed

lemma indexPets_keys: "map fst (indexPets items npcs pets) = map fst npcs"
proof (induction pets arbitrary: npcs)
  case Nil
  then show ?case by simp
next
  case (Cons a pets)
  obtain k p where a: "a = (k, p)" by (cases a)
  show ?case
    using Cons.IH
    by (auto simp: a map_fst_map_entry split: option.splits)
qed

lemma indexPets_known:
  "indexPets items npcs pets = indexPets items npcs (knownPets items npcs pets)"
proof (induction pets arbitrary: npcs)
  case Nil
  then show ?case by (simp add: knownPets_def)
next
  case (Cons a pets)
  obtain k p where a: "a = (k, p)" by (cases a)
  have same: "knownPets items (AList.map_entry k f npcs) pets = knownPets items npcs pets" for f
    by (simp add: knownPets_def map_of_None_keys map_fst_map_entry)
  show ?case
    using Cons.IH [of npcs] Cons.IH [of "AList.map_entry k f npcs" for f] same
    by (auto simp: a knownPets_def split: option.splits)
qed

lemma filter_known_same_keys:
  "map fst a = map fst b \<Longrightarrow>
   filter (\<lambda>x. map_of a (f x) \<noteq> None) xs = filter (\<lambda>x. map_of b (f x) \<noteq> None) xs"
  by (simp add: map_of_None_keys)

lemma indexTrades_keys:
  "map fst (fst (indexTrades sid sn npc ts (items, npcs))) = map fst items
   \<and> map fst (snd (indexTrades sid sn npc ts (items, npcs))) = map fst npcs"
proof (induction ts arbitrary: items npcs)
  case Nil
  then show ?case by simp
next
  case (Cons t ts)
  show ?case
  proof (cases "map_of items (trade_itemId t)")
    case None
    then show ?thesis using Cons.IH [of items npcs] by simp
  next
    case (Some item)
    obtain items' npcs' where step:
      "indexTrades sid sn npc (t # ts) (items, npcs) = indexTrades sid sn npc ts (items', npcs')"
      "map fst items' = map fst items" "map fst npcs' = map fst npcs"
      using Some by (cases npc) (simp_all add: Let_def map_fst_map_entry)
    show ?thesis
      using Cons.IH [of items' npcs'] step by simp
  qed
qed

lemma indexTrades_known:
  "indexTrades sid sn npc ts (items, npcs) =
   indexTrades sid sn npc (filter (\<lambda>t. map_of items (trade_itemId t) \<noteq> None) ts) (items, npcs)"
proof (induction ts arbitrary: items npcs)
  case Nil
  then show ?case by simp
next
  case (Cons t ts)
  show ?case
  proof (cases "map_of items (trade_itemId t)")
    case None
    then show ?thesis using Cons.IH [of items npcs] by simp
  next
    case (Some item)
    obtain items' npcs' where step:
      "indexTrades sid sn npc (t # ts) (items, npcs) = indexTrades sid sn npc ts (items', npcs')"
      "indexTrades sid sn npc (t # filter (\<lambda>t. map_of items (trade_itemId t) \<noteq> None) ts) (items, npcs) =
       indexTrades sid sn npc (filter (\<lambda>t. map_of items (trade_itemId t) \<noteq> None) ts) (items', npcs')"
      "map fst items' = map fst items"
      using Some by (cases npc) (simp_all add: Let_def map_fst_map_entry)
    have same: "filter (\<lambda>t. map_of items' (trade_itemId t) \<noteq> None) ts =
        filter (\<lambda>t. map_of items (trade_itemId t) \<noteq> None) ts"
      using step(3) by (rule filter_known_same_keys)
    have "indexTrades sid sn npc (t # ts) (items, npcs) =
        indexTrades sid sn npc (filter (\<lambda>t. map_of items (trade_itemId t) \<noteq> None) ts) (items', npcs')"
      unfolding step(1) using Cons.IH [of items' npcs'] same by simp
    also have "\<dots> = indexTrades sid sn npc
        (filter (\<lambda>t. map_of items (trade_itemId t) \<noteq> None) (t # ts)) (items, npcs)"
      using Some step(2) by simp
    finally show ?thesis .
  qed
qed

lemma indexCrafts_keys:
  "map fst (fst (indexCrafts sid sn npc cs (items, npcs))) = map fst items
   \<and> map fst (snd (indexCrafts sid sn npc cs (items, npcs))) = map fst npcs"
proof (induction cs arbitrary: items npcs)
  case Nil
  then show ?case by simp
next
  case (Cons c cs)
  show ?case
  proof (cases "map_of items (craft_resultItemId c)")
    case None
    then show ?thesis using Cons.IH [of items npcs] by simp
  next
    case (Some item)
    obtain items' npcs' where step:
      "indexCrafts sid sn npc (c # cs) (items, npcs) = indexCrafts sid sn npc cs (items', npcs')"
      "map fst items' = map fst items" "map fst npcs' = map fst npcs"
      using Some by (cases npc) (simp_all add: Let_def map_fst_map_entry)
    show ?thesis
      using Cons.IH [of items' npcs'] step by simp
  qed
qed

lemma indexCrafts_known:
  "indexCrafts sid sn npc cs (items, npcs) =
   indexCrafts sid sn npc (filter (\<lambda>c. map_of items (craft_resultItemId c) \<noteq> None) cs) (items, npcs)"
proof (induction cs arbitrary: items npcs)
  case Nil
  then show ?case by simp
next
  case (Cons c cs)
  show ?case
  proof (cases "map_of items (craft_resultItemId c)")
    case None
    then show ?thesis using Cons.IH [of items npcs] by simp
  next
    case (Some item)
    obtain items' npcs' where step:
      "indexCrafts sid sn npc (c # cs) (items, npcs) = indexCrafts sid sn npc cs (items', npcs')"
      "indexCrafts sid sn npc (c # filter (\<lambda>c. map_of items (craft_resultItemId c) \<noteq> None) cs) (items, npcs) =
       indexCrafts sid sn npc (filter (\<lambda>c. map_of items (craft_resultItemId c) \<noteq> None) cs) (items', npcs')"
      "map fst items' = map fst items"
      using Some by (cases npc) (simp_all add: Let_def map_fst_map_entry)
    have same: "filter (\<lambda>c. map_of items' (craft_resultItemId c) \<noteq> None) cs =
        filter (\<lambda>c. map_of items (craft_resultItemId c) \<noteq> None) cs"
      using step(3) by (rule filter_known_same_keys)
    have "indexCrafts sid sn npc (c # cs) (items, npcs) =
        indexCrafts sid sn npc (filter (\<lambda>c. map_of items (craft_resultItemId c) \<noteq> None) cs) (items', npcs')"
      unfolding step(1) using Cons.IH [of items' npcs'] same by simp
    also have "\<dots> = indexCrafts sid sn npc
        (filter (\<lambda>c. map_of items (craft_resultItemId c) \<noteq> None) (c # cs)) (items, npcs)"
      using Some step(2) by simp
    finally show ?thesis .
  qed
qed

lemma knownShops_same_keys:
  "map fst a = map fst b \<Longrightarrow> knownShops a shops = knownShops b shops"
  by (simp add: knownShops_def map_of_None_keys)

lemma indexShops_known:
  "indexShops items npcs shops = indexShops items npcs (knownShops items shops)"
proof (induction shops arbitrary: items npcs)
  case Nil
  then show ?case by (simp add: knownShops_def)
next
  case (Cons a shops)
  obtain sid shop where a: "a = (sid, shop)" by (cases a)
  let ?npc = "map_of npcs sid"
  let ?ts = "filter (\<lambda>t. map_of items (trade_itemId t) \<noteq> None) (shop_trades shop)"
  obtain items1 npcs1 where t: "indexTrades sid (shop_name shop) ?npc (shop_trades shop) (items, npcs) = (items1, npcs1)"
    by (cases "indexTrades sid (shop_name shop) ?npc (shop_trades shop) (items, npcs)")
  have t': "indexTrades sid (shop_name shop) ?npc ?ts (items, npcs) = (items1, npcs1)"
    using indexTrades_known [of sid "shop_name shop" ?npc "shop_trades shop" items npcs] t by simp
  have k1: "map fst items1 = map fst items"
    using indexTrades_keys [of sid "shop_name shop" ?npc "shop_trades shop" items npcs] t by simp
  let ?cs = "filter (\<lambda>c. map_of items (craft_resultItemId c) \<noteq> None) (shop_crafts shop)"
  have cs: "?cs = filter (\<lambda>c. map_of items1 (craft_resultItemId c) \<noteq> None) (shop_crafts shop)"
    using k1 [symmetric] by (rule filter_known_same_keys)
  obtain items2 npcs2 where c: "indexCrafts sid (shop_name shop) ?npc (shop_crafts shop) (items1, npcs1) = (items2, npcs2)"
    by (cases "indexCrafts sid (shop_name shop) ?npc (shop_crafts shop) (items1, npcs1)")
  have c': "indexCrafts sid (shop_name shop) ?npc ?cs (items1, npcs1) = (items2, npcs2)"
    using indexCrafts_known [of sid "shop_name shop" ?npc "shop_crafts shop" items1 npcs1] c cs by simp
  have k2: "map fst items2 = map fst items1"
    using indexCrafts_keys [of sid "shop_name shop" ?npc "shop_crafts shop" items1 npcs1] c by simp
  have same: "knownShops items2 shops = knownShops items shops"
    using k1 k2 by (intro knownShops_same_keys) simp
  have "indexShops items npcs (a # shops) = indexShops items2 npcs2 shops"
    using a t c by simp
  also have "\<dots> = indexShops items2 npcs2 (knownShops items shops)"
    using Cons.IH [of items2 npcs2] same by simp
  also have "\<dots> = indexShops items npcs (knownShops items (a # shops))"
    using a t' c' by (simp add: knownShops_def)
  finally show ?case .
qed

lemma vendorGet_None_core:
  assumes "npcCore a = npcCore b"
  shows "(vendorGet vend a v = None) = (vendorGet vend b v = None)"
proof (cases "map_of vend v")
  case None
  then show ?thesis by (simp add: vendorGet_def)
next
  case (Some ref)
  have "(map_of a ref = None) = (map_of b ref = None)"
    using assms by (rule npcCore_None)
  with Some show ?thesis
    by (auto simp: vendorGet_def split: option.splits)
qed

lemma knownQuest_cong:
  assumes "npcCore a = npcCore b" "itemCore c = itemCore d"
  shows "knownQuest vend a c = knownQuest vend b d"
proof (rule ext)
  fix q
  show "knownQuest vend a c q = knownQuest vend b d q"
    using vendorGet_None_core [OF assms(1), of vend] npcCore_None [OF assms(1)]
      itemCore_None [OF assms(2)]
    by (simp add: knownQuest_def)
qed

lemma indexInvolvedNpcs_known:
  "snd (indexInvolvedNpcs vend qid qname es npcs) =
   snd (indexInvolvedNpcs vend qid qname
          (filter (\<lambda>e. vendorGet vend npcs (qn_npcId e) \<noteq> None) es) npcs)"
proof (induction es arbitrary: npcs)
  case Nil
  then show ?case by simp
next
  case (Cons e es)
  show ?case
  proof (cases "vendorGet vend npcs (qn_npcId e)")
    case None
    then show ?thesis using Cons.IH [of npcs] by (simp add: case_prod_unfold)
  next
    case (Some p)
    obtain ref npc where p: "p = (ref, npc)" by (cases p)
    let ?npcs1 = "AList.map_entry ref
                 (\<lambda>n. n\<lparr>npc_questInvolvement := pushOpt (npc_questInvolvement n)
                    \<lparr>qi_questId = qid, qi_questName = qname, qi_role = dialogue\<rparr>\<rparr>) npcs"
    have core: "npcCore ?npcs1 = npcCore npcs"
      by (rule npcCore_map_entry) simp_all
    have same: "filter (\<lambda>e. vendorGet vend ?npcs1 (qn_npcId e) \<noteq> None) es =
        filter (\<lambda>e. vendorGet vend npcs (qn_npcId e) \<noteq> None) es"
      using vendorGet_None_core [OF core, of vend] by simp
    have "snd (indexInvolvedNpcs vend qid qname (e # es) npcs) =
        snd (indexInvolvedNpcs vend qid qname es ?npcs1)"
      using Some p by (simp add: Let_def case_prod_unfold)
    also have "\<dots> = snd (indexInvolvedNpcs vend qid qname
          (filter (\<lambda>e. vendorGet vend npcs (qn_npcId e) \<noteq> None) es) ?npcs1)"
      using Cons.IH [of ?npcs1] same by simp
    also have "\<dots> = snd (indexInvolvedNpcs vend qid qname
          (filter (\<lambda>e. vendorGet vend npcs (qn_npcId e) \<noteq> None) (e # es)) npcs)"
      using Some p by (simp add: Let_def case_prod_unfold)
    finally show ?thesis .
  qed
qed

lemma indexKillRequirements_known:
  "snd (indexKillRequirements qid qname ks npcs) =
   snd (indexKillRequirements qid qname (filter (\<lambda>k. map_of npcs (kr_npcId k) \<noteq> None) ks) npcs)"
proof (induction ks arbitrary: npcs)
  case Nil
  then show ?case by simp
next
  case (Cons e es)
  show ?case
  proof (cases "map_of npcs (kr_npcId e)")
    case None
    then show ?thesis using Cons.IH [of npcs] by (simp add: case_prod_unfold)
  next
    case (Some npc)
    let ?npcs1 = "AList.map_entry (kr_npcId e)
                 (\<lambda>n. n\<lparr>npc_questInvolvement := pushOpt (npc_questInvolvement n)
                    \<lparr>qi_questId = qid, qi_questName = qname, qi_role = kill\<rparr>\<rparr>) npcs"
    have same: "filter (\<lambda>k. map_of ?npcs1 (kr_npcId k) \<noteq> None) es =
        filter (\<lambda>k. map_of npcs (kr_npcId k) \<noteq> None) es"
      by (rule filter_known_same_keys) (simp add: map_fst_map_entry)
    have "snd (indexKillRequirements qid qname (e # es) npcs) =
        snd (indexKillRequirements qid qname es ?npcs1)"
      using Some by (simp add: Let_def case_prod_unfold)
    also have "\<dots> = snd (indexKillRequirements qid qname
          (filter (\<lambda>k. map_of npcs (kr_npcId k) \<noteq> None) es) ?npcs1)"
      using Cons.IH [of ?npcs1] same by simp
    also have "\<dots> = snd (indexKillRequirements qid qname
          (filter (\<lambda>k. map_of npcs (kr_npcId k) \<noteq> None) (e # es)) npcs)"
      using Some by (simp add: Let_def case_prod_unfold)
    finally show ?thesis .
  qed
qed

lemma indexRewardItems_known:
  "snd (indexRewardItems qid qname rs items) =
   snd (indexRewardItems qid qname (filter (\<lambda>r. map_of items (qri_itemId r) \<noteq> None) rs) items)"
proof (induction rs arbitrary: items)
  case Nil
  then show ?case by simp
next
  case (Cons e es)
  show ?case
  proof (cases "map_of items (qri_itemId e)")
    case None
    then show ?thesis using Cons.IH [of items] by (simp add: case_prod_unfold)
  next
    case (Some item)
    let ?items1 = "AList.map_entry (qri_itemId e)
                 (\<lambda>it. it\<lparr>item_questRewards := pushOpt (item_questRewards it)
                    \<lparr>qr_questId = qid, qr_questName = qname, qr_amount = qri_amount e\<rparr>\<rparr>) items"
    have same: "filter (\<lambda>r. map_of ?items1 (qri_itemId r) \<noteq> None) es =
        filter (\<lambda>r. map_of items (qri_itemId r) \<noteq> None) es"
      by (rule filter_known_same_keys) (simp add: map_fst_map_entry)
    have "snd (indexRewardItems qid qname (e # es) items) =
        snd (indexRewardItems qid qname es ?items1)"
      using Some by (simp add: Let_def case_prod_unfold)
    also have "\<dots> = snd (indexRewardItems qid qname
          (filter (\<lambda>r. map_of items (qri_itemId r) \<noteq> None) es) ?items1)"
      using Cons.IH [of ?items1] same by simp
    also have "\<dots> = snd (indexRewardItems qid qname
          (filter (\<lambda>r. map_of items (qri_itemId r) \<noteq> None) (e # es)) items)"
      using Some by (simp add: Let_def case_prod_unfold)
    finally show ?thesis .
  qed
qed

lemma indexItemRequirements_known:
  "snd (indexItemRequirements qid qname rs items) =
   snd (indexItemRequirements qid qname (filter (\<lambda>r. map_of items (ir_itemId r) \<noteq> None) rs) items)"
proof (induction rs arbitrary: items)
  case Nil
  then show ?case by simp
next
  case (Cons e es)
  show ?case
  proof (cases "map_of items (ir_itemId e)")
    case None
    then show ?thesis using Cons.IH [of items] by (simp add: case_prod_unfold)
  next
    case (Some item)
    let ?items1 = "AList.map_entry (ir_itemId e)
                 (\<lambda>it. it\<lparr>item_questRequirements := pushOpt (item_questRequirements it)
                    \<lparr>qq_questId = qid, qq_questName = qname, qq_count = ir_count e\<rparr>\<rparr>) items"
    have same: "filter (\<lambda>r. map_of ?items1 (ir_itemId r) \<noteq> None) es =
        filter (\<lambda>r. map_of items (ir_itemId r) \<noteq> None) es"
      by (rule filter_known_same_keys) (simp add: map_fst_map_entry)
    have "snd (indexItemRequirements qid qname (e # es) items) =
        snd (indexItemRequirements qid qname es ?items1)"
      using Some by (simp add: Let_def case_prod_unfold)
    also have "\<dots> = snd (indexItemRequirements qid qname
          (filter (\<lambda>r. map_of items (ir_itemId r) \<noteq> None) es) ?items1)"
      using Cons.IH [of ?items1] same by simp
    also have "\<dots> = snd (indexItemRequirements qid qname
          (filter (\<lambda>r. map_of items (ir_itemId r) \<noteq> None) (e # es)) items)"
      using Some by (simp add: Let_def case_prod_unfold)
    finally show ?thesis .
  qed
qed

lemma indexQuest_tables:
  "snd (indexQuest vend quest (npcs, items)) =
     (snd (indexKillRequirements (quest_id quest) (quest_name quest) (quest_killRequirements quest)
        (snd (indexInvolvedNpcs vend (quest_id quest) (quest_name quest)
           (quest_involvedNpcs quest) npcs))),
      snd (indexItemRequirements (quest_id quest) (quest_name quest) (quest_itemRequirements quest)
        (snd (indexRewardItems (quest_id quest) (quest_name quest)
           (quest_rewardItems quest) items))))"
  by (simp add: indexQuest_def case_prod_unfold Let_def)

lemma indexQuest_known:
  "snd (indexQuest vend quest (npcs, items)) =
   snd (indexQuest vend (knownQuest vend npcs items quest) (npcs, items))"
proof -
  let ?qid = "quest_id quest" and ?qn = "quest_name quest"
  let ?npcs1 = "snd (indexInvolvedNpcs vend ?qid ?qn (quest_involvedNpcs quest) npcs)"
  let ?items1 = "snd (indexRewardItems ?qid ?qn (quest_rewardItems quest) items)"
  have c1: "npcCore ?npcs1 = npcCore npcs"
    using indexInvolvedNpcs_entries [of vend ?qid ?qn "quest_involvedNpcs quest" npcs] by simp
  have c2: "itemCore ?items1 = itemCore items"
    using indexRewardItems_entries [of ?qid ?qn "quest_rewardItems quest" items] by simp
  have k: "filter (\<lambda>k. map_of ?npcs1 (kr_npcId k) \<noteq> None) (quest_killRequirements quest) =
      filter (\<lambda>k. map_of npcs (kr_npcId k) \<noteq> None) (quest_killRequirements quest)"
    using npcCore_None [OF c1] by simp
  have r: "filter (\<lambda>r. map_of ?items1 (ir_itemId r) \<noteq> None) (quest_itemRequirements quest) =
      filter (\<lambda>r. map_of items (ir_itemId r) \<noteq> None) (quest_itemRequirements quest)"
    using itemCore_None [OF c2] by simp
  show ?thesis
    unfolding indexQuest_tables
    using indexInvolvedNpcs_known [of vend ?qid ?qn "quest_involvedNpcs quest" npcs]
      indexRewardItems_known [of ?qid ?qn "quest_rewardItems quest" items]
      indexKillRequirements_known [of ?qid ?qn "quest_killRequirements quest" ?npcs1]
      indexItemRequirements_known [of ?qid ?qn "quest_itemRequirements quest" ?items1]
      k r
    by (simp add: knownQuest_def)
qed

lemma indexQuests_tables_Cons:
  "(fst (indexQuests npcs items ((qid, quest) # rest) vend),
    fst (snd (indexQuests npcs items ((qid, quest) # rest) vend))) =
   (fst (indexQuests (fst (snd (indexQuest vend quest (npcs, items))))
           (snd (snd (indexQuest vend quest (npcs, items)))) rest vend),
    fst (snd (indexQuests (fst (snd (indexQuest vend quest (npcs, items))))
           (snd (snd (indexQuest vend quest (npcs, items)))) rest vend)))"
  by (simp add: case_prod_unfold Let_def)

lemma indexQuests_known:
  "fst (indexQuests npcs items quests vend) =
     fst (indexQuests npcs items (knownQuests vend npcs items quests) vend)
   \<and> fst (snd (indexQuests npcs items quests vend)) =
     fst (snd (indexQuests npcs items (knownQuests vend npcs items quests) vend))"
proof (induction quests arbitrary: npcs items)
  case Nil
  then show ?case by (simp add: knownQuests_def)
next
  case (Cons a quests)
  obtain qid quest where a: "a = (qid, quest)" by (cases a)
  let ?st = "snd (indexQuest vend quest (npcs, items))"
  have cores: "npcCore (fst ?st) = npcCore npcs" "itemCore (snd ?st) = itemCore items"
    using indexQuest_entries [of vend quest npcs items] by simp_all
  have same: "knownQuests vend (fst ?st) (snd ?st) quests = knownQuests vend npcs items quests"
    by (simp add: knownQuests_def knownQuest_cong [OF cores])
  have st: "snd (indexQuest vend (knownQuest vend npcs items quest) (npcs, items)) = ?st"
    using indexQuest_known [of vend quest npcs items] by simp
  have L: "(fst (indexQuests npcs items (a # quests) vend),
            fst (snd (indexQuests npcs items (a # quests) vend))) =
      (fst (indexQuests (fst ?st) (snd ?st) quests vend),
       fst (snd (indexQuests (fst ?st) (snd ?st) quests vend)))"
    unfolding a by (rule indexQuests_tables_Cons)
  have R: "(fst (indexQuests npcs items (knownQuests vend npcs items (a # quests)) vend),
            fst (snd (indexQuests npcs items (knownQuests vend npcs items (a # quests)) vend))) =
      (fst (indexQuests (fst ?st) (snd ?st) (knownQuests vend npcs items quests) vend),
       fst (snd (indexQuests (fst ?st) (snd ?st) (knownQuests vend npcs items quests) vend)))"
    using indexQuests_tables_Cons [of npcs items qid "knownQuest vend npcs items quest"
        "knownQuests vend npcs items quests" vend] st
    by (simp add: knownQuests_def a)
  show ?case
    using L R Cons.IH [of "fst ?st" "snd ?st"] same by simp
qed

text \<open>
  Claim C5. No pass has an error result: every lookup that misses is a skipped step. A
  reference to an id that is not in its table leaves no trace in the item and NPC tables:
  the drops, shops, pets and quests passes give the same tables as on the input with the
  dangling references removed, in which every remaining reference has both endpoints; no
  key is added to a table. On the quest side the entries are those of \<open>resolveQuest\<close>: an
  entry whose reference is not found stays exactly as it was parsed, with no name and no id
  filled in.
\<close>

theorem dangling_references_create_no_edge:
  "indexDrops items npcs drops = indexDrops items npcs (knownDrops items npcs drops)
   \<and> map fst (fst (indexDrops items npcs drops)) = map fst items
   \<and> map fst (snd (indexDrops items npcs drops)) = map fst npcs
   \<and> indexShops items npcs shops = indexShops items npcs (knownShops items shops)
   \<and> indexPets items npcs pets = indexPets items npcs (knownPets items npcs pets)
   \<and> map fst (indexPets items npcs pets) = map fst npcs
   \<and> fst (indexQuests npcs items quests npcsByVendorId) =
       fst (indexQuests npcs items (knownQuests npcsByVendorId npcs items quests) npcsByVendorId)
   \<and> fst (snd (indexQuests npcs items quests npcsByVendorId)) =
       fst (snd (indexQuests npcs items (knownQuests npcsByVendorId npcs items quests)
         npcsByVendorId))
   \<and> snd (snd (indexQuests npcs items quests npcsByVendorId)) =
       map (\<lambda>(qid, quest). (qid, resolveQuest npcsByVendorId npcs items quest)) quests"
  using indexDrops_known [of items npcs drops] indexDrops_keys [of items npcs drops]
    indexShops_known [of items npcs shops] indexPets_known [of items npcs pets]
    indexPets_keys [of items npcs pets]
    indexQuests_known [of npcs items quests npcsByVendorId]
    indexQuests_entries [of npcs items quests npcsByVendorId]
  by blast

section \<open>The quest pass: involvement entries on the NPCs\<close>

lemma questInvolvementOf_push:
  "set (questInvolvementOf npcs k) \<subseteq>
     set (questInvolvementOf (AList.map_entry r
        (\<lambda>n. n\<lparr>npc_questInvolvement := pushOpt (npc_questInvolvement n) qi\<rparr>) npcs) k)"
  by (auto simp: questInvolvementOf_def map_of_map_entry optList_pushOpt split: option.splits)

lemma questInvolvementOf_pushed:
  "map_of npcs r \<noteq> None \<Longrightarrow>
   qi \<in> set (questInvolvementOf (AList.map_entry r
        (\<lambda>n. n\<lparr>npc_questInvolvement := pushOpt (npc_questInvolvement n) qi\<rparr>) npcs) r)"
  by (auto simp: questInvolvementOf_def map_of_map_entry optList_pushOpt split: option.splits)

lemma indexInvolvedNpcs_mono:
  "set (questInvolvementOf npcs k) \<subseteq>
   set (questInvolvementOf (snd (indexInvolvedNpcs vend qid qname es npcs)) k)"
proof (induction es arbitrary: npcs)
  case Nil
  then show ?case by simp
next
  case (Cons e es)
  show ?case
  proof (cases "vendorGet vend npcs (qn_npcId e)")
    case None
    then show ?thesis using Cons.IH [of npcs] by (simp add: Let_def case_prod_unfold)
  next
    case (Some p)
    obtain ref npc where p: "p = (ref, npc)" by (cases p)
    let ?npcs1 = "AList.map_entry ref
                 (\<lambda>n. n\<lparr>npc_questInvolvement := pushOpt (npc_questInvolvement n)
                    \<lparr>qi_questId = qid, qi_questName = qname, qi_role = dialogue\<rparr>\<rparr>) npcs"
    have "set (questInvolvementOf npcs k) \<subseteq> set (questInvolvementOf ?npcs1 k)"
      by (rule questInvolvementOf_push)
    also have "\<dots> \<subseteq> set (questInvolvementOf (snd (indexInvolvedNpcs vend qid qname es ?npcs1)) k)"
      by (rule Cons.IH)
    finally show ?thesis
      using Some p by (simp add: Let_def case_prod_unfold)
  qed
qed

lemma indexKillRequirements_mono:
  "set (questInvolvementOf npcs k) \<subseteq>
   set (questInvolvementOf (snd (indexKillRequirements qid qname ks npcs)) k)"
proof (induction ks arbitrary: npcs)
  case Nil
  then show ?case by simp
next
  case (Cons e es)
  show ?case
  proof (cases "map_of npcs (kr_npcId e)")
    case None
    then show ?thesis using Cons.IH [of npcs] by (simp add: Let_def case_prod_unfold)
  next
    case (Some npc)
    let ?npcs1 = "AList.map_entry (kr_npcId e)
                 (\<lambda>n. n\<lparr>npc_questInvolvement := pushOpt (npc_questInvolvement n)
                    \<lparr>qi_questId = qid, qi_questName = qname, qi_role = kill\<rparr>\<rparr>) npcs"
    have "set (questInvolvementOf npcs k) \<subseteq> set (questInvolvementOf ?npcs1 k)"
      by (rule questInvolvementOf_push)
    also have "\<dots> \<subseteq> set (questInvolvementOf (snd (indexKillRequirements qid qname es ?npcs1)) k)"
      by (rule Cons.IH)
    finally show ?thesis
      using Some by (simp add: Let_def case_prod_unfold)
  qed
qed

lemma vendorGet_ref_core:
  assumes "npcCore a = npcCore b" "vendorGet vend a v = Some (ref, n)"
  shows "\<exists>n'. vendorGet vend b v = Some (ref, n')"
proof -
  from assms(2) have r: "map_of vend v = Some ref" "map_of a ref = Some n"
    by (auto simp: vendorGet_def split: option.splits)
  have "(map_of a ref = None) = (map_of b ref = None)"
    using assms(1) by (rule npcCore_None)
  with r obtain n' where "map_of b ref = Some n'" by auto
  with r show ?thesis by (simp add: vendorGet_def)
qed

lemma indexInvolvedNpcs_pushed:
  assumes "e \<in> set es" "vendorGet vend npcs (qn_npcId e) = Some (ref, n)"
  shows "\<lparr>qi_questId = qid, qi_questName = qname, qi_role = dialogue\<rparr>
     \<in> set (questInvolvementOf (snd (indexInvolvedNpcs vend qid qname es npcs)) ref)"
  using assms
proof (induction es arbitrary: npcs n)
  case Nil
  then show ?case by simp
next
  case (Cons x es)
  let ?qi = "\<lparr>qi_questId = qid, qi_questName = qname, qi_role = dialogue\<rparr>"
  show ?case
  proof (cases "vendorGet vend npcs (qn_npcId x)")
    case None
    with Cons.prems have "e \<in> set es" by auto
    from Cons.IH [OF this Cons.prems(2)] show ?thesis
      using None by (simp add: Let_def case_prod_unfold)
  next
    case (Some p)
    obtain r npc where p: "p = (r, npc)" by (cases p)
    let ?npcs1 = "AList.map_entry r
                 (\<lambda>n. n\<lparr>npc_questInvolvement := pushOpt (npc_questInvolvement n) ?qi\<rparr>) npcs"
    have step: "snd (indexInvolvedNpcs vend qid qname (x # es) npcs) =
        snd (indexInvolvedNpcs vend qid qname es ?npcs1)"
      using Some p by (simp add: Let_def case_prod_unfold)
    show ?thesis
    proof (cases "e = x")
      case True
      with Cons.prems(2) Some p have "r = ref" and "map_of npcs ref \<noteq> None"
        by (auto simp: vendorGet_def split: option.splits)
      then have "?qi \<in> set (questInvolvementOf ?npcs1 ref)"
        using questInvolvementOf_pushed [of npcs ref ?qi] by simp
      then show ?thesis
        unfolding step using indexInvolvedNpcs_mono [of ?npcs1 ref vend qid qname es] by blast
    next
      case False
      with Cons.prems have e: "e \<in> set es" by auto
      have core: "npcCore npcs = npcCore ?npcs1"
        by (rule npcCore_map_entry [symmetric]) simp_all
      from vendorGet_ref_core [OF core Cons.prems(2)]
      obtain n' where "vendorGet vend ?npcs1 (qn_npcId e) = Some (ref, n')" by blast
      from Cons.IH [OF e this] show ?thesis unfolding step .
    qed
  qed
qed

lemma indexKillRequirements_pushed:
  assumes "e \<in> set ks" "map_of npcs (kr_npcId e) \<noteq> None"
  shows "\<lparr>qi_questId = qid, qi_questName = qname, qi_role = kill\<rparr>
     \<in> set (questInvolvementOf (snd (indexKillRequirements qid qname ks npcs)) (kr_npcId e))"
  using assms
proof (induction ks arbitrary: npcs)
  case Nil
  then show ?case by simp
next
  case (Cons x es)
  let ?qi = "\<lparr>qi_questId = qid, qi_questName = qname, qi_role = kill\<rparr>"
  show ?case
  proof (cases "map_of npcs (kr_npcId x)")
    case None
    with Cons.prems have "e \<in> set es" by auto
    from Cons.IH [OF this Cons.prems(2)] show ?thesis
      using None by (simp add: Let_def case_prod_unfold)
  next
    case (Some npc)
    let ?npcs1 = "AList.map_entry (kr_npcId x)
                 (\<lambda>n. n\<lparr>npc_questInvolvement := pushOpt (npc_questInvolvement n) ?qi\<rparr>) npcs"
    have step: "snd (indexKillRequirements qid qname (x # es) npcs) =
        snd (indexKillRequirements qid qname es ?npcs1)"
      using Some by (simp add: Let_def case_prod_unfold)
    show ?thesis
    proof (cases "e = x")
      case True
      have "?qi \<in> set (questInvolvementOf ?npcs1 (kr_npcId x))"
        using questInvolvementOf_pushed [of npcs "kr_npcId x" ?qi] Some by simp
      then show ?thesis
        unfolding step True
        using indexKillRequirements_mono [of ?npcs1 "kr_npcId x" qid qname es] by blast
    next
      case False
      with Cons.prems have e: "e \<in> set es" by auto
      have "map_of ?npcs1 (kr_npcId e) \<noteq> None"
        using Cons.prems(2) by (simp add: map_of_None_keys map_fst_map_entry)
      from Cons.IH [OF e this] show ?thesis unfolding step .
    qed
  qed
qed

lemma indexQuest_npcs:
  "fst (snd (indexQuest vend quest (npcs, items))) =
     snd (indexKillRequirements (quest_id quest) (quest_name quest) (quest_killRequirements quest)
        (snd (indexInvolvedNpcs vend (quest_id quest) (quest_name quest)
           (quest_involvedNpcs quest) npcs)))"
  using indexQuest_tables [of vend quest npcs items] by simp

lemma indexQuest_mono:
  "set (questInvolvementOf npcs k) \<subseteq>
   set (questInvolvementOf (fst (snd (indexQuest vend quest (npcs, items)))) k)"
proof -
  let ?npcs1 = "snd (indexInvolvedNpcs vend (quest_id quest) (quest_name quest)
           (quest_involvedNpcs quest) npcs)"
  have "set (questInvolvementOf npcs k) \<subseteq> set (questInvolvementOf ?npcs1 k)"
    by (rule indexInvolvedNpcs_mono)
  also have "\<dots> \<subseteq> set (questInvolvementOf
      (snd (indexKillRequirements (quest_id quest) (quest_name quest)
         (quest_killRequirements quest) ?npcs1)) k)"
    by (rule indexKillRequirements_mono)
  finally show ?thesis unfolding indexQuest_npcs .
qed

lemma indexQuest_dialogue:
  assumes "e \<in> set (quest_involvedNpcs quest)" "vendorGet vend npcs (qn_npcId e) = Some (ref, n)"
  shows "\<lparr>qi_questId = quest_id quest, qi_questName = quest_name quest, qi_role = dialogue\<rparr>
     \<in> set (questInvolvementOf (fst (snd (indexQuest vend quest (npcs, items)))) ref)"
proof -
  let ?npcs1 = "snd (indexInvolvedNpcs vend (quest_id quest) (quest_name quest)
           (quest_involvedNpcs quest) npcs)"
  have "\<lparr>qi_questId = quest_id quest, qi_questName = quest_name quest, qi_role = dialogue\<rparr>
     \<in> set (questInvolvementOf ?npcs1 ref)"
    using assms by (rule indexInvolvedNpcs_pushed)
  moreover have "set (questInvolvementOf ?npcs1 ref) \<subseteq> set (questInvolvementOf
      (snd (indexKillRequirements (quest_id quest) (quest_name quest)
         (quest_killRequirements quest) ?npcs1)) ref)"
    by (rule indexKillRequirements_mono)
  ultimately show ?thesis unfolding indexQuest_npcs by (rule set_mp [rotated])
qed

lemma indexQuest_kill:
  assumes "e \<in> set (quest_killRequirements quest)" "map_of npcs (kr_npcId e) \<noteq> None"
  shows "\<lparr>qi_questId = quest_id quest, qi_questName = quest_name quest, qi_role = kill\<rparr>
     \<in> set (questInvolvementOf (fst (snd (indexQuest vend quest (npcs, items)))) (kr_npcId e))"
proof -
  let ?npcs1 = "snd (indexInvolvedNpcs vend (quest_id quest) (quest_name quest)
           (quest_involvedNpcs quest) npcs)"
  have "npcCore ?npcs1 = npcCore npcs"
    using indexInvolvedNpcs_entries [of vend "quest_id quest" "quest_name quest"
        "quest_involvedNpcs quest" npcs] by simp
  then have "map_of ?npcs1 (kr_npcId e) \<noteq> None"
    using assms(2) npcCore_None [of ?npcs1 npcs "kr_npcId e"] by simp
  from indexKillRequirements_pushed [OF assms(1) this] show ?thesis
    unfolding indexQuest_npcs .
qed

lemma indexQuests_npcs_Cons:
  "fst (indexQuests npcs items ((qid, quest) # rest) vend) =
   fst (indexQuests (fst (snd (indexQuest vend quest (npcs, items))))
           (snd (snd (indexQuest vend quest (npcs, items)))) rest vend)"
  using indexQuests_tables_Cons [of npcs items qid quest rest vend] by simp

lemma indexQuests_mono:
  "set (questInvolvementOf npcs k) \<subseteq>
   set (questInvolvementOf (fst (indexQuests npcs items quests vend)) k)"
proof (induction quests arbitrary: npcs items)
  case Nil
  then show ?case by simp
next
  case (Cons a quests)
  obtain qid quest where a: "a = (qid, quest)" by (cases a)
  let ?npcs1 = "fst (snd (indexQuest vend quest (npcs, items)))"
  let ?items1 = "snd (snd (indexQuest vend quest (npcs, items)))"
  have "set (questInvolvementOf npcs k) \<subseteq> set (questInvolvementOf ?npcs1 k)"
    by (rule indexQuest_mono)
  also have "\<dots> \<subseteq> set (questInvolvementOf (fst (indexQuests ?npcs1 ?items1 quests vend)) k)"
    by (rule Cons.IH)
  finally show ?case unfolding a indexQuests_npcs_Cons .
qed

lemma indexQuests_dialogue:
  assumes "(qid, quest) \<in> set quests" "e \<in> set (quest_involvedNpcs quest)"
    "vendorGet vend npcs (qn_npcId e) = Some (ref, n)"
  shows "\<lparr>qi_questId = quest_id quest, qi_questName = quest_name quest, qi_role = dialogue\<rparr>
     \<in> set (questInvolvementOf (fst (indexQuests npcs items quests vend)) ref)"
  using assms
proof (induction quests arbitrary: npcs items n)
  case Nil
  then show ?case by simp
next
  case (Cons a quests)
  obtain qid0 quest0 where a: "a = (qid0, quest0)" by (cases a)
  let ?npcs1 = "fst (snd (indexQuest vend quest0 (npcs, items)))"
  let ?items1 = "snd (snd (indexQuest vend quest0 (npcs, items)))"
  show ?case
  proof (cases "(qid, quest) = a")
    case True
    then have "quest0 = quest" using a by simp
    have "\<lparr>qi_questId = quest_id quest, qi_questName = quest_name quest, qi_role = dialogue\<rparr>
        \<in> set (questInvolvementOf (fst (snd (indexQuest vend quest (npcs, items)))) ref)"
      using Cons.prems(2) Cons.prems(3) by (rule indexQuest_dialogue)
    then have "\<lparr>qi_questId = quest_id quest, qi_questName = quest_name quest, qi_role = dialogue\<rparr>
        \<in> set (questInvolvementOf ?npcs1 ref)"
      using \<open>quest0 = quest\<close> by simp
    then show ?thesis
      unfolding a indexQuests_npcs_Cons
      using indexQuests_mono [of ?npcs1 ref ?items1 quests vend] by (rule set_mp [rotated])
  next
    case False
    with Cons.prems(1) have m: "(qid, quest) \<in> set quests" by auto
    have "npcCore npcs = npcCore ?npcs1"
      using indexQuest_entries [of vend quest0 npcs items] by simp
    from vendorGet_ref_core [OF this Cons.prems(3)]
    obtain n' where "vendorGet vend ?npcs1 (qn_npcId e) = Some (ref, n')" by blast
    from Cons.IH [OF m Cons.prems(2) this] show ?thesis
      unfolding a indexQuests_npcs_Cons .
  qed
qed

lemma indexQuests_kill:
  assumes "(qid, quest) \<in> set quests" "e \<in> set (quest_killRequirements quest)"
    "map_of npcs (kr_npcId e) \<noteq> None"
  shows "\<lparr>qi_questId = quest_id quest, qi_questName = quest_name quest, qi_role = kill\<rparr>
     \<in> set (questInvolvementOf (fst (indexQuests npcs items quests vend)) (kr_npcId e))"
  using assms
proof (induction quests arbitrary: npcs items)
  case Nil
  then show ?case by simp
next
  case (Cons a quests)
  obtain qid0 quest0 where a: "a = (qid0, quest0)" by (cases a)
  let ?npcs1 = "fst (snd (indexQuest vend quest0 (npcs, items)))"
  let ?items1 = "snd (snd (indexQuest vend quest0 (npcs, items)))"
  show ?case
  proof (cases "(qid, quest) = a")
    case True
    then have "quest0 = quest" using a by simp
    have "\<lparr>qi_questId = quest_id quest, qi_questName = quest_name quest, qi_role = kill\<rparr>
        \<in> set (questInvolvementOf (fst (snd (indexQuest vend quest (npcs, items)))) (kr_npcId e))"
      using Cons.prems(2) Cons.prems(3) by (rule indexQuest_kill)
    then have "\<lparr>qi_questId = quest_id quest, qi_questName = quest_name quest, qi_role = kill\<rparr>
        \<in> set (questInvolvementOf ?npcs1 (kr_npcId e))"
      using \<open>quest0 = quest\<close> by simp
    then show ?thesis
      unfolding a indexQuests_npcs_Cons
      using indexQuests_mono [of ?npcs1 "kr_npcId e" ?items1 quests vend] by (rule set_mp [rotated])
  next
    case False
    with Cons.prems(1) have m: "(qid, quest) \<in> set quests" by auto
    have "npcCore ?npcs1 = npcCore npcs"
      using indexQuest_entries [of vend quest0 npcs items] by simp
    then have "map_of ?npcs1 (kr_npcId e) \<noteq> None"
      using Cons.prems(3) npcCore_None [of ?npcs1 npcs "kr_npcId e"] by simp
    from Cons.IH [OF m Cons.prems(2) this] show ?thesis
      unfolding a indexQuests_npcs_Cons .
  qed
qed

lemma buildVendorIndex_lookup:
  "map_of (buildVendorIndex npcs) v =
     (case filter (\<lambda>(k, n). (npc_behaviorId n \<noteq> 0 \<and> 0 < npc_behaviorId n) \<and> npc_behaviorId n = v) npcs of
        [] \<Rightarrow> None
      | y # ys \<Rightarrow> Some (fst (last (y # ys))))"
  unfolding buildVendorIndex_def
  using foldl_update_lookup [of "\<lambda>k n. npc_behaviorId n \<noteq> 0 \<and> 0 < npc_behaviorId n"
      "\<lambda>k n. npc_behaviorId n" "\<lambda>k n. k" "[]" npcs v]
  by (simp add: case_prod_unfold split: list.splits)

lemma vendorGet_buildVendorIndex:
  assumes "map_of npcs k = Some n" "npc_behaviorId n = v" "0 < v"
    and "\<forall>(k', n') \<in> set npcs. npc_behaviorId n' = v \<longrightarrow> k' = k"
  shows "vendorGet (buildVendorIndex npcs) npcs v = Some (k, n)"
proof -
  let ?F = "filter (\<lambda>(k, n). (npc_behaviorId n \<noteq> 0 \<and> 0 < npc_behaviorId n) \<and> npc_behaviorId n = v) npcs"
  have "(k, n) \<in> set npcs" using assms(1) by (rule map_of_SomeD)
  then have "(k, n) \<in> set ?F" using assms(2,3) by simp
  then have ne: "?F \<noteq> []" by (metis empty_iff list.set(1))
  then have "last ?F \<in> set ?F" by (rule last_in_set)
  then have "fst (last ?F) = k" using assms(4) by auto
  moreover obtain y ys where "?F = y # ys" using ne by (cases ?F) auto
  ultimately have "map_of (buildVendorIndex npcs) v = Some k"
    by (simp add: buildVendorIndex_lookup)
  with assms(1) show ?thesis by (simp add: vendorGet_def)
qed

text \<open>
  Claim C3. In the quest pass run with the vendor id index built from the NPC table, an
  entry of a quest's dialogue NPCs whose reference is the vendor id of an NPC (stored under
  key \<open>k\<close>, the only NPC with that vendor id) becomes the entry with that NPC's name, its
  own id (\<^verbatim>\<open>enfId\<close>) and graphic, the reference itself staying in \<^verbatim>\<open>npcId\<close>; and the NPC under
  \<open>k\<close> receives the quest's dialogue involvement. A kill requirement whose reference is a
  key of the NPC table becomes the entry with that NPC's name, id and graphic, and that NPC
  receives the quest's kill involvement, whatever the vendor id index is.
\<close>

theorem quest_npc_references_resolved:
  assumes "(qid, quest) \<in> set quests"
    and "e \<in> set (quest_involvedNpcs quest)"
    and "map_of npcs k = Some n" and "npc_behaviorId n = qn_npcId e" and "0 < qn_npcId e"
    and "\<forall>(k', n') \<in> set npcs. npc_behaviorId n' = qn_npcId e \<longrightarrow> k' = k"
    and "kr \<in> set (quest_killRequirements quest)"
    and "map_of npcs (kr_npcId kr) = Some m"
  shows
    "(\<exists>quest'. (qid, quest') \<in> set (snd (snd (indexQuests npcs items quests (buildVendorIndex npcs))))
        \<and> e\<lparr>qn_npcName := Some (npc_name n), qn_enfId := Some (npc_id n),
              qn_graphicId := Some (npc_graphicId n)\<rparr> \<in> set (quest_involvedNpcs quest'))
     \<and> \<lparr>qi_questId = quest_id quest, qi_questName = quest_name quest, qi_role = dialogue\<rparr>
         \<in> set (questInvolvementOf
                  (fst (indexQuests npcs items quests (buildVendorIndex npcs))) k)
     \<and> (\<exists>quest'. (qid, quest') \<in> set (snd (snd (indexQuests npcs items quests npcsByVendorId)))
        \<and> kr\<lparr>kr_npcName := Some (npc_name m), kr_enfId := Some (npc_id m),
               kr_graphicId := Some (npc_graphicId m)\<rparr> \<in> set (quest_killRequirements quest'))
     \<and> \<lparr>qi_questId = quest_id quest, qi_questName = quest_name quest, qi_role = kill\<rparr>
         \<in> set (questInvolvementOf
                  (fst (indexQuests npcs items quests npcsByVendorId)) (kr_npcId kr))"
proof -
  let ?V = "buildVendorIndex npcs"
  let ?e' = "e\<lparr>qn_npcName := Some (npc_name n), qn_enfId := Some (npc_id n),
              qn_graphicId := Some (npc_graphicId n)\<rparr>"
  let ?kr' = "kr\<lparr>kr_npcName := Some (npc_name m), kr_enfId := Some (npc_id m),
               kr_graphicId := Some (npc_graphicId m)\<rparr>"
  have member: "(qid, resolveQuest vend npcs items quest)
      \<in> set (snd (snd (indexQuests npcs items quests vend)))" for vend
  proof -
    have "(\<lambda>(qid, quest). (qid, resolveQuest vend npcs items quest)) (qid, quest)
        \<in> (\<lambda>(qid, quest). (qid, resolveQuest vend npcs items quest)) ` set quests"
      using assms(1) by (rule imageI)
    then show ?thesis
      using indexQuests_entries [of npcs items quests vend] by simp
  qed
  have v: "vendorGet ?V npcs (qn_npcId e) = Some (k, n)"
    using assms(3) assms(4) assms(5) assms(6) by (rule vendorGet_buildVendorIndex)
  have e1: "?e' \<in> set (quest_involvedNpcs (resolveQuest ?V npcs items quest))"
  proof -
    have "resolveQuestNpc ?V npcs e = ?e'"
      using v by (simp add: resolveQuestNpc_def)
    moreover have "resolveQuestNpc ?V npcs e \<in> resolveQuestNpc ?V npcs ` set (quest_involvedNpcs quest)"
      using assms(2) by (rule imageI)
    ultimately show ?thesis by (simp add: resolveQuest_def)
  qed
  have d: "\<lparr>qi_questId = quest_id quest, qi_questName = quest_name quest, qi_role = dialogue\<rparr>
         \<in> set (questInvolvementOf (fst (indexQuests npcs items quests ?V)) k)"
    using assms(1) assms(2) v by (rule indexQuests_dialogue)
  have e2: "?kr' \<in> set (quest_killRequirements (resolveQuest npcsByVendorId npcs items quest))"
  proof -
    have "resolveKill npcs kr = ?kr'"
      using assms(8) by (simp add: resolveKill_def)
    moreover have "resolveKill npcs kr \<in> resolveKill npcs ` set (quest_killRequirements quest)"
      using assms(7) by (rule imageI)
    ultimately show ?thesis by (simp add: resolveQuest_def)
  qed
  have "map_of npcs (kr_npcId kr) \<noteq> None" using assms(8) by simp
  with assms(1) assms(7)
  have kl: "\<lparr>qi_questId = quest_id quest, qi_questName = quest_name quest, qi_role = kill\<rparr>
         \<in> set (questInvolvementOf (fst (indexQuests npcs items quests npcsByVendorId)) (kr_npcId kr))"
    by (rule indexQuests_kill)
  have A: "\<exists>quest'. (qid, quest') \<in> set (snd (snd (indexQuests npcs items quests ?V)))
        \<and> ?e' \<in> set (quest_involvedNpcs quest')"
    using member [of ?V] e1 by (intro exI conjI)
  have B: "\<exists>quest'. (qid, quest') \<in> set (snd (snd (indexQuests npcs items quests npcsByVendorId)))
        \<and> ?kr' \<in> set (quest_killRequirements quest')"
    using member [of npcsByVendorId] e2 by (intro exI conjI)
  show ?thesis
    using A d B kl by (intro conjI)
qed

theorem quest_npc_references_resolved_witness:
  "(\<exists>quest'. (7, quest') \<in> set (snd (snd (indexQuests exNpcs exItems exQuests (buildVendorIndex exNpcs))))
      \<and> \<lparr>qn_npcId = 500, qn_npcName = Some ''Sage'', qn_enfId = Some 12, qn_graphicId = Some 6\<rparr>
          \<in> set (quest_involvedNpcs quest'))
   \<and> \<lparr>qi_questId = 7, qi_questName = ''Lost Ring'', qi_role = dialogue\<rparr>
       \<in> set (questInvolvementOf
                (fst (indexQuests exNpcs exItems exQuests (buildVendorIndex exNpcs))) 12)
   \<and> (\<exists>quest'. (7, quest') \<in> set (snd (snd (indexQuests exNpcs exItems exQuests [])))
      \<and> \<lparr>kr_npcId = 12, kr_count = 3, kr_npcName = Some ''Sage'', kr_enfId = Some 12,
           kr_graphicId = Some 6\<rparr> \<in> set (quest_killRequirements quest'))
   \<and> \<lparr>qi_questId = 7, qi_questName = ''Lost Ring'', qi_role = kill\<rparr>
       \<in> set (questInvolvementOf (fst (indexQuests exNpcs exItems exQuests [])) 12)"
proof -
  have h1: "(7, exQuest) \<in> set exQuests" by (simp add: exQuests_def)
  have h2: "\<lparr>qn_npcId = 500, qn_npcName = None, qn_enfId = None, qn_graphicId = None\<rparr>
      \<in> set (quest_involvedNpcs exQuest)" by (simp add: exQuest_def)
  have h3: "map_of exNpcs 12 = Some (newNpc 12 ''Sage'' 6 500)" by (simp add: exNpcs_def)
  have h4: "npc_behaviorId (newNpc 12 ''Sage'' 6 500) =
      qn_npcId \<lparr>qn_npcId = 500, qn_npcName = None, qn_enfId = None, qn_graphicId = None\<rparr>"
    by (simp add: newNpc_def)
  have h5: "0 < qn_npcId \<lparr>qn_npcId = 500, qn_npcName = None, qn_enfId = None, qn_graphicId = None\<rparr>"
    by simp
  have h6: "\<forall>(k', n') \<in> set exNpcs. npc_behaviorId n' =
      qn_npcId \<lparr>qn_npcId = 500, qn_npcName = None, qn_enfId = None, qn_graphicId = None\<rparr>
      \<longrightarrow> k' = 12"
    by (simp add: exNpcs_def newNpc_def)
  have h7: "\<lparr>kr_npcId = 12, kr_count = 3, kr_npcName = None, kr_enfId = None, kr_graphicId = None\<rparr>
      \<in> set (quest_killRequirements exQuest)" by (simp add: exQuest_def)
  have h8: "map_of exNpcs (kr_npcId \<lparr>kr_npcId = 12, kr_count = 3, kr_npcName = None,
      kr_enfId = None, kr_graphicId = None\<rparr>) = Some (newNpc 12 ''Sage'' 6 500)"
    by (simp add: exNpcs_def)
  show ?thesis
    using quest_npc_references_resolved [OF h1 h2 h3 h4 h5 h6 h7 h8, of exItems "[]"]
    by (simp add: newNpc_def exQuest_def)
qed

section \<open>The scan ranges of the map and quest loaders\<close>

lemma digitsValue_append:
  "digitsValue (xs @ ys) = foldl (\<lambda>a c. 10 * a + (of_char c - 48)) (digitsValue xs) ys"
  by (simp add: digitsValue_def)





















section \<open>The build as a whole\<close>






lemma exEnv_loads:
  "loadItems exEnv = Inr (tableOfRecords eif_name
      (\<lambda>i record. newItem i (eif_name record) (eif_graphicId record))
      (replicate 9 \<lparr>eif_name = [], eif_graphicId = 0\<rparr> @
               [\<lparr>eif_name = ''Potion'', eif_graphicId = 3\<rparr>]))"
  by (simp add: loadItems_def loadFile_def exEnv_def)


text \<open>
  Claim C1 fails on the code. \<^verbatim>\<open>loadSpecialMobs\<close> awaits \<^verbatim>\<open>loadTextFile\<close> with no \<^verbatim>\<open>try\<close>, unlike
  \<^verbatim>\<open>loadDrops\<close> and \<^verbatim>\<open>loadShops\<close>: when the file cannot be fetched the loader rejects, and
  with it \<^verbatim>\<open>Promise.all\<close> and the whole build. Whatever the other sources are, the build
  ends in a failure.
\<close>

theorem missing_special_mobs_fails_build:
  assumes "fetchText env ''/data/specialmobs.ini'' = None"
  shows "\<exists>e. loadGameDatabase env = Inl e"
proof -
  have "loadSpecialMobs env = Inl (FetchFailed ''specialmobs.ini'')"
    using assms by (simp add: loadSpecialMobs_def loadTextFile_def)
  then show ?thesis
    by (simp add: loadGameDatabase_def awaited_def Let_def split: sum.splits)
qed

theorem missing_special_mobs_fails_build_witness:
  "fetchText exEnvNoMobs ''/data/specialmobs.ini'' = None
   \<and> (\<exists>e. loadGameDatabase exEnvNoMobs = Inl e)
   \<and> loadGameDatabase exEnvNoMobs = Inl (FetchFailed ''specialmobs.ini'')
   \<and> loadDrops (exEnv\<lparr>fetchText := \<lambda>url. None\<rparr>) = []"
proof -
  have 1: "fetchText exEnvNoMobs ''/data/specialmobs.ini'' = None"
    by (simp add: exEnvNoMobs_def)
  have 2: "loadGameDatabase exEnvNoMobs = Inl (FetchFailed ''specialmobs.ini'')"
    by (simp add: loadGameDatabase_def awaited_def loadItems_def loadNpcs_def loadSpells_def
        loadClasses_def loadFile_def loadPets_def loadSpecialDrops_def loadSpecialMobs_def
        loadTextFile_def exEnvNoMobs_def exEnv_def)
  have 3: "loadDrops (exEnv\<lparr>fetchText := \<lambda>url. None\<rparr>) = []"
    by (simp add: loadDrops_def loadTextFile_def)
  from 1 2 3 show ?thesis
    using missing_special_mobs_fails_build [OF 1] by simp
qed

section \<open>The tables a build starts from\<close>

lemma tableOfRecords_distinct: "distinct (map fst (tableOfRecords name build records))"
proof -
  let ?zs = "filter (\<lambda>(index, record). name record \<noteq> [] \<and> trim (name record) \<noteq> [])
          (zip [0 ..< length records] records)"
  have "distinct (map fst (zip [0 ..< length records] records))"
    by (simp add: map_fst_zip)
  then have d: "distinct (map fst ?zs)"
    by (rule distinct_map_filter)
  have "map fst (tableOfRecords name build records) = map (\<lambda>i. int i + 1) (map fst ?zs)"
    by (simp add: tableOfRecords_def case_prod_unfold comp_def)
  moreover have "distinct (map (\<lambda>i. int i + 1) (map fst ?zs))"
  proof -
    have "inj_on (\<lambda>i. int i + 1) (set (map fst ?zs))"
      by (rule inj_onI) simp
    with d show ?thesis
      unfolding distinct_map [of "\<lambda>i. int i + 1"] by (rule conjI)
  qed
  ultimately show ?thesis by simp
qed

lemma tableOfRecords_all:
  "(\<And>i r. P (i, build i r)) \<Longrightarrow> list_all P (tableOfRecords name build records)"
  by (auto simp: tableOfRecords_def list_all_iff)

text \<open>
  The tables a build starts from meet the conditions under which the passes are studied:
  distinct keys, every entity under its own id, and no relationship field set.
\<close>

lemma loadItems_fresh:
  assumes "loadItems env = Inr items"
  shows "distinct (map fst items)"
    and "list_all (\<lambda>(i, it). item_id it = i \<and> item_dropsFrom it = None) items"
proof -
  from assms have "\<exists>records :: EifRecord list. items = tableOfRecords eif_name
      (\<lambda>i record. newItem i (eif_name record) (eif_graphicId record)) records"
    by (auto simp: loadItems_def split: sum.splits option.splits)
  then obtain records :: "EifRecord list" where items: "items = tableOfRecords eif_name
      (\<lambda>i record. newItem i (eif_name record) (eif_graphicId record)) records" ..
  show "distinct (map fst items)" unfolding items by (rule tableOfRecords_distinct)
  show "list_all (\<lambda>(i, it). item_id it = i \<and> item_dropsFrom it = None) items"
    unfolding items by (rule tableOfRecords_all) (simp add: newItem_def)
qed

lemma loadNpcs_fresh:
  assumes "loadNpcs env = Inr npcs"
  shows "distinct (map fst npcs)"
    and "list_all (\<lambda>(k, n). npc_id n = k \<and> npc_drops n = None) npcs"
proof -
  from assms have "\<exists>records :: EnfRecord list. npcs = tableOfRecords enf_name
      (\<lambda>i record. newNpc i (enf_name record) (enf_graphicId record) (enf_behaviorId record))
      records"
    by (auto simp: loadNpcs_def split: sum.splits option.splits)
  then obtain records :: "EnfRecord list" where npcs: "npcs = tableOfRecords enf_name
      (\<lambda>i record. newNpc i (enf_name record) (enf_graphicId record) (enf_behaviorId record))
      records" ..
  show "distinct (map fst npcs)" unfolding npcs by (rule tableOfRecords_distinct)
  show "list_all (\<lambda>(k, n). npc_id n = k \<and> npc_drops n = None) npcs"
    unfolding npcs by (rule tableOfRecords_all) (simp add: newNpc_def)
qed

lemma foldl_distinct_keys:
  assumes "\<And>m x. distinct (map fst m) \<Longrightarrow> distinct (map fst (f m x))"
    and "distinct (map fst m0)"
  shows "distinct (map fst (foldl f m0 xs))"
  using assms(2) by (induction xs arbitrary: m0) (simp_all add: assms(1))

lemma loadDrops_distinct: "distinct (map fst (loadDrops env))"
proof (cases "loadTextFile env ''drops.ini''")
  case (Inl e)
  then show ?thesis by (simp add: loadDrops_def)
next
  case (Inr content)
  have "distinct (map fst (foldl dropsLine [] (split CHR 0x0A content)))"
    by (rule foldl_distinct_keys)
       (auto simp: dropsLine_def Let_def distinct_update split: option.splits)
  with Inr show ?thesis by (simp add: loadDrops_def)
qed

lemma loadNpcSpellcasts_distinct:
  assumes "loadNpcSpellcasts env = Inr spellcasts"
  shows "distinct (map fst spellcasts)"
proof -
  from assms have "\<exists>content. spellcasts = foldl spellcastsLine [] (split CHR 0x0A content)"
    by (auto simp: loadNpcSpellcasts_def split: sum.splits)
  then obtain content where "spellcasts = foldl spellcastsLine [] (split CHR 0x0A content)" ..
  moreover have "distinct (map fst (foldl spellcastsLine [] (split CHR 0x0A content)))"
    by (rule foldl_distinct_keys)
       (auto simp: spellcastsLine_def Let_def distinct_update split: option.splits)
  ultimately show ?thesis by simp
qed

end
